theory Spec2Isabelle
  imports Complex_Main
begin

section \<open>JavaScript values\<close>

text \<open>
  The price service stores and forwards JSON values without looking inside them, except
  for their truthiness and for the property reads of the three upstream adapters. Numbers
  are modelled as reals (no arithmetic is ever done on a price), strings as character
  lists, objects as association lists in insertion order.
\<close>

datatype jsval =
    JUndefined
  | JNull
  | JBool bool
  | JNum real
  | JStr string
  | JArr "jsval list"
  | JObj "(string \<times> jsval) list"

text \<open>ToBoolean: the falsy values are undefined, null, false, 0 and the empty string.\<close>

fun truthy :: "jsval \<Rightarrow> bool" where
  "truthy JUndefined = False"
| "truthy JNull = False"
| "truthy (JBool b) = b"
| "truthy (JNum x) = (x \<noteq> 0)"
| "truthy (JStr s) = (s \<noteq> [])"
| "truthy (JArr xs) = True"
| "truthy (JObj kvs) = True"

fun nullish :: "jsval \<Rightarrow> bool" where
  "nullish JUndefined = True"
| "nullish JNull = True"
| "nullish v = False"

text \<open>An \<open>Error\<close> object; only its \<open>message\<close> is ever read.\<close>

datatype jserror = Error (message: string)

text \<open>
  What a \<open>throw\<close> statement can carry: \<open>fetchWithBackoff\<close> throws its variable
  \<open>lastError\<close>, which is \<open>undefined\<close> until an attempt has failed.
\<close>

datatype thrown = ThrowUndefined | Throw jserror

text \<open>
  Property read \<open>v.k\<close> on a value that is neither null nor undefined. Only the names the
  adapters read occur (\<open>bitcoin\<close>, \<open>usd\<close>, \<open>rates\<close>, \<open>USD\<close>, \<open>status\<close>, \<open>results\<close>,
  \<open>length\<close>, \<open>0\<close>, \<open>c\<close>, \<open>v\<close>, \<open>h\<close>, \<open>l\<close>); none of them is inherited from a prototype
  except \<open>length\<close> and the index \<open>0\<close> on arrays and strings.
\<close>

fun member :: "jsval \<Rightarrow> string \<Rightarrow> jsval" where
  "member (JObj kvs) k = (case map_of kvs k of None \<Rightarrow> JUndefined | Some v \<Rightarrow> v)"
| "member (JArr xs) k =
     (if k = ''length'' then JNum (of_nat (length xs))
      else if k = ''0'' then (case xs of [] \<Rightarrow> JUndefined | x # _ \<Rightarrow> x)
      else JUndefined)"
| "member (JStr s) k =
     (if k = ''length'' then JNum (of_nat (length s))
      else if k = ''0'' then (case s of [] \<Rightarrow> JUndefined | c # _ \<Rightarrow> JStr [c])
      else JUndefined)"
| "member v k = JUndefined"

text \<open>Optional chaining \<open>v?.k\<close>.\<close>

definition opt_member :: "jsval \<Rightarrow> string \<Rightarrow> jsval" where
  "opt_member v k = (if nullish v then JUndefined else member v k)"

text \<open>
  Plain \<open>v.k\<close>: a TypeError on null and undefined. The message is a stand-in for the
  engine's wording; only the fact that the read throws is used.
\<close>

definition read_member :: "jsval \<Rightarrow> string \<Rightarrow> jserror + jsval" where
  "read_member v k =
     (if nullish v then Inl (Error (''Cannot read properties of null or undefined (reading '' @ k @ '')''))
      else Inr (member v k))"

text \<open>Property assignment \<open>obj[k] = v\<close> on an object literal: an existing key keeps its place.\<close>

fun obj_set :: "string \<Rightarrow> 'a \<Rightarrow> (string \<times> 'a) list \<Rightarrow> (string \<times> 'a) list" where
  "obj_set k v [] = [(k, v)]"
| "obj_set k v (p # ps) = (if fst p = k then (k, v) # ps else p # obj_set k v ps)"

section \<open>Configuration (config.js)\<close>

definition TTL_MIN :: int where "TTL_MIN = 300"
definition TTL_MAX :: int where "TTL_MAX = 600"
definition POLYGON_RATE_LIMIT :: int where "POLYGON_RATE_LIMIT = 5"
definition RATE_LIMIT_WINDOW :: int where "RATE_LIMIT_WINDOW = 60"
definition MAX_RETRIES :: int where "MAX_RETRIES = 5"
definition BASE_DELAY :: int where "BASE_DELAY = 16000"

section \<open>The environment and the process state\<close>

text \<open>
  A response of \<open>fetch\<close>: the promise rejects (transport failure), or it resolves to a
  response with \<open>ok\<close>, the rendered \<open>status\<close>, \<open>statusText\<close> and the outcome of
  \<open>response.json()\<close> (a parse error or the parsed body).
\<close>

datatype http_result =
    Rejected jserror
  | Response bool string string "jserror + jsval"

text \<open>
  Everything the code reads from outside is an oracle, indexed by how often it has been
  asked: the \<open>n\<close>-th \<open>Date.now()\<close>, the \<open>n\<close>-th \<open>Math.random()\<close>, the \<open>n\<close>-th HTTP request.
  No assumption is built in; a theorem states the ones it needs. \<open>tostring\<close> is
  ECMAScript's ToString, used only inside error messages.
\<close>

record env =
  clk :: "nat \<Rightarrow> int"
  rnd :: "nat \<Rightarrow> real"
  http :: "nat \<Rightarrow> string \<Rightarrow> http_result"
  tostring :: "jsval \<Rightarrow> string"
  POLYGON_API_KEY :: string

record entry =
  evalue :: jsval
  expiresAt :: int
  createdAt :: int

record Cache =
  store :: "string \<rightharpoonup> entry"
  hits :: nat
  misses :: nat
  sets :: nat

text \<open>What the process does that an observer outside can see: HTTP requests and sleeps.\<close>

datatype event = Request string | Sleep int

text \<open>
  The two singletons (\<open>cache\<close>, \<open>rateLimiter.requests\<close>), the oracle positions, and the
  log of upstream requests and sleeps, in order.
\<close>

record world =
  cache :: Cache
  requests :: "string \<rightharpoonup> int list"
  nreads :: nat
  ndraws :: nat
  ncalls :: nat
  trace :: "event list"

definition date_now :: "env \<Rightarrow> world \<Rightarrow> int \<times> world" where
  "date_now env w = (clk env (nreads w), w\<lparr>nreads := Suc (nreads w)\<rparr>)"

definition math_random :: "env \<Rightarrow> world \<Rightarrow> real \<times> world" where
  "math_random env w = (rnd env (ndraws w), w\<lparr>ndraws := Suc (ndraws w)\<rparr>)"

definition sleep :: "int \<Rightarrow> world \<Rightarrow> world" where
  "sleep ms w = w\<lparr>trace := trace w @ [Sleep ms]\<rparr>"

definition fetch :: "env \<Rightarrow> string \<Rightarrow> world \<Rightarrow> http_result \<times> world" where
  "fetch env url w =
     (http env (ncalls w) url, w\<lparr>ncalls := Suc (ncalls w), trace := trace w @ [Request url]\<rparr>)"

section \<open>Cache (cache.js)\<close>

text \<open>
  \<open>_getRandomTTL\<close>. The draw is scaled over the reals; the code scales it in double
  precision, so when the exact product lies within a rounding error of an integer the code's
  floor can be the neighbouring millisecond.
\<close>

definition getRandomTTL :: "env \<Rightarrow> world \<Rightarrow> int \<times> world" where
  "getRandomTTL env w =
     (let minMs = TTL_MIN * 1000;
          maxMs = TTL_MAX * 1000
      in case math_random env w of
           (r, w1) \<Rightarrow> (minMs + \<lfloor>r * of_int (maxMs - minMs + 1)\<rfloor>, w1))"

text \<open>\<open>set\<close> reads the clock twice: once for \<open>expiresAt\<close>, once for \<open>createdAt\<close>.\<close>

definition cache_set :: "env \<Rightarrow> string \<Rightarrow> jsval \<Rightarrow> world \<Rightarrow> world" where
  "cache_set env k v w =
     (case getRandomTTL env w of
        (ttlMs, w1) \<Rightarrow>
          (case date_now env w1 of
             (t1, w2) \<Rightarrow>
               (case date_now env w2 of
                  (t2, w3) \<Rightarrow>
                    w3\<lparr>cache := (cache w3)
                         \<lparr>store := (store (cache w3))
                                     (k \<mapsto> \<lparr>evalue = v, expiresAt = t1 + ttlMs, createdAt = t2\<rparr>),
                          sets := sets (cache w3) + 1\<rparr>\<rparr>)))"

text \<open>\<open>get\<close> returns \<open>null\<close> for a miss; the clock is read only when an entry exists.\<close>

definition cache_get :: "env \<Rightarrow> string \<Rightarrow> world \<Rightarrow> jsval \<times> world" where
  "cache_get env k w =
     (case store (cache w) k of
        None \<Rightarrow> (JNull, w\<lparr>cache := (cache w)\<lparr>misses := misses (cache w) + 1\<rparr>\<rparr>)
      | Some e \<Rightarrow>
          (case date_now env w of
             (t, w1) \<Rightarrow>
               if t > expiresAt e
               then (JNull, w1\<lparr>cache := (cache w1)\<lparr>misses := misses (cache w1) + 1\<rparr>\<rparr>)
               else (evalue e, w1\<lparr>cache := (cache w1)\<lparr>hits := hits (cache w1) + 1\<rparr>\<rparr>)))"

text \<open>\<open>getRaw\<close>: the entry whether expired or not; \<open>None\<close> stands for \<open>null\<close>.\<close>

definition cache_getRaw :: "string \<Rightarrow> world \<Rightarrow> entry option" where
  "cache_getRaw k w = store (cache w) k"

definition cache_has :: "env \<Rightarrow> string \<Rightarrow> world \<Rightarrow> bool \<times> world" where
  "cache_has env k w =
     (case store (cache w) k of
        None \<Rightarrow> (False, w)
      | Some e \<Rightarrow> (case date_now env w of (t, w1) \<Rightarrow> (t \<le> expiresAt e, w1)))"

definition cache_getRemainingTTL :: "env \<Rightarrow> string \<Rightarrow> world \<Rightarrow> int \<times> world" where
  "cache_getRemainingTTL env k w =
     (case store (cache w) k of
        None \<Rightarrow> (0, w)
      | Some e \<Rightarrow> (case date_now env w of (t, w1) \<Rightarrow> (max 0 (expiresAt e - t), w1)))"

definition cache_delete :: "string \<Rightarrow> world \<Rightarrow> bool \<times> world" where
  "cache_delete k w =
     (store (cache w) k \<noteq> None,
      w\<lparr>cache := (cache w)\<lparr>store := (store (cache w))(k := None)\<rparr>\<rparr>)"

definition cache_clear :: "world \<Rightarrow> world" where
  "cache_clear w = w\<lparr>cache := (cache w)\<lparr>store := Map.empty\<rparr>\<rparr>"

section \<open>Rate limiter (rateLimiter.js)\<close>

definition cleanup :: "env \<Rightarrow> string \<Rightarrow> world \<Rightarrow> world" where
  "cleanup env apiName w =
     (case date_now env w of
        (now, w1) \<Rightarrow>
          (let windowMs = RATE_LIMIT_WINDOW * 1000
           in case requests w1 apiName of
                None \<Rightarrow> w1\<lparr>requests := (requests w1)(apiName \<mapsto> [])\<rparr>
              | Some timestamps \<Rightarrow>
                  w1\<lparr>requests := (requests w1)
                        (apiName \<mapsto> filter (\<lambda>ts. now - ts < windowMs) timestamps)\<rparr>))"

text \<open>\<open>this.requests.get(apiName) || []\<close>\<close>

definition timestamps_of :: "string \<Rightarrow> world \<Rightarrow> int list" where
  "timestamps_of apiName w = (case requests w apiName of None \<Rightarrow> [] | Some ts \<Rightarrow> ts)"

definition canMakeRequest :: "env \<Rightarrow> string \<Rightarrow> int \<Rightarrow> world \<Rightarrow> bool \<times> world" where
  "canMakeRequest env apiName limit w =
     (let w1 = cleanup env apiName w;
          timestamps = timestamps_of apiName w1
      in (int (length timestamps) < limit, w1))"

definition recordRequest :: "env \<Rightarrow> string \<Rightarrow> world \<Rightarrow> world" where
  "recordRequest env apiName w =
     (let w1 = cleanup env apiName w;
          timestamps = timestamps_of apiName w1
      in case date_now env w1 of
           (t, w2) \<Rightarrow> w2\<lparr>requests := (requests w2)(apiName \<mapsto> timestamps @ [t])\<rparr>)"

record usage =
  used :: int
  limit :: int
  remaining :: int
  resetIn :: int

text \<open>
  \<open>getUsage\<close> reads the clock again after the cleanup. \<open>Math.min(...timestamps)\<close> is taken
  only of a non-empty array; on an empty one the code substitutes \<open>now\<close>.
\<close>

definition getUsage :: "env \<Rightarrow> string \<Rightarrow> int \<Rightarrow> world \<Rightarrow> usage \<times> world" where
  "getUsage env apiName lmt w =
     (let w1 = cleanup env apiName w;
          timestamps = timestamps_of apiName w1
      in case date_now env w1 of
           (now, w2) \<Rightarrow>
             (let windowMs = RATE_LIMIT_WINDOW * 1000;
                  oldestTimestamp = (case timestamps of [] \<Rightarrow> now | t # ts \<Rightarrow> fold min ts t);
                  resetIn = max 0 \<lceil>(of_int (windowMs - (now - oldestTimestamp)) :: real) / 1000\<rceil>
              in (\<lparr>used = int (length timestamps), limit = lmt,
                   remaining = max 0 (lmt - int (length timestamps)), resetIn = resetIn\<rparr>, w2)))"

definition reset :: "world \<Rightarrow> world" where
  "reset w = w\<lparr>requests := Map.empty\<rparr>"

section \<open>Price fetcher (priceService.js)\<close>

subsection \<open>Retry with exponential backoff\<close>

text \<open>
  The \<open>for\<close> loop of \<open>fetchWithBackoff\<close>, from \<open>attempt\<close> on. A returned value leaves the
  loop; a caught error is remembered, and slept on unless this was the last attempt.
\<close>

function fetchWithBackoff_loop ::
  "(world \<Rightarrow> (jserror + 'a) \<times> world) \<Rightarrow> int \<Rightarrow> nat \<Rightarrow> thrown \<Rightarrow> world \<Rightarrow> (thrown + 'a) \<times> world"
where
  "fetchWithBackoff_loop fetchFn maxRetries attempt lastError w =
     (if int attempt < maxRetries
      then (case fetchFn w of
              (Inr v, w1) \<Rightarrow> (Inr v, w1)
            | (Inl e, w1) \<Rightarrow>
                fetchWithBackoff_loop fetchFn maxRetries (Suc attempt) (Throw e)
                  (if int attempt < maxRetries - 1
                   then sleep (BASE_DELAY * 2 ^ attempt) w1
                   else w1))
      else (Inl lastError, w))"
  by pat_completeness auto
termination
  by (relation "measure (\<lambda>(fetchFn, maxRetries, attempt, lastError, w). nat (maxRetries - int attempt))") auto

declare fetchWithBackoff_loop.simps [simp del]

definition fetchWithBackoff ::
  "(world \<Rightarrow> (jserror + 'a) \<times> world) \<Rightarrow> int \<Rightarrow> world \<Rightarrow> (thrown + 'a) \<times> world"
where
  "fetchWithBackoff fetchFn maxRetries w = fetchWithBackoff_loop fetchFn maxRetries 0 ThrowUndefined w"

subsection \<open>The three upstream adapters\<close>

definition coingecko_url :: string where
  "coingecko_url = ''https://api.coingecko.com/api/v3/simple/price?ids=bitcoin&vs_currencies=usd''"

definition exchangerate_url :: string where
  "exchangerate_url = ''https://api.exchangerate-api.com/v4/latest/EUR''"

definition polygon_url :: "env \<Rightarrow> string \<Rightarrow> string" where
  "polygon_url env ticker =
     ''https://api.polygon.io/v2/aggs/ticker/'' @ ticker @ ''/prev?apiKey='' @ POLYGON_API_KEY env"

definition fetchBtcPrice :: "env \<Rightarrow> world \<Rightarrow> (jserror + jsval) \<times> world" where
  "fetchBtcPrice env w =
     (case fetch env coingecko_url w of
        (response, w1) \<Rightarrow>
          (case response of
             Rejected e \<Rightarrow> Inl e
           | Response ok status statusText json \<Rightarrow>
               if \<not> ok then Inl (Error (''CoinGecko HTTP '' @ status @ '': '' @ statusText))
               else (case json of
                       Inl e \<Rightarrow> Inl e
                     | Inr data \<Rightarrow>
                         (let price = opt_member (opt_member data ''bitcoin'') ''usd''
                          in if \<not> truthy price
                             then Inl (Error ''CoinGecko: No BTC price in response'')
                             else Inr price)),
           w1))"

definition fetchEurUsdRate :: "env \<Rightarrow> world \<Rightarrow> (jserror + jsval) \<times> world" where
  "fetchEurUsdRate env w =
     (case fetch env exchangerate_url w of
        (response, w1) \<Rightarrow>
          (case response of
             Rejected e \<Rightarrow> Inl e
           | Response ok status statusText json \<Rightarrow>
               if \<not> ok then Inl (Error (''ExchangeRate HTTP '' @ status @ '': '' @ statusText))
               else (case json of
                       Inl e \<Rightarrow> Inl e
                     | Inr data \<Rightarrow>
                         (let rate = opt_member (opt_member data ''rates'') ''USD''
                          in if \<not> truthy rate
                             then Inl (Error ''ExchangeRate: No USD rate in response'')
                             else Inr rate)),
           w1))"

text \<open>
  \<open>data.status\<close> and \<open>data.results[0].c\<close> are plain property reads: they raise a TypeError
  on a \<open>null\<close> body and on a missing first result.
\<close>

definition fetchPolygonPrice :: "env \<Rightarrow> string \<Rightarrow> world \<Rightarrow> (jserror + jsval) \<times> world" where
  "fetchPolygonPrice env ticker w =
     (case fetch env (polygon_url env ticker) w of
        (response, w1) \<Rightarrow>
          (case response of
             Rejected e \<Rightarrow> Inl e
           | Response ok status statusText json \<Rightarrow>
               if \<not> ok then Inl (Error (''Polygon HTTP '' @ status @ '': '' @ statusText))
               else (case json of
                       Inl e \<Rightarrow> Inl e
                     | Inr data \<Rightarrow>
                         (case read_member data ''status'' of
                            Inl e \<Rightarrow> Inl e
                          | Inr st \<Rightarrow>
                              (let results = member data ''results''
                               in if st \<noteq> JStr ''OK'' \<or> \<not> truthy results
                                     \<or> member results ''length'' = JNum 0
                                  then Inl (Error (''Polygon '' @ ticker @ '': ''
                                         @ (if truthy st then tostring env st else ''No results'')))
                                  else (case read_member (member results ''0'') ''c'' of
                                          Inl e \<Rightarrow> Inl e
                                        | Inr c \<Rightarrow>
                                            Inr (JObj [(''price'', c),
                                                       (''volume'', member (member results ''0'') ''v''),
                                                       (''high'', member (member results ''0'') ''h''),
                                                       (''low'', member (member results ''0'') ''l'')]))))),
           w1))"

subsection \<open>One key: fetchAndCachePrice\<close>

text \<open>
  The object \<open>fetchAndCachePrice\<close> returns. \<open>value\<close>, \<open>stale\<close> and \<open>error\<close> are present in some
  of the three return statements only; \<open>None\<close> is an absent property.
\<close>

record fetch_result =
  success :: bool
  key :: string
  fvalue :: "jsval option"
  fstale :: "bool option"
  ferror :: "string option"

text \<open>
  The \<open>try\<close> block yields a value or whatever was thrown inside it. The \<open>catch\<close> block reads
  \<open>error.message\<close>, which itself raises a TypeError when the thrown value is \<open>undefined\<close>;
  that is the only way out of this function other than a \<open>return\<close>.
\<close>

definition fetchAndCachePrice :: "env \<Rightarrow> string \<Rightarrow> world \<Rightarrow> (jserror + fetch_result) \<times> world" where
  "fetchAndCachePrice env k w =
     (case (if k = ''btc'' then fetchWithBackoff (fetchBtcPrice env) MAX_RETRIES w
            else if k = ''eurUsd'' then fetchWithBackoff (fetchEurUsdRate env) MAX_RETRIES w
            else (case canMakeRequest env ''polygon'' POLYGON_RATE_LIMIT w of
                    (allowed, w1) \<Rightarrow>
                      if \<not> allowed then (Inl (Throw (Error ''Polygon rate limit exceeded'')), w1)
                      else fetchWithBackoff (fetchPolygonPrice env k) MAX_RETRIES
                             (recordRequest env ''polygon'' w1)))
      of
        (Inr v, w2) \<Rightarrow>
          (Inr \<lparr>success = True, key = k, fvalue = Some v, fstale = None, ferror = None\<rparr>,
           cache_set env k v w2)
      | (Inl ThrowUndefined, w2) \<Rightarrow>
          (Inl (Error ''Cannot read properties of undefined (reading message)''), w2)
      | (Inl (Throw error), w2) \<Rightarrow>
          (case cache_getRaw k w2 of
             Some staleEntry \<Rightarrow>
               (Inr \<lparr>success = False, key = k, fvalue = Some (evalue staleEntry),
                     fstale = Some True, ferror = Some (message error)\<rparr>, w2)
           | None \<Rightarrow>
               (Inr \<lparr>success = False, key = k, fvalue = None, fstale = None,
                     ferror = Some (message error)\<rparr>, w2)))"

subsection \<open>All keys: fetchAllPrices\<close>

record results =
  data :: "(string \<times> jsval) list"
  errors :: "string list"
  successes :: "string list"
  cached :: bool
  partial :: bool
  stale :: bool

text \<open>Reading a property that may be absent, and interpolating it into a template string.\<close>

definition value_of :: "fetch_result \<Rightarrow> jsval" where
  "value_of r = (case fvalue r of None \<Rightarrow> JUndefined | Some v \<Rightarrow> v)"

definition error_of :: "fetch_result \<Rightarrow> string" where
  "error_of r = (case ferror r of None \<Rightarrow> ''undefined'' | Some m \<Rightarrow> m)"

text \<open>The block commented \<open>Process BTC\<close>.\<close>

definition process_btc :: "fetch_result \<Rightarrow> results \<Rightarrow> results" where
  "process_btc btcResult res =
     (if success btcResult
      then res\<lparr>data := obj_set ''btc'' (value_of btcResult) (data res),
               successes := successes res @ [''BTC'']\<rparr>
      else (let res1 = res\<lparr>errors := errors res @ [''BTC: '' @ error_of btcResult]\<rparr>
            in if fstale btcResult = Some True
               then res1\<lparr>data := obj_set ''btc'' (value_of btcResult) (data res1), stale := True\<rparr>
               else res1\<lparr>data := obj_set ''btc'' (JNum 100000) (data res1)\<rparr>))"

text \<open>The block commented \<open>Process EUR/USD\<close>.\<close>

definition process_eur :: "fetch_result \<Rightarrow> results \<Rightarrow> results" where
  "process_eur eurResult res =
     (if success eurResult
      then res\<lparr>data := obj_set ''eurUsd'' (value_of eurResult) (data res),
               successes := successes res @ [''EUR/USD'']\<rparr>
      else (let res1 = res\<lparr>errors := errors res @ [''EUR/USD: '' @ error_of eurResult]\<rparr>
            in res1\<lparr>data := obj_set ''eurUsd''
                  (if fstale eurResult = Some True then value_of eurResult else JNum 1.05)
                  (data res1)\<rparr>))"

definition stocks :: "string list" where
  "stocks = [''MSTR'', ''STRF'', ''STRC'', ''STRK'', ''STRD'']"

text \<open>One iteration of \<open>for (const ticker of stocks)\<close>.\<close>

definition stock_step :: "env \<Rightarrow> string \<Rightarrow> results \<Rightarrow> world \<Rightarrow> (jserror + results) \<times> world" where
  "stock_step env ticker res w =
     (case cache_get env ticker w of
        (cachedv, w1) \<Rightarrow>
          if truthy cachedv
          then (Inr (res\<lparr>data := obj_set ticker cachedv (data res),
                         successes := successes res @ [ticker]\<rparr>), w1)
          else (case fetchAndCachePrice env ticker w1 of
                  (Inl e, w2) \<Rightarrow> (Inl e, w2)
                | (Inr result, w2) \<Rightarrow>
                    (let res2 =
                       (if success result
                        then res\<lparr>data := obj_set ticker (value_of result) (data res),
                                 successes := successes res @ [ticker]\<rparr>
                        else (let res1 = res\<lparr>errors := errors res @ [ticker @ '': '' @ error_of result]\<rparr>
                              in (if fstale result = Some True
                                  then res1\<lparr>data := obj_set ticker (value_of result) (data res1),
                                            stale := True\<rparr>
                                  else res1\<lparr>data := obj_set ticker
                                         (if ticker = ''MSTR'' then JNull
                                          else JObj [(''price'', JNum 100), (''avg10d'', JNum 100)])
                                         (data res1)\<rparr>)
                                 \<lparr>partial := True\<rparr>))
                     in case getUsage env ''polygon'' POLYGON_RATE_LIMIT w2 of
                          (usage, w3) \<Rightarrow>
                            (Inr res2,
                             if used usage \<ge> POLYGON_RATE_LIMIT - 1 \<and> ticker \<noteq> last stocks
                             then sleep 12000 w3 else w3))))"

fun stocks_loop :: "env \<Rightarrow> string list \<Rightarrow> results \<Rightarrow> world \<Rightarrow> (jserror + results) \<times> world" where
  "stocks_loop env [] res w = (Inr res, w)"
| "stocks_loop env (ticker # rest) res w =
     (case stock_step env ticker res w of
        (Inl e, w1) \<Rightarrow> (Inl e, w1)
      | (Inr res1, w1) \<Rightarrow> stocks_loop env rest res1 w1)"

text \<open>
  The two head fetches run under \<open>Promise.all\<close>; they are sequenced here, \<open>btc\<close> first. They
  share no cache key and neither touches the rate limiter, so another interleaving only
  permutes which oracle positions each of them reads.
\<close>

definition fetchAllPrices :: "env \<Rightarrow> world \<Rightarrow> (jserror + results) \<times> world" where
  "fetchAllPrices env w =
     (let res0 = \<lparr>data = [(''btc'', JNull), (''eurUsd'', JNum 1.05)], errors = [], successes = [],
                   cached = False, partial = False, stale = False\<rparr>
      in case cache_get env ''btc'' w of (cachedBtc, w1) \<Rightarrow>
         case cache_get env ''MSTR'' w1 of (cachedMSTR, w2) \<Rightarrow>
         case cache_get env ''eurUsd'' w2 of (cachedEur, w3) \<Rightarrow>
         case cache_get env ''STRF'' w3 of (cachedSTRF, w4) \<Rightarrow>
         case cache_get env ''STRC'' w4 of (cachedSTRC, w5) \<Rightarrow>
         case cache_get env ''STRK'' w5 of (cachedSTRK, w6) \<Rightarrow>
         case cache_get env ''STRD'' w6 of (cachedSTRD, w7) \<Rightarrow>
           if truthy cachedBtc \<and> truthy cachedMSTR \<and> truthy cachedEur \<and> truthy cachedSTRF
              \<and> truthy cachedSTRC \<and> truthy cachedSTRK \<and> truthy cachedSTRD
           then (Inr \<lparr>data = [(''btc'', cachedBtc), (''MSTR'', cachedMSTR), (''eurUsd'', cachedEur),
                              (''STRF'', cachedSTRF), (''STRC'', cachedSTRC),
                              (''STRK'', cachedSTRK), (''STRD'', cachedSTRD)],
                      errors = [],
                      successes = [''BTC'', ''MSTR'', ''EUR/USD'', ''STRF'', ''STRC'', ''STRK'', ''STRD''],
                      cached = True, partial = False, stale = False\<rparr>, w7)
           else (case fetchAndCachePrice env ''btc'' w7 of (b, w8) \<Rightarrow>
                 case fetchAndCachePrice env ''eurUsd'' w8 of (e, w9) \<Rightarrow>
                   (case b of
                      Inl err \<Rightarrow> (Inl err, w9)
                    | Inr btcResult \<Rightarrow>
                        (case e of
                           Inl err \<Rightarrow> (Inl err, w9)
                         | Inr eurResult \<Rightarrow>
                             stocks_loop env stocks
                               (process_eur eurResult (process_btc btcResult res0)) w9))))"

section \<open>HTTP surface (server.js): GET /api/prices/all\<close>

record metadata =
  mcached :: bool
  mpartial :: bool
  mstale :: bool
  degraded :: bool
  timestamp :: int
  ttls :: "(string \<times> int) list"

datatype payload =
    PricesBody "(string \<times> jsval) list" metadata "string list" "string list"
  | ErrorBody string string int

record response =
  status :: nat
  body :: payload

text \<open>\<open>Math.round(ms / 1000)\<close>: halves round up.\<close>

definition round_seconds :: "int \<Rightarrow> int" where
  "round_seconds ms = \<lfloor>(of_int ms :: real) / 1000 + 1 / 2\<rfloor>"

fun ttls_loop :: "env \<Rightarrow> string list \<Rightarrow> (string \<times> int) list \<Rightarrow> world \<Rightarrow> (string \<times> int) list \<times> world" where
  "ttls_loop env [] acc w = (acc, w)"
| "ttls_loop env (k # ks) acc w =
     (case cache_getRemainingTTL env k w of
        (ms, w1) \<Rightarrow> ttls_loop env ks (obj_set k (round_seconds ms) acc) w1)"

text \<open>The \<open>try\<close> block from the point where \<open>fetchAllPrices\<close> has returned.\<close>

definition send_prices :: "env \<Rightarrow> results \<Rightarrow> world \<Rightarrow> response \<times> world" where
  "send_prices env res w =
     (case date_now env w of
        (now, w1) \<Rightarrow>
          (case ttls_loop env (map fst (data res)) [] w1 of
             (ts, w2) \<Rightarrow>
               (let meta = \<lparr>mcached = cached res, mpartial = partial res, mstale = stale res,
                             degraded = (length (errors res) > 3), timestamp = now, ttls = ts\<rparr>;
                    statusCode = (if partial res \<and> length (errors res) > 0 then 207 else 200)
                in (\<lparr>status = statusCode,
                     body = PricesBody (data res) meta (errors res) (successes res)\<rparr>, w2))))"

text \<open>The \<open>catch\<close> block.\<close>

definition send_unavailable :: "jserror \<Rightarrow> response" where
  "send_unavailable error =
     \<lparr>status = 503, body = ErrorBody ''Service unavailable'' (message error) 60\<rparr>"

text \<open>The handler once \<open>await fetchAllPrices()\<close> has settled, with a value or a rejection.\<close>

definition prices_all_settled :: "env \<Rightarrow> jserror + results \<Rightarrow> world \<Rightarrow> response \<times> world" where
  "prices_all_settled env outcome w =
     (case outcome of
        Inl error \<Rightarrow> (send_unavailable error, w)
      | Inr res \<Rightarrow> send_prices env res w)"

definition prices_all :: "env \<Rightarrow> bool \<Rightarrow> world \<Rightarrow> response \<times> world" where
  "prices_all env force w =
     (case fetchAllPrices env (if force then cache_clear w else w) of
        (outcome, w1) \<Rightarrow> prices_all_settled env outcome w1)"

section \<open>Vocabulary of the properties\<close>

text \<open>
  What the three adapters have in common, seen from \<open>fetchWithBackoff\<close>: a call issues
  exactly one request to one URL and touches nothing else, and a value it returns is truthy
  (each adapter throws unless the number it extracted is truthy).
\<close>

definition adapter :: "string \<Rightarrow> (world \<Rightarrow> (jserror + jsval) \<times> world) \<Rightarrow> bool" where
  "adapter url fetchFn \<longleftrightarrow>
     (\<forall>w. snd (fetchFn w) = w\<lparr>ncalls := Suc (ncalls w), trace := trace w @ [Request url]\<rparr>)
     \<and> (\<forall>w v. fst (fetchFn w) = Inr v \<longrightarrow> truthy v)"

text \<open>
  The URL that \<open>fetchAndCachePrice\<close> requests for a key.
\<close>

definition url_of :: "env \<Rightarrow> string \<Rightarrow> string" where
  "url_of env k =
     (if k = ''btc'' then coingecko_url
      else if k = ''eurUsd'' then exchangerate_url
      else polygon_url env k)"

text \<open>
  The cache holds an entry for the key whose value is truthy, respectively falsy; the
  entry's expiry plays no part.
\<close>

definition holds_truthy :: "world \<Rightarrow> string \<Rightarrow> bool" where
  "holds_truthy w k = (\<exists>e. store (cache w) k = Some e \<and> truthy (evalue e))"

definition holds_falsy :: "world \<Rightarrow> string \<Rightarrow> bool" where
  "holds_falsy w k = (\<exists>e. store (cache w) k = Some e \<and> \<not> truthy (evalue e))"

text \<open>
  The values that \<open>fetchAllPrices\<close> substitutes for a key with neither a fresh nor a stale
  value, and the label under which the key is reported in \<open>errors\<close> and \<open>successes\<close>.
\<close>

definition stock_fallback :: "string \<Rightarrow> jsval" where
  "stock_fallback t = (if t = ''MSTR'' then JNull else JObj [(''price'', JNum 100), (''avg10d'', JNum 100)])"

definition fallback_of :: "string \<Rightarrow> jsval" where
  "fallback_of k =
     (if k = ''btc'' then JNum 100000 else if k = ''eurUsd'' then JNum 1.05 else stock_fallback k)"

definition label_of :: "string \<Rightarrow> string" where
  "label_of k = (if k = ''btc'' then ''BTC'' else if k = ''eurUsd'' then ''EUR/USD'' else k)"

text \<open>
  An error message of the form \<open>label: message\<close> is in the list.
\<close>

definition listed :: "string \<Rightarrow> string list \<Rightarrow> bool" where
  "listed label errs = (\<exists>m. label @ '': '' @ m \<in> set errs)"

text \<open>
  The seven keys of the price service.
\<close>

definition all_keys :: "string list" where
  "all_keys = [''btc'', ''eurUsd'', ''MSTR'', ''STRF'', ''STRC'', ''STRK'', ''STRD'']"

text \<open>
  What handling the keys \<open>K\<close> on the slow path of \<open>fetchAllPrices\<close> does to the results object
  and to the process: \<open>es\<close> are the error messages appended, \<open>evs\<close> the requests and sleeps
  appended to the trace. Keys outside \<open>K\<close> are left alone, no cache entry disappears, and
  every key of \<open>K\<close> ends with a value in \<open>data\<close>.
\<close>

definition progress ::
  "env \<Rightarrow> string set \<Rightarrow> results \<Rightarrow> world \<Rightarrow> results \<Rightarrow> world \<Rightarrow> string list \<Rightarrow> event list \<Rightarrow> bool" where
  "progress env K res w res' w' es evs \<longleftrightarrow>
     cached res' = cached res \<and> errors res' = errors res @ es \<and> trace w' = trace w @ evs
     \<and> (\<forall>k. k \<notin> K \<longrightarrow> map_of (data res') k = map_of (data res) k \<and> store (cache w') k = store (cache w) k)
     \<and> (\<forall>k. store (cache w) k \<noteq> None \<longrightarrow> store (cache w') k \<noteq> None)
     \<and> (\<forall>k. holds_truthy w k \<longrightarrow> holds_truthy w' k)
     \<and> (\<forall>k\<in>K. map_of (data res') k \<noteq> None
           \<and> (store (cache w') k = None \<longrightarrow>
                 map_of (data res') k = Some (fallback_of k) \<and> listed (label_of k) es)
           \<and> (es = [] \<longrightarrow> holds_truthy w' k)
           \<and> (holds_falsy w k \<longrightarrow>
                 Request (url_of env k) \<in> set evs
                 \<or> k \<noteq> ''btc'' \<and> k \<noteq> ''eurUsd'' \<and> k @ '': Polygon rate limit exceeded'' \<in> set es))"

section \<open>Scenarios\<close>

text \<open>
  A fetch function for exercising \<open>fetchWithBackoff\<close> on its own: every call issues one
  request, and \<open>out n\<close> says how the \<open>n\<close>-th request of the process ends. Any pattern of
  failures is some \<open>out\<close>.
\<close>

definition scripted :: "(nat \<Rightarrow> jserror + 'a) \<Rightarrow> string \<Rightarrow> world \<Rightarrow> (jserror + 'a) \<times> world" where
  "scripted out url w =
     (out (ncalls w), w\<lparr>ncalls := Suc (ncalls w), trace := trace w @ [Request url]\<rparr>)"

text \<open>
  What attempts \<open>a\<close> to \<open>k\<close> look like from outside when all but the last fail: a request,
  then for each failed attempt \<open>j\<close> a sleep of \<open>BASE_DELAY * 2 ^ j\<close> and the next request.
\<close>

definition backoff_trace :: "string \<Rightarrow> nat \<Rightarrow> nat \<Rightarrow> event list" where
  "backoff_trace url a k =
     Request url # concat (map (\<lambda>j. [Sleep (BASE_DELAY * 2 ^ j), Request url]) [a..<k])"

text \<open>The delays slept, in order, and the URLs requested, in order.\<close>

fun sleeps_of :: "event list \<Rightarrow> int list" where
  "sleeps_of [] = []"
| "sleeps_of (Request url # evs) = sleeps_of evs"
| "sleeps_of (Sleep ms # evs) = ms # sleeps_of evs"

fun requests_of :: "event list \<Rightarrow> string list" where
  "requests_of [] = []"
| "requests_of (Request url # evs) = url # requests_of evs"
| "requests_of (Sleep ms # evs) = requests_of evs"

text \<open>
  A clock that advances one millisecond per reading, a random source that always draws 0,
  and upstreams that are all unreachable. The clock is the oracle \<open>clk\<close> alone: \<open>sleep\<close> does
  not move it, so under this environment the readings after a backoff are not later by the
  time slept. Its runs are used for what does not depend on the clock; a run that turns on
  the rate limiter's window uses upstreams that answer at once, so that nothing sleeps.
\<close>

definition ticking_env :: env where
  "ticking_env =
     \<lparr>clk = (\<lambda>n. 1000000 + int n), rnd = (\<lambda>n. 0),
      http = (\<lambda>n url. Rejected (Error ''offline'')),
      tostring = (\<lambda>v. ''value''), POLYGON_API_KEY = ''demo''\<rparr>"

definition empty_world :: world where
  "empty_world =
     \<lparr>cache = \<lparr>store = Map.empty, hits = 0, misses = 0, sets = 0\<rparr>,
      requests = Map.empty, nreads = 0, ndraws = 0, ncalls = 0, trace = []\<rparr>"

text \<open>A process whose cache holds exactly the given entries.\<close>

definition world_with :: "(string \<times> entry) list \<Rightarrow> world" where
  "world_with es = empty_world\<lparr>cache := (cache empty_world)\<lparr>store := map_of es\<rparr>\<rparr>"

text \<open>A process whose rate limiter holds the given timestamps for the market-data upstream.\<close>

definition ledger_world :: "int list \<Rightarrow> world" where
  "ledger_world ts = empty_world\<lparr>requests := [''polygon'' \<mapsto> ts]\<rparr>"

text \<open>
  An entry written ten seconds before the clock of the scenarios starts, expiring five
  minutes after; a market-data value as \<open>fetchPolygonPrice\<close> builds it; a process whose cache
  holds such entries for all seven keys, with given values for \<open>btc\<close> and \<open>STRD\<close>.
\<close>

definition fresh_entry :: "jsval \<Rightarrow> entry" where
  "fresh_entry v = \<lparr>evalue = v, expiresAt = 1300000, createdAt = 990000\<rparr>"

definition quote :: "real \<Rightarrow> jsval" where
  "quote p = JObj [(''price'', JNum p), (''volume'', JNum 1000), (''high'', JNum p), (''low'', JNum p)]"

definition warm_world :: "jsval \<Rightarrow> jsval \<Rightarrow> world" where
  "warm_world btc strd =
     world_with [(''btc'', fresh_entry btc), (''eurUsd'', fresh_entry (JNum 1.08)),
                 (''MSTR'', fresh_entry (quote 420)), (''STRF'', fresh_entry (quote 101)),
                 (''STRC'', fresh_entry (quote 102)), (''STRK'', fresh_entry (quote 103)),
                 (''STRD'', fresh_entry strd)]"

text \<open>
  Upstreams that all answer at once, with one body that has what each adapter reads.
\<close>

definition healthy_env :: env where
  "healthy_env =
     \<lparr>clk = (\<lambda>n. 1000000 + int n), rnd = (\<lambda>n. 0),
      http = (\<lambda>n url. Response True ''200'' ''OK''
                (Inr (JObj [(''bitcoin'', JObj [(''usd'', JNum 100000)]),
                            (''rates'', JObj [(''USD'', JNum 1.08)]),
                            (''status'', JStr ''OK''),
                            (''results'', JArr [JObj [(''c'', JNum 420), (''v'', JNum 1000),
                                                      (''h'', JNum 425), (''l'', JNum 415)]])]))),
      tostring = (\<lambda>v. ''value''), POLYGON_API_KEY = ''demo''\<rparr>"

text \<open>
  The warm cache whose \<open>STRD\<close> entry holds 0, at a moment when the rate limiter has five
  requests to the market-data upstream in its window, the last one a millisecond ago.
\<close>

definition throttled_world :: world where
  "throttled_world =
     (warm_world (JNum 100000) (JNum 0))
       \<lparr>requests := [''polygon'' \<mapsto> [999995, 999996, 999997, 999998, 999999]]\<rparr>"

section \<open>Cache: the boundary of expiry and the measured TTL\<close>

lemma cache_set_store:
  "store (cache (cache_set env k v w)) =
     (store (cache w))(k \<mapsto> \<lparr>evalue = v,
        expiresAt = clk env (nreads w)
          + (TTL_MIN * 1000 + \<lfloor>rnd env (ndraws w) * of_int (TTL_MAX * 1000 - TTL_MIN * 1000 + 1)\<rfloor>),
        createdAt = clk env (Suc (nreads w))\<rparr>)"
  by (simp add: cache_set_def getRandomTTL_def date_now_def math_random_def Let_def)

text \<open>The TTL drawn for a write lies in the configured range when the draw lies in \<open>[0, 1)\<close>.\<close>

lemma getRandomTTL_bounds:
  assumes "0 \<le> rnd env (ndraws w)" "rnd env (ndraws w) < 1"
  shows "TTL_MIN * 1000 \<le> fst (getRandomTTL env w) \<and> fst (getRandomTTL env w) \<le> TTL_MAX * 1000"
proof -
  let ?r = "rnd env (ndraws w)"
  have "0 \<le> ?r * 300001" using assms by simp
  then have lo: "0 \<le> \<lfloor>?r * 300001\<rfloor>" by simp
  have "?r * 300001 < 300001" using assms by simp
  then have "\<lfloor>?r * 300001\<rfloor> < 300001" by (simp add: floor_less_iff)
  with lo show ?thesis
    by (simp add: getRandomTTL_def math_random_def TTL_MIN_def TTL_MAX_def Let_def)
qed

text \<open>
  Measured from the first clock reading of the write, the lifetime is in range; \<open>createdAt\<close>
  is the second reading.
\<close>

lemma cache_set_lifetime:
  assumes "0 \<le> rnd env (ndraws w)" "rnd env (ndraws w) < 1"
  shows "\<exists>e. store (cache (cache_set env k v w)) k = Some e
           \<and> TTL_MIN * 1000 \<le> expiresAt e - clk env (nreads w)
           \<and> expiresAt e - clk env (nreads w) \<le> TTL_MAX * 1000
           \<and> createdAt e = clk env (Suc (nreads w))"
  using getRandomTTL_bounds[OF assms]
  by (simp add: cache_set_store getRandomTTL_def math_random_def Let_def)

text \<open>
  C5. Every entry written by \<open>set\<close> should satisfy
  \<open>TTL_MIN \<le> expiresAt - createdAt \<le> TTL_MAX\<close> (in seconds). \<open>set\<close> reads the clock once for
  \<open>expiresAt\<close> and once more for \<open>createdAt\<close>: when the clock advances by a millisecond
  between the two readings and the draw is the minimum, the entry written for \<open>btc\<close> has
  \<open>expiresAt - createdAt = 299999\<close> ms, below \<open>TTL_MIN\<close>.
\<close>

theorem cache_set_clock_tick_short_ttl:
  "store (cache (cache_set ticking_env ''btc'' (JNum 100000) empty_world)) ''btc''
     = Some \<lparr>evalue = JNum 100000, expiresAt = 1300000, createdAt = 1000001\<rparr>
   \<and> (1300000 :: int) - 1000001 = 299999
   \<and> (299999 :: int) < TTL_MIN * 1000"
  by (simp add: cache_set_store ticking_env_def empty_world_def TTL_MIN_def TTL_MAX_def)

text \<open>
  C8 (as the code has it). For an entry whose \<open>expiresAt\<close> equals the current time exactly,
  \<open>get\<close> returns the entry's value as a hit (the \<open>hits\<close> counter goes up by one, \<open>misses\<close>
  is unchanged and the store is untouched), and \<open>getRaw\<close> returns the entry, before and after.
\<close>

theorem cache_get_at_expiry:
  assumes "store (cache w) k = Some e" and "clk env (nreads w) = expiresAt e"
  shows "cache_get env k w =
           (evalue e, w\<lparr>nreads := Suc (nreads w), cache := (cache w)\<lparr>hits := hits (cache w) + 1\<rparr>\<rparr>)
         \<and> cache_getRaw k w = Some e
         \<and> cache_getRaw k (snd (cache_get env k w)) = Some e"
  using assms by (simp add: cache_get_def cache_getRaw_def date_now_def)

theorem cache_get_at_expiry_witness:
  "cache_get ticking_env ''btc''
       (world_with [(''btc'', \<lparr>evalue = JNum 95000, expiresAt = 1000000, createdAt = 600000\<rparr>)])
     = (JNum 95000,
        (world_with [(''btc'', \<lparr>evalue = JNum 95000, expiresAt = 1000000, createdAt = 600000\<rparr>)])
          \<lparr>nreads := 1,
           cache := \<lparr>store = map_of [(''btc'', \<lparr>evalue = JNum 95000, expiresAt = 1000000, createdAt = 600000\<rparr>)],
                     hits = 1, misses = 0, sets = 0\<rparr>\<rparr>)"
  using cache_get_at_expiry[of
      "world_with [(''btc'', \<lparr>evalue = JNum 95000, expiresAt = 1000000, createdAt = 600000\<rparr>)]"
      "''btc''" "\<lparr>evalue = JNum 95000, expiresAt = 1000000, createdAt = 600000\<rparr>" ticking_env]
  by (simp add: world_with_def empty_world_def ticking_env_def)

text \<open>
  The claim as worded (\<open>get\<close> returns a miss at \<open>expiresAt = now\<close> and counts it) fails: the
  read below returns the cached 95000 and leaves \<open>misses\<close> at 0.
\<close>

theorem cache_get_at_expiry_is_not_a_miss:
  "fst (cache_get ticking_env ''btc''
          (world_with [(''btc'', \<lparr>evalue = JNum 95000, expiresAt = 1000000, createdAt = 600000\<rparr>)]))
     \<noteq> JNull
   \<and> misses (cache (snd (cache_get ticking_env ''btc''
          (world_with [(''btc'', \<lparr>evalue = JNum 95000, expiresAt = 1000000, createdAt = 600000\<rparr>)]))))
     = 0"
  by (simp add: cache_get_def date_now_def world_with_def empty_world_def ticking_env_def)

section \<open>Rate limiter: admission at the limit and the usage snapshot\<close>

lemma cleanup_timestamps:
  "timestamps_of apiName (cleanup env apiName w) =
     filter (\<lambda>ts. clk env (nreads w) - ts < RATE_LIMIT_WINDOW * 1000) (timestamps_of apiName w)"
  by (simp add: cleanup_def timestamps_of_def date_now_def Let_def split: option.splits)

lemma cleanup_nreads: "nreads (cleanup env apiName w) = Suc (nreads w)"
  by (simp add: cleanup_def date_now_def Let_def split: option.splits)

lemma recordRequest_timestamps:
  "timestamps_of apiName (recordRequest env apiName w) =
     filter (\<lambda>ts. clk env (nreads w) - ts < RATE_LIMIT_WINDOW * 1000) (timestamps_of apiName w)
       @ [clk env (Suc (nreads w))]"
  by (simp add: recordRequest_def Let_def cleanup_timestamps cleanup_nreads date_now_def)
     (simp add: timestamps_of_def)

text \<open>
  C4. Let \<open>retained\<close> be the timestamps of the upstream that are still inside the window at
  the clock reading of the check. If exactly \<open>L - 1\<close> are retained, \<open>canMakeRequest\<close> with
  limit \<open>L\<close> admits the request (the \<open>L\<close>-th); if \<open>L\<close> are retained it denies it (the
  \<open>L + 1\<close>-th). This holds in every state of the limiter, so after any sequence of
  check-then-record pairs; the check leaves exactly \<open>retained\<close> in the ledger, and the
  \<open>recordRequest\<close> that follows appends its own clock reading to what is still in the window.
\<close>

theorem canMakeRequest_at_limit:
  "(let retained = filter (\<lambda>ts. clk env (nreads w) - ts < RATE_LIMIT_WINDOW * 1000)
                     (timestamps_of apiName w)
    in (int (length retained) = L - 1 \<longrightarrow> fst (canMakeRequest env apiName L w))
     \<and> (int (length retained) = L \<longrightarrow> \<not> fst (canMakeRequest env apiName L w))
     \<and> timestamps_of apiName (snd (canMakeRequest env apiName L w)) = retained
     \<and> timestamps_of apiName (recordRequest env apiName (snd (canMakeRequest env apiName L w)))
         = filter (\<lambda>ts. clk env (Suc (nreads w)) - ts < RATE_LIMIT_WINDOW * 1000) retained
           @ [clk env (Suc (Suc (nreads w)))])"
  by (simp add: canMakeRequest_def Let_def cleanup_timestamps cleanup_nreads recordRequest_timestamps)

theorem canMakeRequest_at_limit_witness:
  "fst (canMakeRequest ticking_env ''polygon'' 5 (ledger_world [990000, 990001, 990002, 990003]))
   \<and> \<not> fst (canMakeRequest ticking_env ''polygon'' 5
             (ledger_world [990000, 990001, 990002, 990003, 990004]))"
proof
  have "int (length (filter (\<lambda>ts. clk ticking_env (nreads (ledger_world [990000, 990001, 990002, 990003])) - ts
                              < RATE_LIMIT_WINDOW * 1000)
                (timestamps_of ''polygon'' (ledger_world [990000, 990001, 990002, 990003])))) = 5 - 1"
    by (simp add: ledger_world_def empty_world_def ticking_env_def timestamps_of_def RATE_LIMIT_WINDOW_def)
  with canMakeRequest_at_limit[of ticking_env "ledger_world [990000, 990001, 990002, 990003]" "''polygon''" 5]
  show "fst (canMakeRequest ticking_env ''polygon'' 5 (ledger_world [990000, 990001, 990002, 990003]))"
    by (simp add: Let_def)
next
  have "int (length (filter (\<lambda>ts. clk ticking_env (nreads (ledger_world [990000, 990001, 990002, 990003, 990004])) - ts
                              < RATE_LIMIT_WINDOW * 1000)
                (timestamps_of ''polygon'' (ledger_world [990000, 990001, 990002, 990003, 990004])))) = 5"
    by (simp add: ledger_world_def empty_world_def ticking_env_def timestamps_of_def RATE_LIMIT_WINDOW_def)
  with canMakeRequest_at_limit[of ticking_env "ledger_world [990000, 990001, 990002, 990003, 990004]" "''polygon''" 5]
  show "\<not> fst (canMakeRequest ticking_env ''polygon'' 5
             (ledger_world [990000, 990001, 990002, 990003, 990004]))"
    by (simp add: Let_def)
qed

text \<open>Rounding a millisecond span up to whole seconds, never below zero.\<close>

lemma ceiling_seconds:
  fixes x :: int
  defines "r \<equiv> max 0 \<lceil>(of_int x :: real) / 1000\<rceil>"
  shows "x \<le> 1000 * r" and "\<And>s. 0 \<le> s \<Longrightarrow> s < r \<Longrightarrow> 1000 * s < x"
proof -
  have "(of_int x :: real) / 1000 \<le> of_int \<lceil>(of_int x :: real) / 1000\<rceil>" by (rule le_of_int_ceiling)
  also have "\<dots> \<le> of_int r" unfolding r_def by simp
  finally have "(of_int x :: real) \<le> 1000 * of_int r" by simp
  then have "(of_int x :: real) \<le> of_int (1000 * r)" by simp
  then show "x \<le> 1000 * r" by (simp only: of_int_le_iff)
next
  fix s :: int assume s: "0 \<le> s" "s < r"
  then have "s < \<lceil>(of_int x :: real) / 1000\<rceil>" unfolding r_def by simp
  then have "of_int s < (of_int x :: real) / 1000" by (simp add: less_ceiling_iff)
  then have "(of_int (1000 * s) :: real) < of_int x" by simp
  then show "1000 * s < x" by (simp only: of_int_less_iff)
qed

text \<open>
  C7 (as the code has it). With \<open>retained\<close> the timestamps left by the cleanup and \<open>now\<close> the
  clock reading \<open>getUsage\<close> takes after it: \<open>used\<close> is the number retained, \<open>remaining\<close> is
  \<open>max(0, limit - used)\<close>, and when some timestamp is retained \<open>resetIn\<close> is the least whole
  number of seconds \<open>s \<ge> 0\<close> after which the oldest retained timestamp is outside the window
  (it is outside at \<open>now + 1000 s\<close> for \<open>s = resetIn\<close> and inside for every smaller \<open>s\<close>).
  When no timestamp is retained, \<open>resetIn\<close> is the whole window, \<open>RATE_LIMIT_WINDOW\<close>
  seconds, not 0.
\<close>

theorem getUsage_snapshot:
  "(let retained = filter (\<lambda>ts. clk env (nreads w) - ts < RATE_LIMIT_WINDOW * 1000)
                     (timestamps_of apiName w);
        now = clk env (Suc (nreads w));
        u = fst (getUsage env apiName L w)
    in used u = int (length retained) \<and> limit u = L \<and> remaining u = max 0 (L - used u)
     \<and> (retained = [] \<longrightarrow> resetIn u = RATE_LIMIT_WINDOW)
     \<and> (retained \<noteq> [] \<longrightarrow>
          0 \<le> resetIn u
        \<and> \<not> (now + 1000 * resetIn u - Min (set retained) < RATE_LIMIT_WINDOW * 1000)
        \<and> (\<forall>s. 0 \<le> s \<and> s < resetIn u \<longrightarrow>
               now + 1000 * s - Min (set retained) < RATE_LIMIT_WINDOW * 1000)))"
proof -
  define retained where "retained = filter (\<lambda>ts. clk env (nreads w) - ts < RATE_LIMIT_WINDOW * 1000)
                     (timestamps_of apiName w)"
  define now where "now = clk env (Suc (nreads w))"
  define u where "u = fst (getUsage env apiName L w)"
  define x where "x = RATE_LIMIT_WINDOW * 1000 - (now - (case retained of [] \<Rightarrow> now | t # ts \<Rightarrow> fold min ts t))"
  have u: "u = \<lparr>used = int (length retained), limit = L, remaining = max 0 (L - int (length retained)),
             resetIn = max 0 \<lceil>(of_int x :: real) / 1000\<rceil>\<rparr>"
    by (simp add: u_def getUsage_def Let_def cleanup_timestamps cleanup_nreads date_now_def
        retained_def now_def x_def split: list.splits)
  have empty: "resetIn u = RATE_LIMIT_WINDOW" if "retained = []"
    using that by (simp add: u x_def RATE_LIMIT_WINDOW_def)
  have nonempty: "0 \<le> resetIn u
        \<and> \<not> (now + 1000 * resetIn u - Min (set retained) < RATE_LIMIT_WINDOW * 1000)
        \<and> (\<forall>s. 0 \<le> s \<and> s < resetIn u \<longrightarrow> now + 1000 * s - Min (set retained) < RATE_LIMIT_WINDOW * 1000)"
    if ne: "retained \<noteq> []"
  proof -
    from ne obtain t ts where r: "retained = t # ts" by (cases retained) auto
    have m: "Min (set retained) = fold min ts t" unfolding r by (rule Min.set_eq_fold)
    have x: "x = RATE_LIMIT_WINDOW * 1000 - (now - Min (set retained))"
      unfolding x_def m by (simp add: r)
    have ri: "resetIn u = max 0 \<lceil>(of_int x :: real) / 1000\<rceil>" by (simp add: u)
    have a: "x \<le> 1000 * resetIn u" unfolding ri by (rule ceiling_seconds(1))
    have b: "1000 * s < x" if "0 \<le> s" "s < resetIn u" for s
      using that unfolding ri by (rule ceiling_seconds(2))
    have c: "0 \<le> resetIn u" by (simp add: ri)
    from a b c show ?thesis unfolding x by (auto simp: algebra_simps dest!: b)
  qed
  show ?thesis
    unfolding Let_def retained_def[symmetric] now_def[symmetric] u_def[symmetric]
    using empty nonempty by (simp add: u)
qed

theorem getUsage_snapshot_witness:
  "filter (\<lambda>ts. clk ticking_env (nreads (ledger_world [970000])) - ts < RATE_LIMIT_WINDOW * 1000)
      (timestamps_of ''polygon'' (ledger_world [970000])) = [970000]
   \<and> used (fst (getUsage ticking_env ''polygon'' 5 (ledger_world [970000]))) = 1
   \<and> remaining (fst (getUsage ticking_env ''polygon'' 5 (ledger_world [970000]))) = 4
   \<and> resetIn (fst (getUsage ticking_env ''polygon'' 5 (ledger_world [970000]))) = 30"
proof -
  let ?w = "ledger_world [970000]"
  let ?u = "fst (getUsage ticking_env ''polygon'' 5 ?w)"
  have r: "filter (\<lambda>ts. clk ticking_env (nreads ?w) - ts < RATE_LIMIT_WINDOW * 1000)
             (timestamps_of ''polygon'' ?w) = [970000]"
    by (simp add: ledger_world_def empty_world_def ticking_env_def timestamps_of_def RATE_LIMIT_WINDOW_def)
  have n: "clk ticking_env (Suc (nreads ?w)) = 1000001"
    by (simp add: ledger_world_def empty_world_def ticking_env_def)
  from getUsage_snapshot[of ticking_env ?w "''polygon''" 5]
  have u: "used ?u = 1" "remaining ?u = 4"
    and out: "\<not> (1000001 + 1000 * resetIn ?u - 970000 < RATE_LIMIT_WINDOW * 1000)"
    and inside: "\<forall>s. 0 \<le> s \<and> s < resetIn ?u \<longrightarrow> 1000001 + 1000 * s - 970000 < RATE_LIMIT_WINDOW * 1000"
    unfolding Let_def r n by simp_all
  from out have "30 \<le> resetIn ?u" by (simp add: RATE_LIMIT_WINDOW_def)
  moreover have "resetIn ?u \<le> 30"
  proof (rule ccontr)
    assume "\<not> resetIn ?u \<le> 30"
    then have "(0::int) \<le> 30 \<and> 30 < resetIn ?u" by simp
    with inside have "1000001 + 1000 * 30 - 970000 < RATE_LIMIT_WINDOW * 1000" by blast
    then show False by (simp add: RATE_LIMIT_WINDOW_def)
  qed
  ultimately have "resetIn ?u = 30" by simp
  with r u show ?thesis by simp
qed

text \<open>
  The claim as worded (\<open>resetIn = 0\<close> when no timestamps are retained) fails: on a limiter
  that has never seen a request, \<open>getUsage\<close> reports \<open>used = 0\<close> and \<open>resetIn = 60\<close>.
\<close>

theorem getUsage_idle_resetIn_is_window:
  "used (fst (getUsage ticking_env ''polygon'' 5 empty_world)) = 0
   \<and> resetIn (fst (getUsage ticking_env ''polygon'' 5 empty_world)) = 60"
  by (simp add: getUsage_def Let_def cleanup_def date_now_def timestamps_of_def empty_world_def
        ticking_env_def RATE_LIMIT_WINDOW_def)

section \<open>Exponential backoff: the schedule of attempts and sleeps\<close>

lemma backoff_loop_succeeds:
  assumes "a \<le> k" "int k < maxRetries"
    and "\<And>j. a \<le> j \<Longrightarrow> j < k \<Longrightarrow> isl (out (ncalls w + (j - a)))"
    and "out (ncalls w + (k - a)) = Inr v"
  shows "fetchWithBackoff_loop (scripted out url) maxRetries a lastError w =
           (Inr v, w\<lparr>ncalls := ncalls w + Suc (k - a), trace := trace w @ backoff_trace url a k\<rparr>)"
  using assms
proof (induction "k - a" arbitrary: a w lastError)
  case 0
  then have "a = k" by simp
  with "0.prems" show ?case
    by (subst fetchWithBackoff_loop.simps) (simp add: scripted_def backoff_trace_def)
next
  case (Suc d)
  then have lt: "a < k" by simp
  from Suc.prems(3)[of a] lt obtain e where e: "out (ncalls w) = Inl e"
    by (cases "out (ncalls w)") auto
  let ?w1 = "sleep (BASE_DELAY * 2 ^ a) (w\<lparr>ncalls := Suc (ncalls w), trace := trace w @ [Request url]\<rparr>)"
  have step: "fetchWithBackoff_loop (scripted out url) maxRetries a lastError w =
      fetchWithBackoff_loop (scripted out url) maxRetries (Suc a) (Throw e) ?w1"
    using lt Suc.prems(2) e
    by (subst fetchWithBackoff_loop.simps) (simp add: scripted_def)
  have n1: "ncalls ?w1 = Suc (ncalls w)" by (simp add: sleep_def)
  have ih: "fetchWithBackoff_loop (scripted out url) maxRetries (Suc a) (Throw e) ?w1 =
      (Inr v, ?w1\<lparr>ncalls := ncalls ?w1 + Suc (k - Suc a), trace := trace ?w1 @ backoff_trace url (Suc a) k\<rparr>)"
  proof (rule Suc.hyps(1))
    show "d = k - Suc a" using Suc.hyps(2) by simp
    show "Suc a \<le> k" using lt by simp
    show "int k < maxRetries" by (rule Suc.prems(2))
    show "isl (out (ncalls ?w1 + (j - Suc a)))" if "Suc a \<le> j" "j < k" for j
    proof -
      have "ncalls ?w1 + (j - Suc a) = ncalls w + (j - a)" using that by (simp add: n1)
      then show ?thesis using Suc.prems(3)[of j] that by simp
    qed
    have "ncalls ?w1 + (k - Suc a) = ncalls w + (k - a)" using lt by (simp add: n1)
    then show "out (ncalls ?w1 + (k - Suc a)) = Inr v" using Suc.prems(4) by simp
  qed
  have tr: "backoff_trace url a k = Request url # Sleep (BASE_DELAY * 2 ^ a) # backoff_trace url (Suc a) k"
    using lt by (simp add: backoff_trace_def upt_conv_Cons)
  show ?case unfolding step ih using lt by (simp add: sleep_def tr)
qed

lemma backoff_loop_gives_up:
  assumes "int a < maxRetries"
    and "\<And>j. a \<le> j \<Longrightarrow> int j < maxRetries \<Longrightarrow> out (ncalls w + (j - a)) = Inl (e j)"
  shows "fetchWithBackoff_loop (scripted out url) maxRetries a lastError w =
           (Inl (Throw (e (nat maxRetries - 1))),
            w\<lparr>ncalls := ncalls w + (nat maxRetries - a),
              trace := trace w @ backoff_trace url a (nat maxRetries - 1)\<rparr>)"
  using assms
proof (induction "nat maxRetries - 1 - a" arbitrary: a w lastError)
  case 0
  then have a: "a = nat maxRetries - 1" "int (Suc a) = maxRetries" by auto
  have e: "out (ncalls w) = Inl (e a)" using "0.prems"(2)[of a] "0.prems"(1) by simp
  have "fetchWithBackoff_loop (scripted out url) maxRetries a lastError w =
      fetchWithBackoff_loop (scripted out url) maxRetries (Suc a) (Throw (e a))
        (w\<lparr>ncalls := Suc (ncalls w), trace := trace w @ [Request url]\<rparr>)"
    using "0.prems"(1) e a(2) by (subst fetchWithBackoff_loop.simps) (simp add: scripted_def)
  also have "\<dots> = (Inl (Throw (e a)), w\<lparr>ncalls := Suc (ncalls w), trace := trace w @ [Request url]\<rparr>)"
    using a(2) by (subst fetchWithBackoff_loop.simps) simp
  finally show ?case using a by (simp add: backoff_trace_def)
next
  case (Suc d)
  then have lt: "a < nat maxRetries - 1" "int a < maxRetries - 1" "int (Suc a) < maxRetries" by auto
  have e: "out (ncalls w) = Inl (e a)" using Suc.prems(2)[of a] Suc.prems(1) by simp
  let ?w1 = "sleep (BASE_DELAY * 2 ^ a) (w\<lparr>ncalls := Suc (ncalls w), trace := trace w @ [Request url]\<rparr>)"
  have step: "fetchWithBackoff_loop (scripted out url) maxRetries a lastError w =
      fetchWithBackoff_loop (scripted out url) maxRetries (Suc a) (Throw (e a)) ?w1"
    using lt Suc.prems(1) e
    by (subst fetchWithBackoff_loop.simps) (simp add: scripted_def)
  have n1: "ncalls ?w1 = Suc (ncalls w)" by (simp add: sleep_def)
  have ih: "fetchWithBackoff_loop (scripted out url) maxRetries (Suc a) (Throw (e a)) ?w1 =
      (Inl (Throw (e (nat maxRetries - 1))),
       ?w1\<lparr>ncalls := ncalls ?w1 + (nat maxRetries - Suc a),
            trace := trace ?w1 @ backoff_trace url (Suc a) (nat maxRetries - 1)\<rparr>)"
  proof (rule Suc.hyps(1))
    show "d = nat maxRetries - 1 - Suc a" using Suc.hyps(2) by simp
    show "int (Suc a) < maxRetries" by (rule lt(3))
    show "out (ncalls ?w1 + (j - Suc a)) = Inl (e j)" if "Suc a \<le> j" "int j < maxRetries" for j
    proof -
      have "ncalls ?w1 + (j - Suc a) = ncalls w + (j - a)" using that by (simp add: n1)
      then show ?thesis using Suc.prems(2)[of j] that by simp
    qed
  qed
  have tr: "backoff_trace url a (nat maxRetries - 1) =
      Request url # Sleep (BASE_DELAY * 2 ^ a) # backoff_trace url (Suc a) (nat maxRetries - 1)"
    using lt by (simp add: backoff_trace_def upt_conv_Cons)
  have nc: "ncalls ?w1 + (nat maxRetries - Suc a) = ncalls w + (nat maxRetries - a)"
    using lt unfolding n1 by arith
  have t1: "trace ?w1 = trace w @ [Request url, Sleep (BASE_DELAY * 2 ^ a)]"
    by (simp add: sleep_def)
  have "?w1\<lparr>ncalls := ncalls w + (nat maxRetries - a),
            trace := (trace w @ [Request url, Sleep (BASE_DELAY * 2 ^ a)])
                       @ backoff_trace url (Suc a) (nat maxRetries - 1)\<rparr>
        = w\<lparr>ncalls := ncalls w + (nat maxRetries - a),
              trace := trace w @ backoff_trace url a (nat maxRetries - 1)\<rparr>"
    unfolding tr by (simp add: sleep_def)
  then show ?case unfolding step ih nc t1 by simp
qed

lemma backoff_loop_attempts:
  "ncalls (snd (fetchWithBackoff_loop (scripted out url) maxRetries a lastError w))
     \<le> ncalls w + nat (maxRetries - int a)"
proof (induction "scripted out url :: world \<Rightarrow> (jserror + 'a) \<times> world" maxRetries a lastError w
        rule: fetchWithBackoff_loop.induct)
  case (1 maxRetries attempt lastError w)
  show ?case
  proof (cases "int attempt < maxRetries")
    case False
    then show ?thesis by (subst fetchWithBackoff_loop.simps) simp
  next
    case True
    show ?thesis
    proof (cases "out (ncalls w)")
      case (Inr v)
      then show ?thesis using True by (subst fetchWithBackoff_loop.simps) (simp add: scripted_def)
    next
      case (Inl e)
      let ?w0 = "w\<lparr>ncalls := Suc (ncalls w), trace := trace w @ [Request url]\<rparr>"
      let ?w1 = "if int attempt < maxRetries - 1 then sleep (BASE_DELAY * 2 ^ attempt) ?w0 else ?w0"
      have sc: "scripted out url w = (Inl e, ?w0)" using Inl by (simp add: scripted_def)
      have "ncalls (snd (fetchWithBackoff_loop (scripted out url) maxRetries (Suc attempt) (Throw e) ?w1))
          \<le> ncalls ?w1 + nat (maxRetries - int (Suc attempt))"
        using "1.hyps"[OF True sc[symmetric] refl] by simp
      moreover have "ncalls ?w1 = Suc (ncalls w)" by (simp add: sleep_def)
      ultimately show ?thesis using True sc
        by (subst fetchWithBackoff_loop.simps) (simp add: nat_diff_distrib')
    qed
  qed
qed

lemma backoff_trace_Suc:
  "backoff_trace url 0 (Suc k) = backoff_trace url 0 k @ [Sleep (BASE_DELAY * 2 ^ k), Request url]"
  by (simp add: backoff_trace_def)

lemma backoff_trace_length: "length (backoff_trace url 0 k) = 2 * k + 1"
  by (induction k) (simp_all add: backoff_trace_Suc, simp add: backoff_trace_def)

lemma backoff_trace_nth:
  "j \<le> k \<Longrightarrow> backoff_trace url 0 k ! (2 * j) = Request url"
  "j < k \<Longrightarrow> backoff_trace url 0 k ! (2 * j + 1) = Sleep (BASE_DELAY * 2 ^ j)"
proof (induction k)
  case 0
  { case 1 then show ?case by (simp add: backoff_trace_def) }
  { case 2 then show ?case by simp }
next
  case (Suc k)
  { case 1
    show ?case
    proof (cases "j \<le> k")
      case True
      then show ?thesis using Suc.IH(1) by (simp add: backoff_trace_Suc nth_append backoff_trace_length)
    next
      case False
      with 1 have "j = Suc k" by simp
      then show ?thesis by (simp add: backoff_trace_Suc nth_append backoff_trace_length)
    qed }
  { case 2
    show ?case
    proof (cases "j < k")
      case True
      then show ?thesis using Suc.IH(2) by (simp add: backoff_trace_Suc nth_append backoff_trace_length)
    next
      case False
      with 2 have "j = k" by simp
      then show ?thesis by (simp add: backoff_trace_Suc nth_append backoff_trace_length)
    qed }
qed

text \<open>
  C3 (as the code has it). For every pattern of failures \<open>out\<close> and every \<open>maxRetries\<close>:
  \<^item> if the first \<open>k\<close> attempts fail and attempt \<open>k < maxRetries\<close> succeeds, the value is
    returned after \<open>k + 1\<close> requests, and what the process did is \<open>backoff_trace url 0 k\<close>:
    attempt 0 with nothing before it, and between failed attempt \<open>j\<close> and attempt \<open>j + 1\<close>
    one sleep of exactly \<open>BASE_DELAY * 2 ^ j\<close>;
  \<^item> if all \<open>maxRetries\<close> attempts fail, the error of the last attempt is thrown, after a
    sleep behind every failed attempt except the last one;
  \<^item> never more than \<open>maxRetries\<close> attempts are made;
  \<^item> under the reference configuration (5 attempts, 16 s base) the delays slept are
    16, 32, 64 and 128 s. No fifth delay of 256 s exists: no retry follows attempt 4.
\<close>

theorem fetchWithBackoff_schedule:
  "(\<forall>k v. int k < maxRetries \<and> (\<forall>j<k. isl (out (ncalls w + j))) \<and> out (ncalls w + k) = Inr v \<longrightarrow>
      fetchWithBackoff (scripted out url) maxRetries w =
        (Inr v, w\<lparr>ncalls := ncalls w + Suc k, trace := trace w @ backoff_trace url 0 k\<rparr>))
   \<and> (0 < maxRetries \<and> (\<forall>j. int j < maxRetries \<longrightarrow> isl (out (ncalls w + j))) \<longrightarrow>
      fetchWithBackoff (scripted out url) maxRetries w =
        (Inl (Throw (projl (out (ncalls w + (nat maxRetries - 1))))),
         w\<lparr>ncalls := ncalls w + nat maxRetries,
           trace := trace w @ backoff_trace url 0 (nat maxRetries - 1)\<rparr>))
   \<and> ncalls (snd (fetchWithBackoff (scripted out url) maxRetries w)) \<le> ncalls w + nat maxRetries
   \<and> (\<forall>k. length (backoff_trace url 0 k) = 2 * k + 1)
   \<and> (\<forall>k j. j \<le> k \<longrightarrow> backoff_trace url 0 k ! (2 * j) = Request url)
   \<and> (\<forall>k j. j < k \<longrightarrow> backoff_trace url 0 k ! (2 * j + 1) = Sleep (BASE_DELAY * 2 ^ j))
   \<and> sleeps_of (backoff_trace url 0 (nat MAX_RETRIES - 1)) = [16000, 32000, 64000, 128000]"
proof (intro conjI allI impI)
  fix k v
  assume a: "int k < maxRetries \<and> (\<forall>j<k. isl (out (ncalls w + j))) \<and> out (ncalls w + k) = Inr v"
  show "fetchWithBackoff (scripted out url) maxRetries w =
        (Inr v, w\<lparr>ncalls := ncalls w + Suc k, trace := trace w @ backoff_trace url 0 k\<rparr>)"
    unfolding fetchWithBackoff_def
    using backoff_loop_succeeds[of 0 k maxRetries out w v url ThrowUndefined] a by simp
next
  assume a: "0 < maxRetries \<and> (\<forall>j. int j < maxRetries \<longrightarrow> isl (out (ncalls w + j)))"
  then have "out (ncalls w + (j - 0)) = Inl (projl (out (ncalls w + j)))" if "int j < maxRetries" for j
    using that by simp
  then show "fetchWithBackoff (scripted out url) maxRetries w =
        (Inl (Throw (projl (out (ncalls w + (nat maxRetries - 1))))),
         w\<lparr>ncalls := ncalls w + nat maxRetries,
           trace := trace w @ backoff_trace url 0 (nat maxRetries - 1)\<rparr>)"
    unfolding fetchWithBackoff_def
    using backoff_loop_gives_up[of 0 maxRetries out w "\<lambda>j. projl (out (ncalls w + j))" url ThrowUndefined] a
    by simp
next
  show "ncalls (snd (fetchWithBackoff (scripted out url) maxRetries w)) \<le> ncalls w + nat maxRetries"
    unfolding fetchWithBackoff_def
    using backoff_loop_attempts[of out url maxRetries 0 ThrowUndefined w] by simp
next
  fix k :: nat show "length (backoff_trace url 0 k) = 2 * k + 1" by (rule backoff_trace_length)
next
  fix k j :: nat assume "j \<le> k" then show "backoff_trace url 0 k ! (2 * j) = Request url"
    by (rule backoff_trace_nth)
next
  fix k j :: nat assume "j < k" then show "backoff_trace url 0 k ! (2 * j + 1) = Sleep (BASE_DELAY * 2 ^ j)"
    by (rule backoff_trace_nth)
next
  show "sleeps_of (backoff_trace url 0 (nat MAX_RETRIES - 1)) = [16000, 32000, 64000, 128000]"
    by (simp add: backoff_trace_def MAX_RETRIES_def BASE_DELAY_def upt_rec numeral_eq_Suc)
qed

theorem fetchWithBackoff_schedule_witness:
  "fetchWithBackoff (scripted (\<lambda>n. if n < 2 then Inl (Error ''HTTP 429'') else Inr (JNum 420)) ''u'')
       MAX_RETRIES empty_world =
     (Inr (JNum 420), empty_world\<lparr>ncalls := 3,
        trace := [Request ''u'', Sleep 16000, Request ''u'', Sleep 32000, Request ''u'']\<rparr>)
   \<and> fetchWithBackoff (scripted (\<lambda>n. Inl (Error ''down'') :: jserror + jsval) ''u'') MAX_RETRIES empty_world =
     (Inl (Throw (Error ''down'')), empty_world\<lparr>ncalls := 5,
        trace := [Request ''u'', Sleep 16000, Request ''u'', Sleep 32000, Request ''u'',
                  Sleep 64000, Request ''u'', Sleep 128000, Request ''u'']\<rparr>)"
proof
  let ?out = "\<lambda>n::nat. if n < 2 then Inl (Error ''HTTP 429'') else Inr (JNum 420)"
  have "int 2 < MAX_RETRIES \<and> (\<forall>j<2. isl (?out (ncalls empty_world + j)))
        \<and> ?out (ncalls empty_world + 2) = Inr (JNum 420)"
    by (simp add: MAX_RETRIES_def empty_world_def)
  with fetchWithBackoff_schedule[of MAX_RETRIES "?out" empty_world "''u''"]
  have "fetchWithBackoff (scripted ?out ''u'') MAX_RETRIES empty_world =
        (Inr (JNum 420), empty_world\<lparr>ncalls := ncalls empty_world + Suc 2,
           trace := trace empty_world @ backoff_trace ''u'' 0 2\<rparr>)"
    by blast
  then show "fetchWithBackoff (scripted ?out ''u'') MAX_RETRIES empty_world =
     (Inr (JNum 420), empty_world\<lparr>ncalls := 3,
        trace := [Request ''u'', Sleep 16000, Request ''u'', Sleep 32000, Request ''u'']\<rparr>)"
    by (simp add: empty_world_def backoff_trace_def BASE_DELAY_def upt_rec numeral_eq_Suc)
next
  let ?out = "\<lambda>n::nat. Inl (Error ''down'') :: jserror + jsval"
  have "0 < MAX_RETRIES \<and> (\<forall>j. int j < MAX_RETRIES \<longrightarrow> isl (?out (ncalls empty_world + j)))"
    by (simp add: MAX_RETRIES_def)
  with fetchWithBackoff_schedule[of MAX_RETRIES "?out" empty_world "''u''"]
  have "fetchWithBackoff (scripted ?out ''u'') MAX_RETRIES empty_world =
        (Inl (Throw (projl (?out (ncalls empty_world + (nat MAX_RETRIES - 1))))),
         empty_world\<lparr>ncalls := ncalls empty_world + nat MAX_RETRIES,
           trace := trace empty_world @ backoff_trace ''u'' 0 (nat MAX_RETRIES - 1)\<rparr>)"
    by blast
  then show "fetchWithBackoff (scripted ?out ''u'') MAX_RETRIES empty_world =
     (Inl (Throw (Error ''down'')), empty_world\<lparr>ncalls := 5,
        trace := [Request ''u'', Sleep 16000, Request ''u'', Sleep 32000, Request ''u'',
                  Sleep 64000, Request ''u'', Sleep 128000, Request ''u'']\<rparr>)"
    by (simp add: empty_world_def backoff_trace_def BASE_DELAY_def MAX_RETRIES_def upt_rec numeral_eq_Suc)
qed

text \<open>
  The claim as worded (delays of 16, 32, 64, 128 and 256 s under the reference
  configuration) fails: when all five attempts fail, four delays are slept, and 256 s is
  not among them.
\<close>

theorem backoff_never_sleeps_256s:
  "sleeps_of (trace (snd (fetchWithBackoff (scripted (\<lambda>n. Inl (Error ''down'') :: jserror + jsval) ''u'')
       MAX_RETRIES empty_world))) = [16000, 32000, 64000, 128000]
   \<and> sleeps_of (trace (snd (fetchWithBackoff (scripted (\<lambda>n. Inl (Error ''down'') :: jserror + jsval) ''u'')
       MAX_RETRIES empty_world))) \<noteq> [16000, 32000, 64000, 128000, 256000]"
  by (simp add: fetchWithBackoff_def fetchWithBackoff_loop.simps scripted_def sleep_def empty_world_def
        MAX_RETRIES_def BASE_DELAY_def)

section \<open>Price fetcher: what a fetch may touch\<close>

lemma adapter_fetchBtcPrice: "adapter coingecko_url (fetchBtcPrice env)"
  by (auto simp: adapter_def fetchBtcPrice_def fetch_def Let_def
      split: http_result.splits sum.splits if_splits)

lemma adapter_fetchEurUsdRate: "adapter exchangerate_url (fetchEurUsdRate env)"
  by (auto simp: adapter_def fetchEurUsdRate_def fetch_def Let_def
      split: http_result.splits sum.splits if_splits)

lemma adapter_fetchPolygonPrice: "adapter (polygon_url env ticker) (fetchPolygonPrice env ticker)"
  by (auto simp: adapter_def fetchPolygonPrice_def fetch_def Let_def
      split: http_result.splits sum.splits if_splits)

text \<open>
  Retrying an adapter only issues requests to its URL and sleeps: the cache, the rate
  limiter and the clock are untouched, and a value returned is truthy.
\<close>

lemma backoff_loop_frame:
  assumes ad: "adapter url fetchFn"
  shows "\<exists>evs. snd (fetchWithBackoff_loop fetchFn maxRetries a lastError w)
            = w\<lparr>ncalls := ncalls w + length (requests_of evs), trace := trace w @ evs\<rparr>
          \<and> (int a < maxRetries \<longrightarrow> Request url \<in> set evs)
          \<and> (\<forall>v. fst (fetchWithBackoff_loop fetchFn maxRetries a lastError w) = Inr v \<longrightarrow> truthy v)
          \<and> (fst (fetchWithBackoff_loop fetchFn maxRetries a lastError w) = Inl ThrowUndefined
                \<longrightarrow> lastError = ThrowUndefined \<and> \<not> int a < maxRetries)"
  using ad
proof (induction fetchFn maxRetries a lastError w rule: fetchWithBackoff_loop.induct)
  case (1 fetchFn maxRetries attempt lastError w)
  note ad = "1.prems"
  let ?w0 = "w\<lparr>ncalls := Suc (ncalls w), trace := trace w @ [Request url]\<rparr>"
  have s0: "snd (fetchFn w) = ?w0" using ad by (simp add: adapter_def)
  show ?case
  proof (cases "int attempt < maxRetries")
    case False
    then show ?thesis
      by (subst (1 2 3) fetchWithBackoff_loop.simps) (simp, rule exI[of _ "[]"], simp)
  next
    case True
    show ?thesis
    proof (cases "fst (fetchFn w)")
      case (Inr v)
      then have f: "fetchFn w = (Inr v, ?w0)" using s0 by (metis prod.collapse)
      have tv: "truthy v" using ad Inr by (simp add: adapter_def)
      show ?thesis using True f tv
        by (subst (1 2 3) fetchWithBackoff_loop.simps) (simp, rule exI[of _ "[Request url]"], simp)
    next
      case (Inl e)
      then have f: "fetchFn w = (Inl e, ?w0)" using s0 by (metis prod.collapse)
      let ?w1 = "if int attempt < maxRetries - 1 then sleep (BASE_DELAY * 2 ^ attempt) ?w0 else ?w0"
      let ?r = "fetchWithBackoff_loop fetchFn maxRetries (Suc attempt) (Throw e) ?w1"
      from "1.IH"[OF True f[symmetric] refl ad]
      obtain evs where ih: "snd ?r = ?w1\<lparr>ncalls := ncalls ?w1 + length (requests_of evs), trace := trace ?w1 @ evs\<rparr>"
        "\<forall>v. fst ?r = Inr v \<longrightarrow> truthy v" "fst ?r \<noteq> Inl ThrowUndefined"
        by auto
      have unf: "fetchWithBackoff_loop fetchFn maxRetries attempt lastError w = ?r"
        using True f by (subst fetchWithBackoff_loop.simps) simp
      show ?thesis
      proof (cases "int attempt < maxRetries - 1")
        case True
        show ?thesis unfolding unf using ih True
          by (intro exI[of _ "Request url # Sleep (BASE_DELAY * 2 ^ attempt) # evs"]) (simp add: sleep_def)
      next
        case False
        show ?thesis unfolding unf using ih False
          by (intro exI[of _ "Request url # evs"]) simp
      qed
    qed
  qed
qed

lemma fetchWithBackoff_frame:
  assumes "adapter url fetchFn" "0 < maxRetries"
  shows "\<exists>evs. snd (fetchWithBackoff fetchFn maxRetries w)
            = w\<lparr>ncalls := ncalls w + length (requests_of evs), trace := trace w @ evs\<rparr>
          \<and> Request url \<in> set evs
          \<and> (\<forall>v. fst (fetchWithBackoff fetchFn maxRetries w) = Inr v \<longrightarrow> truthy v)
          \<and> fst (fetchWithBackoff fetchFn maxRetries w) \<noteq> Inl ThrowUndefined"
  using backoff_loop_frame[OF assms(1), of maxRetries 0 ThrowUndefined w] assms(2)
  unfolding fetchWithBackoff_def by auto

lemma cleanup_frame [simp]:
  "cache (cleanup env a w) = cache w" "trace (cleanup env a w) = trace w"
  "ncalls (cleanup env a w) = ncalls w"
  by (simp_all add: cleanup_def date_now_def Let_def split: option.splits)

lemma canMakeRequest_frame [simp]:
  "cache (snd (canMakeRequest env a L w)) = cache w" "trace (snd (canMakeRequest env a L w)) = trace w"
  "ncalls (snd (canMakeRequest env a L w)) = ncalls w"
  by (simp_all add: canMakeRequest_def Let_def)

lemma recordRequest_frame [simp]:
  "cache (recordRequest env a w) = cache w" "trace (recordRequest env a w) = trace w"
  "ncalls (recordRequest env a w) = ncalls w"
  by (simp_all add: recordRequest_def date_now_def Let_def)

lemma getUsage_frame [simp]:
  "cache (snd (getUsage env a L w)) = cache w" "trace (snd (getUsage env a L w)) = trace w"
  "ncalls (snd (getUsage env a L w)) = ncalls w"
  by (simp_all add: getUsage_def date_now_def Let_def)

lemma sleep_frame [simp]:
  "cache (sleep ms w) = cache w" "trace (sleep ms w) = trace w @ [Sleep ms]"
  "ncalls (sleep ms w) = ncalls w"
  by (simp_all add: sleep_def)

lemma cache_get_frame [simp]:
  "store (cache (snd (cache_get env k w))) = store (cache w)"
  "sets (cache (snd (cache_get env k w))) = sets (cache w)"
  "trace (snd (cache_get env k w)) = trace w"
  "ncalls (snd (cache_get env k w)) = ncalls w"
  "requests (snd (cache_get env k w)) = requests w"
  by (simp_all add: cache_get_def date_now_def split: option.splits)

lemma cache_set_frame [simp]:
  "trace (cache_set env k v w) = trace w" "ncalls (cache_set env k v w) = ncalls w"
  "requests (cache_set env k v w) = requests w"
  by (simp_all add: cache_set_def getRandomTTL_def date_now_def math_random_def Let_def)

lemma cache_set_entry:
  "\<exists>e. store (cache (cache_set env k v w)) = (store (cache w))(k \<mapsto> e) \<and> evalue e = v"
  unfolding cache_set_store by (intro exI conjI, rule refl, simp)

text \<open>
  What the \<open>try\<close> block of \<open>fetchAndCachePrice\<close> does, by key.
\<close>

lemma try_block_frame:
  fixes env k w
  defines "t \<equiv> (if k = ''btc'' then fetchWithBackoff (fetchBtcPrice env) MAX_RETRIES w
            else if k = ''eurUsd'' then fetchWithBackoff (fetchEurUsdRate env) MAX_RETRIES w
            else (case canMakeRequest env ''polygon'' POLYGON_RATE_LIMIT w of
                    (allowed, w1) \<Rightarrow>
                      if \<not> allowed then (Inl (Throw (Error ''Polygon rate limit exceeded'')), w1)
                      else fetchWithBackoff (fetchPolygonPrice env k) MAX_RETRIES
                             (recordRequest env ''polygon'' w1)))"
  shows "cache (snd t) = cache w
       \<and> (\<exists>evs. trace (snd t) = trace w @ evs
             \<and> (Request (url_of env k) \<in> set evs
                  \<or> k \<noteq> ''btc'' \<and> k \<noteq> ''eurUsd'' \<and> evs = []
                     \<and> fst t = Inl (Throw (Error ''Polygon rate limit exceeded''))))
       \<and> (\<forall>v. fst t = Inr v \<longrightarrow> truthy v)
       \<and> fst t \<noteq> Inl ThrowUndefined"
proof -
  have m: "0 < MAX_RETRIES" by (simp add: MAX_RETRIES_def)
  consider (btc) "k = ''btc''" | (eur) "k \<noteq> ''btc''" "k = ''eurUsd''"
    | (denied) "k \<noteq> ''btc''" "k \<noteq> ''eurUsd''" "\<not> fst (canMakeRequest env ''polygon'' POLYGON_RATE_LIMIT w)"
    | (allowed) "k \<noteq> ''btc''" "k \<noteq> ''eurUsd''" "fst (canMakeRequest env ''polygon'' POLYGON_RATE_LIMIT w)"
    by blast
  then show ?thesis
  proof cases
    case btc
    from fetchWithBackoff_frame[OF adapter_fetchBtcPrice m, of env w] obtain evs where
      "snd (fetchWithBackoff (fetchBtcPrice env) MAX_RETRIES w)
            = w\<lparr>ncalls := ncalls w + length (requests_of evs), trace := trace w @ evs\<rparr>"
      "Request coingecko_url \<in> set evs"
      "\<forall>v. fst (fetchWithBackoff (fetchBtcPrice env) MAX_RETRIES w) = Inr v \<longrightarrow> truthy v"
      "fst (fetchWithBackoff (fetchBtcPrice env) MAX_RETRIES w) \<noteq> Inl ThrowUndefined"
      by blast
    then show ?thesis using btc by (simp add: t_def url_of_def)
  next
    case eur
    from fetchWithBackoff_frame[OF adapter_fetchEurUsdRate m, of env w] obtain evs where
      "snd (fetchWithBackoff (fetchEurUsdRate env) MAX_RETRIES w)
            = w\<lparr>ncalls := ncalls w + length (requests_of evs), trace := trace w @ evs\<rparr>"
      "Request exchangerate_url \<in> set evs"
      "\<forall>v. fst (fetchWithBackoff (fetchEurUsdRate env) MAX_RETRIES w) = Inr v \<longrightarrow> truthy v"
      "fst (fetchWithBackoff (fetchEurUsdRate env) MAX_RETRIES w) \<noteq> Inl ThrowUndefined"
      by blast
    then show ?thesis using eur by (simp add: t_def url_of_def)
  next
    case denied
    then show ?thesis by (simp add: t_def case_prod_beta)
  next
    case allowed
    let ?w1 = "recordRequest env ''polygon'' (snd (canMakeRequest env ''polygon'' POLYGON_RATE_LIMIT w))"
    from fetchWithBackoff_frame[OF adapter_fetchPolygonPrice m, of env k ?w1] obtain evs where
      "snd (fetchWithBackoff (fetchPolygonPrice env k) MAX_RETRIES ?w1)
            = ?w1\<lparr>ncalls := ncalls ?w1 + length (requests_of evs), trace := trace ?w1 @ evs\<rparr>"
      "Request (polygon_url env k) \<in> set evs"
      "\<forall>v. fst (fetchWithBackoff (fetchPolygonPrice env k) MAX_RETRIES ?w1) = Inr v \<longrightarrow> truthy v"
      "fst (fetchWithBackoff (fetchPolygonPrice env k) MAX_RETRIES ?w1) \<noteq> Inl ThrowUndefined"
      by blast
    then show ?thesis using allowed by (simp add: t_def url_of_def case_prod_beta)
  qed
qed

text \<open>
  \<open>fetchAndCachePrice\<close> always returns a result object: either a fresh truthy value that is
  now in the cache, or a failure that left the cache as it was and carries the stale value
  of the entry, if there is one.
\<close>

lemma fetchAndCachePrice_effect:
  obtains
    (fresh) v w2 evs where
      "fetchAndCachePrice env k w =
         (Inr \<lparr>success = True, key = k, fvalue = Some v, fstale = None, ferror = None\<rparr>,
          cache_set env k v w2)"
      "truthy v" "cache w2 = cache w" "trace w2 = trace w @ evs" "Request (url_of env k) \<in> set evs"
  | (failed) m w2 evs where
      "fetchAndCachePrice env k w =
         (Inr \<lparr>success = False, key = k, fvalue = map_option evalue (store (cache w) k),
               fstale = (if store (cache w) k = None then None else Some True), ferror = Some m\<rparr>,
          w2)"
      "cache w2 = cache w" "trace w2 = trace w @ evs"
      "Request (url_of env k) \<in> set evs
         \<or> k \<noteq> ''btc'' \<and> k \<noteq> ''eurUsd'' \<and> evs = [] \<and> m = ''Polygon rate limit exceeded''"
proof -
  define t where "t = (if k = ''btc'' then fetchWithBackoff (fetchBtcPrice env) MAX_RETRIES w
            else if k = ''eurUsd'' then fetchWithBackoff (fetchEurUsdRate env) MAX_RETRIES w
            else (case canMakeRequest env ''polygon'' POLYGON_RATE_LIMIT w of
                    (allowed, w1) \<Rightarrow>
                      if \<not> allowed then (Inl (Throw (Error ''Polygon rate limit exceeded'')), w1)
                      else fetchWithBackoff (fetchPolygonPrice env k) MAX_RETRIES
                             (recordRequest env ''polygon'' w1)))"
  have unf: "fetchAndCachePrice env k w =
     (case t of
        (Inr v, w2) \<Rightarrow>
          (Inr \<lparr>success = True, key = k, fvalue = Some v, fstale = None, ferror = None\<rparr>,
           cache_set env k v w2)
      | (Inl ThrowUndefined, w2) \<Rightarrow>
          (Inl (Error ''Cannot read properties of undefined (reading message)''), w2)
      | (Inl (Throw error), w2) \<Rightarrow>
          (case cache_getRaw k w2 of
             Some staleEntry \<Rightarrow>
               (Inr \<lparr>success = False, key = k, fvalue = Some (evalue staleEntry),
                     fstale = Some True, ferror = Some (message error)\<rparr>, w2)
           | None \<Rightarrow>
               (Inr \<lparr>success = False, key = k, fvalue = None, fstale = None,
                     ferror = Some (message error)\<rparr>, w2)))"
    unfolding fetchAndCachePrice_def t_def by (rule refl)
  from try_block_frame[where env=env and k=k and w=w, folded t_def] obtain evs where
    c: "cache (snd t) = cache w" and tr: "trace (snd t) = trace w @ evs"
    and ev: "Request (url_of env k) \<in> set evs
              \<or> k \<noteq> ''btc'' \<and> k \<noteq> ''eurUsd'' \<and> evs = []
                 \<and> fst t = Inl (Throw (Error ''Polygon rate limit exceeded''))"
    and tv: "\<forall>v. fst t = Inr v \<longrightarrow> truthy v" and nu: "fst t \<noteq> Inl ThrowUndefined"
    by blast
  obtain r w2 where t: "t = (r, w2)" by (cases t)
  show thesis
  proof (cases r)
    case (Inr v)
    with t ev have "Request (url_of env k) \<in> set evs" by auto
    with Inr t c tr tv show thesis
      by (intro fresh[of v w2 evs]) (simp_all add: unf)
  next
    case (Inl th)
    with nu t obtain e where th: "th = Throw e" by (cases th) auto
    have ev': "Request (url_of env k) \<in> set evs
         \<or> k \<noteq> ''btc'' \<and> k \<noteq> ''eurUsd'' \<and> evs = [] \<and> message e = ''Polygon rate limit exceeded''"
      using ev t Inl th by auto
    show thesis
      using t Inl th c tr ev'
      by (intro failed[of "message e" w2 evs])
         (simp_all add: unf cache_getRaw_def split: option.splits)
  qed
qed

lemma map_of_obj_set [simp]: "map_of (obj_set k v d) = (map_of d)(k \<mapsto> v)"
  by (induction d) (auto simp: fun_eq_iff)

lemma cache_get_truthy:
  assumes "truthy (fst (cache_get env k w))"
  shows "\<exists>e. store (cache w) k = Some e \<and> evalue e = fst (cache_get env k w)"
  using assms by (auto simp: cache_get_def date_now_def split: option.splits if_splits)

lemma cache_get_falsy:
  assumes "holds_falsy w k"
  shows "\<not> truthy (fst (cache_get env k w))"
  using assms by (auto simp: holds_falsy_def cache_get_def date_now_def split: option.splits if_splits)

text \<open>
  One turn of the loop over the market-data keys: the cached value is adopted, or a fresh
  one is fetched, or the fetch fails and the stale value or the fallback is used.
\<close>

lemma stock_step_effect:
  obtains
    (adopted) v where
      "stock_step env t res w =
         (Inr (res\<lparr>data := obj_set t v (data res), successes := successes res @ [t]\<rparr>),
          snd (cache_get env t w))"
      "truthy v" "\<exists>e. store (cache w) t = Some e \<and> evalue e = v"
  | (fresh) v e w3 evs where
      "stock_step env t res w =
         (Inr (res\<lparr>data := obj_set t v (data res), successes := successes res @ [t]\<rparr>), w3)"
      "truthy v" "store (cache w3) = (store (cache w))(t \<mapsto> e)" "evalue e = v"
      "trace w3 = trace w @ evs" "Request (url_of env t) \<in> set evs"
  | (failed) m w3 evs where
      "stock_step env t res w =
         (Inr (res\<lparr>errors := errors res @ [t @ '': '' @ m],
                   data := obj_set t (case store (cache w) t of None \<Rightarrow> stock_fallback t | Some e \<Rightarrow> evalue e)
                             (data res),
                   stale := (stale res \<or> store (cache w) t \<noteq> None),
                   partial := True\<rparr>), w3)"
      "store (cache w3) = store (cache w)" "trace w3 = trace w @ evs"
      "Request (url_of env t) \<in> set evs
         \<or> t \<noteq> ''btc'' \<and> t \<noteq> ''eurUsd'' \<and> m = ''Polygon rate limit exceeded''"
proof -
  obtain c w1 where g: "cache_get env t w = (c, w1)" by (cases "cache_get env t w")
  then have w1: "store (cache w1) = store (cache w)" "trace w1 = trace w"
    using cache_get_frame(1,3)[of env t w] by simp_all
  show thesis
  proof (cases "truthy c")
    case True
    with g cache_get_truthy[of env t w] show thesis
      by (intro adopted[of c]) (simp_all add: stock_step_def)
  next
    case False
    let ?sl = "\<lambda>w2. if used (fst (getUsage env ''polygon'' POLYGON_RATE_LIMIT w2)) \<ge> POLYGON_RATE_LIMIT - 1
                        \<and> t \<noteq> last stocks
                     then sleep 12000 (snd (getUsage env ''polygon'' POLYGON_RATE_LIMIT w2))
                     else snd (getUsage env ''polygon'' POLYGON_RATE_LIMIT w2)"
    have sl: "cache (?sl w2) = cache w2" "\<exists>evs. trace (?sl w2) = trace w2 @ evs" for w2
      by simp_all
    show thesis
    proof (cases rule: fetchAndCachePrice_effect[of env t w1])
      case (fresh v w2 evs)
      from cache_set_entry[of env t v w2] obtain e where
        e: "store (cache (cache_set env t v w2)) = (store (cache w2))(t \<mapsto> e)" "evalue e = v" by blast
      from sl(2)[of "cache_set env t v w2"] obtain evs2 where
        evs2: "trace (?sl (cache_set env t v w2)) = trace (cache_set env t v w2) @ evs2" by blast
      show thesis
      proof (rule that(2)[of v "?sl (cache_set env t v w2)" e "evs @ evs2"])
        show "stock_step env t res w =
         (Inr (res\<lparr>data := obj_set t v (data res), successes := successes res @ [t]\<rparr>),
          ?sl (cache_set env t v w2))"
          using g False fresh(1) by (simp add: stock_step_def value_of_def Let_def case_prod_beta)
        show "truthy v" by (rule fresh(2))
        show "store (cache (?sl (cache_set env t v w2))) = (store (cache w))(t \<mapsto> e)"
          unfolding sl(1) e(1) using fresh(3) w1 by simp
        show "evalue e = v" by (rule e(2))
        show "trace (?sl (cache_set env t v w2)) = trace w @ evs @ evs2"
          unfolding evs2 using fresh(4) w1 by simp
        show "Request (url_of env t) \<in> set (evs @ evs2)" using fresh(5) by simp
      qed
    next
      case (failed m w2 evs)
      from sl(2)[of w2] obtain evs2 where evs2: "trace (?sl w2) = trace w2 @ evs2" by blast
      show thesis
      proof (rule that(3)[of m "?sl w2" "evs @ evs2"])
        show "stock_step env t res w =
         (Inr (res\<lparr>errors := errors res @ [t @ '': '' @ m],
                   data := obj_set t (case store (cache w) t of None \<Rightarrow> stock_fallback t | Some e \<Rightarrow> evalue e)
                             (data res),
                   stale := (stale res \<or> store (cache w) t \<noteq> None),
                   partial := True\<rparr>), ?sl w2)"
          using g False failed(1) w1
          by (cases "store (cache w) t")
             (simp_all add: stock_step_def value_of_def error_of_def Let_def case_prod_beta stock_fallback_def)
        show "store (cache (?sl w2)) = store (cache w)" unfolding sl(1) using failed(2) w1 by simp
        show "trace (?sl w2) = trace w @ evs @ evs2" unfolding evs2 using failed(3) w1 by simp
        show "Request (url_of env t) \<in> set (evs @ evs2)
         \<or> t \<noteq> ''btc'' \<and> t \<noteq> ''eurUsd'' \<and> m = ''Polygon rate limit exceeded''"
          using failed(4) by auto
      qed
    qed
  qed
qed

section \<open>Price fetcher: the slow path, key by key\<close>

lemma listed_append: "listed l es1 \<or> listed l es2 \<Longrightarrow> listed l (es1 @ es2)"
  by (auto simp: listed_def)

lemma progress_refl: "progress env {} res w res w [] []"
  by (simp add: progress_def)

lemma progress_trans:
  assumes p1: "progress env K1 res w res1 w1 es1 evs1"
    and p2: "progress env K2 res1 w1 res2 w2 es2 evs2"
    and dj: "K1 \<inter> K2 = {}"
  shows "progress env (K1 \<union> K2) res w res2 w2 (es1 @ es2) (evs1 @ evs2)"
proof -
  note a = p1[unfolded progress_def] and b = p2[unfolded progress_def]
  have a1: "cached res1 = cached res" "errors res1 = errors res @ es1" "trace w1 = trace w @ evs1"
    using a by blast+
  have a2: "map_of (data res1) k = map_of (data res) k" "store (cache w1) k = store (cache w) k"
    if "k \<notin> K1" for k using a that by blast+
  have a3: "store (cache w1) k \<noteq> None" if "store (cache w) k \<noteq> None" for k using a that by blast
  have a4: "holds_truthy w1 k" if "holds_truthy w k" for k using a that by blast
  have a5: "map_of (data res1) k \<noteq> None"
    "store (cache w1) k = None \<Longrightarrow> map_of (data res1) k = Some (fallback_of k) \<and> listed (label_of k) es1"
    "es1 = [] \<Longrightarrow> holds_truthy w1 k"
    "holds_falsy w k \<Longrightarrow> Request (url_of env k) \<in> set evs1
                 \<or> k \<noteq> ''btc'' \<and> k \<noteq> ''eurUsd'' \<and> k @ '': Polygon rate limit exceeded'' \<in> set es1"
    if "k \<in> K1" for k using a that by blast+
  have b1: "cached res2 = cached res1" "errors res2 = errors res1 @ es2" "trace w2 = trace w1 @ evs2"
    using b by blast+
  have b2: "map_of (data res2) k = map_of (data res1) k" "store (cache w2) k = store (cache w1) k"
    if "k \<notin> K2" for k using b that by blast+
  have b3: "store (cache w2) k \<noteq> None" if "store (cache w1) k \<noteq> None" for k using b that by blast
  have b4: "holds_truthy w2 k" if "holds_truthy w1 k" for k using b that by blast
  have b5: "map_of (data res2) k \<noteq> None"
    "store (cache w2) k = None \<Longrightarrow> map_of (data res2) k = Some (fallback_of k) \<and> listed (label_of k) es2"
    "es2 = [] \<Longrightarrow> holds_truthy w2 k"
    "holds_falsy w1 k \<Longrightarrow> Request (url_of env k) \<in> set evs2
                 \<or> k \<noteq> ''btc'' \<and> k \<noteq> ''eurUsd'' \<and> k @ '': Polygon rate limit exceeded'' \<in> set es2"
    if "k \<in> K2" for k using b that by blast+
  have hf: "holds_falsy w1 k" if "holds_falsy w k" "k \<notin> K1" for k
    using that a2(2)[of k] by (simp add: holds_falsy_def)
  have keys: "map_of (data res2) k \<noteq> None
           \<and> (store (cache w2) k = None \<longrightarrow>
                 map_of (data res2) k = Some (fallback_of k) \<and> listed (label_of k) (es1 @ es2))
           \<and> (es1 @ es2 = [] \<longrightarrow> holds_truthy w2 k)
           \<and> (holds_falsy w k \<longrightarrow>
                 Request (url_of env k) \<in> set (evs1 @ evs2)
                 \<or> k \<noteq> ''btc'' \<and> k \<noteq> ''eurUsd'' \<and> k @ '': Polygon rate limit exceeded'' \<in> set (es1 @ es2))"
    if k: "k \<in> K1 \<union> K2" for k
  proof (cases "k \<in> K1")
    case True
    with dj have n2: "k \<notin> K2" by blast
    have d: "map_of (data res2) k = map_of (data res1) k" by (rule b2(1)[OF n2])
    have c1: "map_of (data res2) k \<noteq> None" unfolding d by (rule a5(1)[OF True])
    have c2: "map_of (data res2) k = Some (fallback_of k) \<and> listed (label_of k) (es1 @ es2)"
      if "store (cache w2) k = None"
    proof -
      from that b3[of k] have "store (cache w1) k = None" by blast
      from a5(2)[OF True this] show ?thesis unfolding d by (simp add: listed_append)
    qed
    have c3: "holds_truthy w2 k" if "es1 @ es2 = []" using that a5(3)[OF True] b4 by simp
    have c4: "Request (url_of env k) \<in> set (evs1 @ evs2)
                 \<or> k \<noteq> ''btc'' \<and> k \<noteq> ''eurUsd'' \<and> k @ '': Polygon rate limit exceeded'' \<in> set (es1 @ es2)"
      if "holds_falsy w k" using a5(4)[OF True that] by auto
    from c1 c2 c3 c4 show ?thesis by blast
  next
    case False
    with k have k2: "k \<in> K2" by blast
    have c2: "map_of (data res2) k = Some (fallback_of k) \<and> listed (label_of k) (es1 @ es2)"
      if "store (cache w2) k = None"
      using b5(2)[OF k2 that] by (simp add: listed_append)
    have c3: "holds_truthy w2 k" if "es1 @ es2 = []" using that b5(3)[OF k2] by simp
    have c4: "Request (url_of env k) \<in> set (evs1 @ evs2)
                 \<or> k \<noteq> ''btc'' \<and> k \<noteq> ''eurUsd'' \<and> k @ '': Polygon rate limit exceeded'' \<in> set (es1 @ es2)"
      if "holds_falsy w k" using b5(4)[OF k2 hf[OF that False]] by auto
    from b5(1)[OF k2] c2 c3 c4 show ?thesis by blast
  qed
  show ?thesis
    unfolding progress_def
  proof (intro conjI allI impI ballI)
    show "cached res2 = cached res" using a1 b1 by simp
    show "errors res2 = errors res @ es1 @ es2" using a1 b1 by simp
    show "trace w2 = trace w @ evs1 @ evs2" using a1 b1 by simp
  next
    fix k assume "k \<notin> K1 \<union> K2"
    then have "k \<notin> K1" "k \<notin> K2" by simp_all
    then show "map_of (data res2) k = map_of (data res) k" "store (cache w2) k = store (cache w) k"
      using a2[of k] b2[of k] by simp_all
  next
    fix k assume "store (cache w) k \<noteq> None" then show "store (cache w2) k \<noteq> None"
      using a3 b3 by blast
  next
    fix k assume "holds_truthy w k" then show "holds_truthy w2 k" using a4 b4 by blast
  next
    fix k assume k: "k \<in> K1 \<union> K2"
    from keys[OF k] show "map_of (data res2) k \<noteq> None" by blast
    { assume "store (cache w2) k = None"
      with keys[OF k] show "map_of (data res2) k = Some (fallback_of k)" "listed (label_of k) (es1 @ es2)"
        by blast+ }
    { assume "es1 @ es2 = []" with keys[OF k] show "holds_truthy w2 k" by blast }
    { assume "holds_falsy w k"
      with keys[OF k] show "Request (url_of env k) \<in> set (evs1 @ evs2)
                 \<or> k \<noteq> ''btc'' \<and> k \<noteq> ''eurUsd'' \<and> k @ '': Polygon rate limit exceeded'' \<in> set (es1 @ es2)"
        by blast }
  qed
qed

lemma stock_step_progress:
  assumes "t \<noteq> ''btc''" "t \<noteq> ''eurUsd''"
  obtains res1 w1 es evs where
    "stock_step env t res w = (Inr res1, w1)" "progress env {t} res w res1 w1 es evs"
proof (cases rule: stock_step_effect[of env t res w])
  case (adopted v)
  show thesis
    by (rule that[of "res\<lparr>data := obj_set t v (data res), successes := successes res @ [t]\<rparr>"
              "snd (cache_get env t w)" "[]" "[]"])
       (use adopted in \<open>auto simp: progress_def holds_truthy_def holds_falsy_def\<close>)
next
  case (fresh v e w3 evs)
  show thesis
    by (rule that[of "res\<lparr>data := obj_set t v (data res), successes := successes res @ [t]\<rparr>"
              w3 "[]" evs])
       (use fresh in \<open>auto simp: progress_def holds_truthy_def holds_falsy_def\<close>)
next
  case (failed m w3 evs)
  show thesis
    by (rule that[of "res\<lparr>errors := errors res @ [t @ '': '' @ m],
                   data := obj_set t (case store (cache w) t of None \<Rightarrow> stock_fallback t | Some e \<Rightarrow> evalue e)
                             (data res),
                   stale := (stale res \<or> store (cache w) t \<noteq> None),
                   partial := True\<rparr>" w3 "[t @ '': '' @ m]" evs])
       (use failed assms in \<open>auto simp: progress_def holds_truthy_def holds_falsy_def listed_def
           fallback_of_def label_of_def\<close>)
qed

lemma stocks_loop_progress:
  assumes "distinct ts" "''btc'' \<notin> set ts" "''eurUsd'' \<notin> set ts"
  shows "\<exists>res' w' es evs. stocks_loop env ts res w = (Inr res', w')
            \<and> progress env (set ts) res w res' w' es evs"
  using assms
proof (induction ts arbitrary: res w)
  case Nil
  show ?case using progress_refl[of env res w] by auto
next
  case (Cons t ts)
  then have d: "distinct ts" "''btc'' \<notin> set ts" "''eurUsd'' \<notin> set ts"
    and t: "t \<noteq> ''btc''" "t \<noteq> ''eurUsd''" "t \<notin> set ts" by auto
  obtain res1 w1 es1 evs1 where
    s: "stock_step env t res w = (Inr res1, w1)" and p1: "progress env {t} res w res1 w1 es1 evs1"
    by (rule stock_step_progress[OF t(1,2), of env res w])
  from Cons.IH[OF d, of res1 w1] obtain res' w' es evs where
    l: "stocks_loop env ts res1 w1 = (Inr res', w')" and p2: "progress env (set ts) res1 w1 res' w' es evs"
    by blast
  have "progress env ({t} \<union> set ts) res w res' w' (es1 @ es) (evs1 @ evs)"
    by (rule progress_trans[OF p1 p2]) (use t(3) in simp)
  then show ?case using s l by auto
qed

lemma btc_progress:
  obtains b w1 es evs where
    "fetchAndCachePrice env ''btc'' w = (Inr b, w1)"
    "progress env {''btc''} res w (process_btc b res) w1 es evs"
    "Request coingecko_url \<in> set evs"
proof (cases rule: fetchAndCachePrice_effect[of env "''btc''" w])
  case (fresh v w2 evs)
  from cache_set_entry[of env "''btc''" v w2] obtain e where
    e: "store (cache (cache_set env ''btc'' v w2)) = (store (cache w2))(''btc'' \<mapsto> e)" "evalue e = v" by blast
  show thesis
    by (rule that[OF fresh(1), of "[]" evs])
       (use fresh e in \<open>auto simp: progress_def process_btc_def value_of_def holds_truthy_def
           holds_falsy_def url_of_def\<close>)
next
  case (failed m w2 evs)
  show thesis
    by (rule that[OF failed(1), of "[''BTC: '' @ m]" evs])
       (use failed in \<open>auto simp: progress_def process_btc_def value_of_def error_of_def Let_def
           holds_truthy_def holds_falsy_def url_of_def listed_def fallback_of_def label_of_def\<close>)
qed

lemma eur_progress:
  obtains b w1 es evs where
    "fetchAndCachePrice env ''eurUsd'' w = (Inr b, w1)"
    "progress env {''eurUsd''} res w (process_eur b res) w1 es evs"
    "Request exchangerate_url \<in> set evs"
proof (cases rule: fetchAndCachePrice_effect[of env "''eurUsd''" w])
  case (fresh v w2 evs)
  from cache_set_entry[of env "''eurUsd''" v w2] obtain e where
    e: "store (cache (cache_set env ''eurUsd'' v w2)) = (store (cache w2))(''eurUsd'' \<mapsto> e)" "evalue e = v"
    by blast
  show thesis
    by (rule that[OF fresh(1), of "[]" evs])
       (use fresh e in \<open>auto simp: progress_def process_eur_def value_of_def holds_truthy_def
           holds_falsy_def url_of_def\<close>)
next
  case (failed m w2 evs)
  show thesis
    by (rule that[OF failed(1), of "[''EUR/USD: '' @ m]" evs])
       (use failed in \<open>auto simp: progress_def process_eur_def value_of_def error_of_def Let_def
           holds_truthy_def holds_falsy_def url_of_def listed_def fallback_of_def label_of_def\<close>)
qed

lemma progress_start:
  assumes "store (cache w0) = store (cache w)" "trace w0 = trace w"
    and "progress env K res w0 res' w' es evs"
  shows "progress env K res w res' w' es evs"
  using assms by (simp add: progress_def holds_truthy_def holds_falsy_def)

text \<open>
  \<open>fetchAllPrices\<close> always returns a results object, in one of two ways: the fast path,
  when all seven reads of the cache give truthy values, or the slow path, which requests
  both head upstreams and then handles every key.
\<close>

lemma fetchAllPrices_cases:
  obtains
    (fast) res w' where
      "fetchAllPrices env w = (Inr res, w')" "cached res" "errors res = []"
      "store (cache w') = store (cache w)" "sets (cache w') = sets (cache w)"
      "trace w' = trace w" "ncalls w' = ncalls w"
      "\<forall>k\<in>set all_keys. holds_truthy w k" "\<forall>k\<in>set all_keys. map_of (data res) k \<noteq> None"
  | (slow) res w' es evs where
      "fetchAllPrices env w = (Inr res, w')"
      "progress env (set all_keys)
         \<lparr>data = [(''btc'', JNull), (''eurUsd'', JNum 1.05)], errors = [], successes = [],
          cached = False, partial = False, stale = False\<rparr> w res w' es evs"
      "Request coingecko_url \<in> set evs" "Request exchangerate_url \<in> set evs"
proof -
  define w1 where "w1 = snd (cache_get env ''btc'' w)"
  define w2 where "w2 = snd (cache_get env ''MSTR'' w1)"
  define w3 where "w3 = snd (cache_get env ''eurUsd'' w2)"
  define w4 where "w4 = snd (cache_get env ''STRF'' w3)"
  define w5 where "w5 = snd (cache_get env ''STRC'' w4)"
  define w6 where "w6 = snd (cache_get env ''STRK'' w5)"
  define w7 where "w7 = snd (cache_get env ''STRD'' w6)"
  define c1 where "c1 = fst (cache_get env ''btc'' w)"
  define c2 where "c2 = fst (cache_get env ''MSTR'' w1)"
  define c3 where "c3 = fst (cache_get env ''eurUsd'' w2)"
  define c4 where "c4 = fst (cache_get env ''STRF'' w3)"
  define c5 where "c5 = fst (cache_get env ''STRC'' w4)"
  define c6 where "c6 = fst (cache_get env ''STRK'' w5)"
  define c7 where "c7 = fst (cache_get env ''STRD'' w6)"
  define res0 where "res0 = \<lparr>data = [(''btc'', JNull), (''eurUsd'', JNum 1.05)], errors = [], successes = [],
          cached = False, partial = False, stale = False\<rparr>"
  note defs = w1_def w2_def w3_def w4_def w5_def w6_def w7_def c1_def c2_def c3_def c4_def c5_def c6_def c7_def
  have st: "store (cache w1) = store (cache w)" "store (cache w2) = store (cache w)"
    "store (cache w3) = store (cache w)" "store (cache w4) = store (cache w)"
    "store (cache w5) = store (cache w)" "store (cache w6) = store (cache w)"
    "store (cache w7) = store (cache w)"
    by (simp_all add: defs)
  have fr: "trace w7 = trace w" "ncalls w7 = ncalls w" "sets (cache w7) = sets (cache w)"
    by (simp_all add: defs)
  have unf: "fetchAllPrices env w =
     (if truthy c1 \<and> truthy c2 \<and> truthy c3 \<and> truthy c4 \<and> truthy c5 \<and> truthy c6 \<and> truthy c7
      then (Inr \<lparr>data = [(''btc'', c1), (''MSTR'', c2), (''eurUsd'', c3),
                              (''STRF'', c4), (''STRC'', c5), (''STRK'', c6), (''STRD'', c7)],
                      errors = [],
                      successes = [''BTC'', ''MSTR'', ''EUR/USD'', ''STRF'', ''STRC'', ''STRK'', ''STRD''],
                      cached = True, partial = False, stale = False\<rparr>, w7)
      else (case fetchAndCachePrice env ''btc'' w7 of (b, w8) \<Rightarrow>
                 case fetchAndCachePrice env ''eurUsd'' w8 of (e, w9) \<Rightarrow>
                   (case b of
                      Inl err \<Rightarrow> (Inl err, w9)
                    | Inr btcResult \<Rightarrow>
                        (case e of
                           Inl err \<Rightarrow> (Inl err, w9)
                         | Inr eurResult \<Rightarrow>
                             stocks_loop env stocks
                               (process_eur eurResult (process_btc btcResult res0)) w9))))"
    unfolding fetchAllPrices_def Let_def case_prod_beta defs res0_def by (rule refl)
  show thesis
  proof (cases "truthy c1 \<and> truthy c2 \<and> truthy c3 \<and> truthy c4 \<and> truthy c5 \<and> truthy c6 \<and> truthy c7")
    case True
    have h: "holds_truthy w ''btc''" "holds_truthy w ''MSTR''" "holds_truthy w ''eurUsd''"
      "holds_truthy w ''STRF''" "holds_truthy w ''STRC''" "holds_truthy w ''STRK''" "holds_truthy w ''STRD''"
      using True cache_get_truthy[of env "''btc''" w] cache_get_truthy[of env "''MSTR''" w1]
        cache_get_truthy[of env "''eurUsd''" w2] cache_get_truthy[of env "''STRF''" w3]
        cache_get_truthy[of env "''STRC''" w4] cache_get_truthy[of env "''STRK''" w5]
        cache_get_truthy[of env "''STRD''" w6]
      unfolding holds_truthy_def st c1_def[symmetric] c2_def[symmetric] c3_def[symmetric] c4_def[symmetric]
        c5_def[symmetric] c6_def[symmetric] c7_def[symmetric]
      by metis+
    show thesis
      by (rule fast[OF unf[unfolded if_P[OF True]]]) (use st fr h in \<open>simp_all add: all_keys_def\<close>)
  next
    case False
    obtain b w8 es1 evs1 where
      b: "fetchAndCachePrice env ''btc'' w7 = (Inr b, w8)"
      and p1: "progress env {''btc''} res0 w7 (process_btc b res0) w8 es1 evs1"
      and r1: "Request coingecko_url \<in> set evs1"
      by (rule btc_progress[of env w7 res0])
    obtain e w9 es2 evs2 where
      e: "fetchAndCachePrice env ''eurUsd'' w8 = (Inr e, w9)"
      and p2: "progress env {''eurUsd''} (process_btc b res0) w8 (process_eur e (process_btc b res0)) w9 es2 evs2"
      and r2: "Request exchangerate_url \<in> set evs2"
      by (rule eur_progress[of env w8 "process_btc b res0"])
    from stocks_loop_progress[of stocks env "process_eur e (process_btc b res0)" w9]
    obtain res w' es3 evs3 where
      l: "stocks_loop env stocks (process_eur e (process_btc b res0)) w9 = (Inr res, w')"
      and p3: "progress env (set stocks) (process_eur e (process_btc b res0)) w9 res w' es3 evs3"
      by (auto simp: stocks_def)
    have p12: "progress env ({''btc''} \<union> {''eurUsd''}) res0 w7 (process_eur e (process_btc b res0)) w9
        (es1 @ es2) (evs1 @ evs2)"
      by (rule progress_trans[OF p1 p2]) simp
    have p123: "progress env (({''btc''} \<union> {''eurUsd''}) \<union> set stocks) res0 w7 res w'
        ((es1 @ es2) @ es3) ((evs1 @ evs2) @ evs3)"
      by (rule progress_trans[OF p12 p3]) (simp add: stocks_def)
    have ks: "({''btc''} \<union> {''eurUsd''}) \<union> set stocks = set all_keys"
      by (auto simp: stocks_def all_keys_def)
    have p: "progress env (set all_keys) res0 w res w' ((es1 @ es2) @ es3) ((evs1 @ evs2) @ evs3)"
      using progress_start[OF st(7) fr(1) p123] unfolding ks .
    have eq: "fetchAllPrices env w = (Inr res, w')"
      unfolding unf if_not_P[OF False] using b e l by simp
    show thesis
      by (rule slow[OF eq p[unfolded res0_def]]) (use r1 r2 in simp_all)
  qed
qed

lemma cache_get_hit:
  assumes "store (cache w) k = Some e" "clk env (nreads w) \<le> expiresAt e"
  shows "cache_get env k w =
           (evalue e, w\<lparr>nreads := Suc (nreads w), cache := (cache w)\<lparr>hits := hits (cache w) + 1\<rparr>\<rparr>)"
  using assms by (simp add: cache_get_def date_now_def)

lemma fetchAllPrices_fast:
  assumes warm: "\<forall>k\<in>set all_keys. \<exists>e. store (cache w) k = Some e \<and> truthy (evalue e)
                    \<and> (\<forall>i<7. clk env (nreads w + i) \<le> expiresAt e)"
  shows "fetchAllPrices env w =
     (Inr \<lparr>data = map (\<lambda>k. (k, evalue (the (store (cache w) k))))
                     [''btc'', ''MSTR'', ''eurUsd'', ''STRF'', ''STRC'', ''STRK'', ''STRD''],
            errors = [],
            successes = [''BTC'', ''MSTR'', ''EUR/USD'', ''STRF'', ''STRC'', ''STRK'', ''STRD''],
            cached = True, partial = False, stale = False\<rparr>,
      w\<lparr>nreads := nreads w + 7, cache := (cache w)\<lparr>hits := hits (cache w) + 7\<rparr>\<rparr>)"
proof -
  define wi where "wi i = w\<lparr>nreads := nreads w + i, cache := (cache w)\<lparr>hits := hits (cache w) + i\<rparr>\<rparr>" for i
  define val where "val k = evalue (the (store (cache w) k))" for k
  have step: "cache_get env k (wi i) = (val k, wi (Suc i)) \<and> truthy (val k)"
    if "k \<in> set all_keys" "i < 7" for k i
  proof -
    from warm that obtain e where e: "store (cache w) k = Some e" "truthy (evalue e)"
      "clk env (nreads w + i) \<le> expiresAt e" by blast
    have "cache_get env k (wi i) = (evalue e, wi (Suc i))"
      using cache_get_hit[of "wi i" k e env] e by (simp add: wi_def)
    with e show ?thesis by (simp add: val_def)
  qed
  have w0: "w = wi 0" by (simp add: wi_def)
  have s: "cache_get env ''btc'' w = (val ''btc'', wi 1)" "truthy (val ''btc'')"
    "cache_get env ''MSTR'' (wi 1) = (val ''MSTR'', wi 2)" "truthy (val ''MSTR'')"
    "cache_get env ''eurUsd'' (wi 2) = (val ''eurUsd'', wi 3)" "truthy (val ''eurUsd'')"
    "cache_get env ''STRF'' (wi 3) = (val ''STRF'', wi 4)" "truthy (val ''STRF'')"
    "cache_get env ''STRC'' (wi 4) = (val ''STRC'', wi 5)" "truthy (val ''STRC'')"
    "cache_get env ''STRK'' (wi 5) = (val ''STRK'', wi 6)" "truthy (val ''STRK'')"
    "cache_get env ''STRD'' (wi 6) = (val ''STRD'', wi 7)" "truthy (val ''STRD'')"
    using step[of "''btc''" 0] step[of "''MSTR''" 1] step[of "''eurUsd''" 2] step[of "''STRF''" 3]
      step[of "''STRC''" 4] step[of "''STRK''" 5] step[of "''STRD''" 6]
    by (simp_all add: all_keys_def w0[symmetric] numeral_eq_Suc)
  have "fetchAllPrices env w =
     (Inr \<lparr>data = [(''btc'', val ''btc''), (''MSTR'', val ''MSTR''), (''eurUsd'', val ''eurUsd''),
                    (''STRF'', val ''STRF''), (''STRC'', val ''STRC''), (''STRK'', val ''STRK''),
                    (''STRD'', val ''STRD'')],
            errors = [],
            successes = [''BTC'', ''MSTR'', ''EUR/USD'', ''STRF'', ''STRC'', ''STRK'', ''STRD''],
            cached = True, partial = False, stale = False\<rparr>, wi 7)"
    unfolding fetchAllPrices_def Let_def by (simp only: s prod.case simp_thms if_True)
  then show ?thesis by (simp add: val_def wi_def)
qed

lemma send_prices_status:
  "status (fst (send_prices env res w)) = (if partial res \<and> errors res \<noteq> [] then 207 else 200)"
  "\<exists>meta. body (fst (send_prices env res w)) = PricesBody (data res) meta (errors res) (successes res)"
  by (simp_all add: send_prices_def Let_def case_prod_beta)

section \<open>Price fetcher: three runs\<close>

text \<open>
  Retrying against unreachable upstreams makes five requests with four sleeps between them;
  against healthy upstreams the first request answers.
\<close>

lemma offline_backoff:
  "fetchWithBackoff (fetchBtcPrice ticking_env) MAX_RETRIES w =
     (Inl (Throw (Error ''offline'')),
      w\<lparr>ncalls := ncalls w + 5, trace := trace w @ backoff_trace coingecko_url 0 4\<rparr>)"
  "fetchWithBackoff (fetchEurUsdRate ticking_env) MAX_RETRIES w =
     (Inl (Throw (Error ''offline'')),
      w\<lparr>ncalls := ncalls w + 5, trace := trace w @ backoff_trace exchangerate_url 0 4\<rparr>)"
  "fetchWithBackoff (fetchPolygonPrice ticking_env ticker) MAX_RETRIES w =
     (Inl (Throw (Error ''offline'')),
      w\<lparr>ncalls := ncalls w + 5, trace := trace w @ backoff_trace (polygon_url ticking_env ticker) 0 4\<rparr>)"
  by (simp_all add: fetchWithBackoff_def fetchWithBackoff_loop.simps fetchBtcPrice_def fetchEurUsdRate_def
        fetchPolygonPrice_def fetch_def sleep_def ticking_env_def MAX_RETRIES_def backoff_trace_def
        upt_rec numeral_eq_Suc)

lemma healthy_backoff:
  "fetchWithBackoff (fetchBtcPrice healthy_env) MAX_RETRIES w =
     (Inr (JNum 100000), w\<lparr>ncalls := Suc (ncalls w), trace := trace w @ [Request coingecko_url]\<rparr>)"
  "fetchWithBackoff (fetchEurUsdRate healthy_env) MAX_RETRIES w =
     (Inr (JNum 1.08), w\<lparr>ncalls := Suc (ncalls w), trace := trace w @ [Request exchangerate_url]\<rparr>)"
  "fetchWithBackoff (fetchPolygonPrice healthy_env ticker) MAX_RETRIES w =
     (Inr (JObj [(''price'', JNum 420), (''volume'', JNum 1000), (''high'', JNum 425), (''low'', JNum 415)]),
      w\<lparr>ncalls := Suc (ncalls w), trace := trace w @ [Request (polygon_url healthy_env ticker)]\<rparr>)"
  by (simp_all add: fetchWithBackoff_def fetchWithBackoff_loop.simps fetchBtcPrice_def fetchEurUsdRate_def
        fetchPolygonPrice_def fetch_def healthy_env_def MAX_RETRIES_def opt_member_def read_member_def)

lemmas run_defs = fetchAllPrices_def fetchAndCachePrice_def
  cache_get_def cache_set_def cache_getRaw_def getRandomTTL_def date_now_def math_random_def
  canMakeRequest_def recordRequest_def cleanup_def timestamps_of_def getUsage_def stock_step_def
  stocks_def process_btc_def process_eur_def value_of_def error_of_def Let_def sleep_def
  POLYGON_RATE_LIMIT_def RATE_LIMIT_WINDOW_def TTL_MIN_def TTL_MAX_def

lemma clk_envs [simp]:
  "clk ticking_env n = 1000000 + int n" "rnd ticking_env n = 0"
  "clk healthy_env n = 1000000 + int n" "rnd healthy_env n = 0"
  by (simp_all add: ticking_env_def healthy_env_def)

text \<open>
  A cold start with all upstreams unreachable; a cold start with all upstreams healthy; a
  warm cache whose \<open>btc\<close> entry holds 0.
\<close>

lemma offline_cold_start:
  "fetchAllPrices ticking_env empty_world =
    (Inr \<lparr>data = [(''btc'', JNum 100000), (''eurUsd'', JNum 1.05), (''MSTR'', JNull),
                   (''STRF'', JObj [(''price'', JNum 100), (''avg10d'', JNum 100)]),
                   (''STRC'', JObj [(''price'', JNum 100), (''avg10d'', JNum 100)]),
                   (''STRK'', JObj [(''price'', JNum 100), (''avg10d'', JNum 100)]),
                   (''STRD'', JObj [(''price'', JNum 100), (''avg10d'', JNum 100)])],
           errors = [''BTC: offline'', ''EUR/USD: offline'', ''MSTR: offline'', ''STRF: offline'',
                     ''STRC: offline'', ''STRK: offline'', ''STRD: offline''],
           successes = [], cached = False, partial = True, stale = False\<rparr>,
     empty_world
       \<lparr>cache := (cache empty_world)\<lparr>misses := 12\<rparr>,
        requests := [''polygon'' \<mapsto> [1000002, 1000007, 1000012, 1000017, 1000022]],
        nreads := 25, ncalls := 35,
        trace := backoff_trace coingecko_url 0 4 @ backoff_trace exchangerate_url 0 4
                 @ backoff_trace (polygon_url ticking_env ''MSTR'') 0 4
                 @ backoff_trace (polygon_url ticking_env ''STRF'') 0 4
                 @ backoff_trace (polygon_url ticking_env ''STRC'') 0 4
                 @ backoff_trace (polygon_url ticking_env ''STRK'') 0 4
                 @ [Sleep 12000]
                 @ backoff_trace (polygon_url ticking_env ''STRD'') 0 4\<rparr>)"
  by (simp add: run_defs offline_backoff empty_world_def)

lemma healthy_cold_start:
  "fetchAllPrices healthy_env empty_world =
    (Inr \<lparr>data = [(''btc'', JNum 100000), (''eurUsd'', JNum 1.08),
                   (''MSTR'', JObj [(''price'', JNum 420), (''volume'', JNum 1000), (''high'', JNum 425), (''low'', JNum 415)]),
                   (''STRF'', JObj [(''price'', JNum 420), (''volume'', JNum 1000), (''high'', JNum 425), (''low'', JNum 415)]),
                   (''STRC'', JObj [(''price'', JNum 420), (''volume'', JNum 1000), (''high'', JNum 425), (''low'', JNum 415)]),
                   (''STRK'', JObj [(''price'', JNum 420), (''volume'', JNum 1000), (''high'', JNum 425), (''low'', JNum 415)]),
                   (''STRD'', JObj [(''price'', JNum 420), (''volume'', JNum 1000), (''high'', JNum 425), (''low'', JNum 415)])],
           errors = [],
           successes = [''BTC'', ''EUR/USD'', ''MSTR'', ''STRF'', ''STRC'', ''STRK'', ''STRD''],
           cached = False, partial = False, stale = False\<rparr>,
     \<lparr>cache = \<lparr>store =
         [''btc'' \<mapsto> \<lparr>evalue = JNum 100000, expiresAt = 1300000, createdAt = 1000001\<rparr>,
          ''eurUsd'' \<mapsto> \<lparr>evalue = JNum 1.08, expiresAt = 1300002, createdAt = 1000003\<rparr>,
          ''MSTR'' \<mapsto> \<lparr>evalue = JObj [(''price'', JNum 420), (''volume'', JNum 1000), (''high'', JNum 425), (''low'', JNum 415)], expiresAt = 1300007, createdAt = 1000008\<rparr>,
          ''STRF'' \<mapsto> \<lparr>evalue = JObj [(''price'', JNum 420), (''volume'', JNum 1000), (''high'', JNum 425), (''low'', JNum 415)], expiresAt = 1300014, createdAt = 1000015\<rparr>,
          ''STRC'' \<mapsto> \<lparr>evalue = JObj [(''price'', JNum 420), (''volume'', JNum 1000), (''high'', JNum 425), (''low'', JNum 415)], expiresAt = 1300021, createdAt = 1000022\<rparr>,
          ''STRK'' \<mapsto> \<lparr>evalue = JObj [(''price'', JNum 420), (''volume'', JNum 1000), (''high'', JNum 425), (''low'', JNum 415)], expiresAt = 1300028, createdAt = 1000029\<rparr>,
          ''STRD'' \<mapsto> \<lparr>evalue = JObj [(''price'', JNum 420), (''volume'', JNum 1000), (''high'', JNum 425), (''low'', JNum 415)], expiresAt = 1300035, createdAt = 1000036\<rparr>],
         hits = 0, misses = 12, sets = 7\<rparr>,
      requests = [''polygon'' \<mapsto> [1000006, 1000013, 1000020, 1000027, 1000034]],
      nreads = 39, ndraws = 7, ncalls = 7,
      trace = [Request coingecko_url, Request exchangerate_url,
               Request (polygon_url healthy_env ''MSTR''), Request (polygon_url healthy_env ''STRF''),
               Request (polygon_url healthy_env ''STRC''), Request (polygon_url healthy_env ''STRK''),
               Sleep 12000, Request (polygon_url healthy_env ''STRD'')]\<rparr>)"
  by (simp add: run_defs healthy_backoff empty_world_def)

lemma warm_zero_btc:
  "fetchAllPrices ticking_env (warm_world (JNum 0) (quote 104)) =
    (Inr \<lparr>data = [(''btc'', JNum 0), (''eurUsd'', JNum 1.08), (''MSTR'', quote 420),
                   (''STRF'', quote 101), (''STRC'', quote 102), (''STRK'', quote 103), (''STRD'', quote 104)],
           errors = [''BTC: offline'', ''EUR/USD: offline''],
           successes = [''MSTR'', ''STRF'', ''STRC'', ''STRK'', ''STRD''],
           cached = False, partial = False, stale = True\<rparr>,
     (warm_world (JNum 0) (quote 104))
       \<lparr>nreads := 12, ncalls := 10,
        cache := (cache (warm_world (JNum 0) (quote 104)))\<lparr>hits := 12\<rparr>,
        trace := backoff_trace coingecko_url 0 4 @ backoff_trace exchangerate_url 0 4\<rparr>)"
  by (simp add: run_defs offline_backoff empty_world_def world_with_def warm_world_def fresh_entry_def
       quote_def)

section \<open>Price fetcher: the warm cache\<close>

text \<open>
  C1. The fast path of \<open>fetchAllPrices\<close>. If each of the seven keys has a cache entry whose
  value is truthy and which has not expired at any of the seven clock readings of the fast
  path, then \<open>fetchAllPrices\<close> returns exactly the cached values in \<open>data\<close>, with
  \<open>cached = true\<close>, \<open>partial = false\<close>, \<open>stale = false\<close>, no errors and all seven labels in
  \<open>successes\<close>; the process afterwards differs only by seven clock readings and seven cache
  hits, so no request was issued, nothing slept and nothing was written to the cache.
  Hence, after a call that returned without errors, a second call during which no entry
  expires takes the fast path again and issues no request.
  Non-expiry alone is not enough: the fast path tests the truthiness of the values read.
\<close>

theorem fetchAllPrices_warm_cache:
  "((\<forall>k\<in>set all_keys. \<exists>e. store (cache w) k = Some e \<and> truthy (evalue e)
                    \<and> (\<forall>i<7. clk env (nreads w + i) \<le> expiresAt e))
     \<longrightarrow> fetchAllPrices env w =
         (Inr \<lparr>data = map (\<lambda>k. (k, evalue (the (store (cache w) k))))
                         [''btc'', ''MSTR'', ''eurUsd'', ''STRF'', ''STRC'', ''STRK'', ''STRD''],
                errors = [],
                successes = [''BTC'', ''MSTR'', ''EUR/USD'', ''STRF'', ''STRC'', ''STRK'', ''STRD''],
                cached = True, partial = False, stale = False\<rparr>,
          w\<lparr>nreads := nreads w + 7, cache := (cache w)\<lparr>hits := hits (cache w) + 7\<rparr>\<rparr>))
   \<and> (\<forall>res w1. fetchAllPrices env w0 = (Inr res, w1) \<and> errors res = []
          \<and> (\<forall>k\<in>set all_keys. \<forall>e. store (cache w1) k = Some e
                 \<longrightarrow> (\<forall>i<7. clk env (nreads w1 + i) \<le> expiresAt e))
        \<longrightarrow> (\<exists>res2. fetchAllPrices env w1 =
                 (Inr res2, w1\<lparr>nreads := nreads w1 + 7, cache := (cache w1)\<lparr>hits := hits (cache w1) + 7\<rparr>\<rparr>)
               \<and> cached res2 \<and> errors res2 = []))"
proof (intro conjI impI allI)
  assume "\<forall>k\<in>set all_keys. \<exists>e. store (cache w) k = Some e \<and> truthy (evalue e)
                    \<and> (\<forall>i<7. clk env (nreads w + i) \<le> expiresAt e)"
  then show "fetchAllPrices env w =
         (Inr \<lparr>data = map (\<lambda>k. (k, evalue (the (store (cache w) k))))
                         [''btc'', ''MSTR'', ''eurUsd'', ''STRF'', ''STRC'', ''STRK'', ''STRD''],
                errors = [],
                successes = [''BTC'', ''MSTR'', ''EUR/USD'', ''STRF'', ''STRC'', ''STRK'', ''STRD''],
                cached = True, partial = False, stale = False\<rparr>,
          w\<lparr>nreads := nreads w + 7, cache := (cache w)\<lparr>hits := hits (cache w) + 7\<rparr>\<rparr>)"
    by (rule fetchAllPrices_fast)
next
  fix res w1
  assume a: "fetchAllPrices env w0 = (Inr res, w1) \<and> errors res = []
          \<and> (\<forall>k\<in>set all_keys. \<forall>e. store (cache w1) k = Some e
                 \<longrightarrow> (\<forall>i<7. clk env (nreads w1 + i) \<le> expiresAt e))"
  have ht: "holds_truthy w1 k" if k: "k \<in> set all_keys" for k
  proof (cases rule: fetchAllPrices_cases[of env w0])
    case (fast res' w')
    with a have "w' = w1" by simp
    with fast k show ?thesis by (simp add: holds_truthy_def)
  next
    case (slow res' w' es evs)
    with a have eq: "w' = w1" "res' = res" by simp_all
    from slow(2) have "errors res' = [] @ es" by (simp add: progress_def)
    with a eq have "es = []" by simp
    with slow(2) k eq show ?thesis unfolding progress_def by blast
  qed
  have "\<forall>k\<in>set all_keys. \<exists>e. store (cache w1) k = Some e \<and> truthy (evalue e)
                    \<and> (\<forall>i<7. clk env (nreads w1 + i) \<le> expiresAt e)"
    using ht a unfolding holds_truthy_def by blast
  from fetchAllPrices_fast[OF this]
  show "\<exists>res2. fetchAllPrices env w1 =
                 (Inr res2, w1\<lparr>nreads := nreads w1 + 7, cache := (cache w1)\<lparr>hits := hits (cache w1) + 7\<rparr>\<rparr>)
               \<and> cached res2 \<and> errors res2 = []"
    by simp
qed

text \<open>
  A warm cache with the upstreams unreachable is served from the cache; and a second call
  right after a cold start against healthy upstreams issues no request.
\<close>

theorem fetchAllPrices_warm_cache_witness:
  "fetchAllPrices ticking_env (warm_world (JNum 100000) (quote 104)) =
     (Inr \<lparr>data = [(''btc'', JNum 100000), (''MSTR'', quote 420), (''eurUsd'', JNum 1.08),
                    (''STRF'', quote 101), (''STRC'', quote 102), (''STRK'', quote 103),
                    (''STRD'', quote 104)],
            errors = [],
            successes = [''BTC'', ''MSTR'', ''EUR/USD'', ''STRF'', ''STRC'', ''STRK'', ''STRD''],
            cached = True, partial = False, stale = False\<rparr>,
      (warm_world (JNum 100000) (quote 104))
        \<lparr>nreads := 7, cache := (cache (warm_world (JNum 100000) (quote 104)))\<lparr>hits := 7\<rparr>\<rparr>)
   \<and> (\<exists>res2. fetchAllPrices healthy_env (snd (fetchAllPrices healthy_env empty_world)) =
          (Inr res2, (snd (fetchAllPrices healthy_env empty_world))
             \<lparr>nreads := nreads (snd (fetchAllPrices healthy_env empty_world)) + 7,
              cache := (cache (snd (fetchAllPrices healthy_env empty_world)))
                 \<lparr>hits := hits (cache (snd (fetchAllPrices healthy_env empty_world))) + 7\<rparr>\<rparr>)
        \<and> cached res2 \<and> errors res2 = [])"
proof
  let ?w = "warm_world (JNum 100000) (quote 104)"
  have warm: "\<forall>k\<in>set all_keys. \<exists>e. store (cache ?w) k = Some e \<and> truthy (evalue e)
                    \<and> (\<forall>i<7. clk ticking_env (nreads ?w + i) \<le> expiresAt e)"
    by (simp add: all_keys_def warm_world_def world_with_def empty_world_def fresh_entry_def quote_def)
  from fetchAllPrices_warm_cache[of ?w ticking_env] warm
  have "fetchAllPrices ticking_env ?w =
         (Inr \<lparr>data = map (\<lambda>k. (k, evalue (the (store (cache ?w) k))))
                         [''btc'', ''MSTR'', ''eurUsd'', ''STRF'', ''STRC'', ''STRK'', ''STRD''],
                errors = [],
                successes = [''BTC'', ''MSTR'', ''EUR/USD'', ''STRF'', ''STRC'', ''STRK'', ''STRD''],
                cached = True, partial = False, stale = False\<rparr>,
          ?w\<lparr>nreads := nreads ?w + 7, cache := (cache ?w)\<lparr>hits := hits (cache ?w) + 7\<rparr>\<rparr>)"
    by blast
  then show "fetchAllPrices ticking_env ?w =
     (Inr \<lparr>data = [(''btc'', JNum 100000), (''MSTR'', quote 420), (''eurUsd'', JNum 1.08),
                    (''STRF'', quote 101), (''STRC'', quote 102), (''STRK'', quote 103),
                    (''STRD'', quote 104)],
            errors = [],
            successes = [''BTC'', ''MSTR'', ''EUR/USD'', ''STRF'', ''STRC'', ''STRK'', ''STRD''],
            cached = True, partial = False, stale = False\<rparr>,
      ?w\<lparr>nreads := 7, cache := (cache ?w)\<lparr>hits := 7\<rparr>\<rparr>)"
    by (simp add: warm_world_def world_with_def empty_world_def fresh_entry_def)
next
  let ?w1 = "snd (fetchAllPrices healthy_env empty_world)"
  let ?res = "\<lparr>data = [(''btc'', JNum 100000), (''eurUsd'', JNum 1.08),
                   (''MSTR'', JObj [(''price'', JNum 420), (''volume'', JNum 1000), (''high'', JNum 425), (''low'', JNum 415)]),
                   (''STRF'', JObj [(''price'', JNum 420), (''volume'', JNum 1000), (''high'', JNum 425), (''low'', JNum 415)]),
                   (''STRC'', JObj [(''price'', JNum 420), (''volume'', JNum 1000), (''high'', JNum 425), (''low'', JNum 415)]),
                   (''STRK'', JObj [(''price'', JNum 420), (''volume'', JNum 1000), (''high'', JNum 425), (''low'', JNum 415)]),
                   (''STRD'', JObj [(''price'', JNum 420), (''volume'', JNum 1000), (''high'', JNum 425), (''low'', JNum 415)])],
           errors = [],
           successes = [''BTC'', ''EUR/USD'', ''MSTR'', ''STRF'', ''STRC'', ''STRK'', ''STRD''],
           cached = False, partial = False, stale = False\<rparr>"
  have first: "fetchAllPrices healthy_env empty_world = (Inr ?res, ?w1)"
    by (simp add: healthy_cold_start)
  have fresh: "\<forall>k\<in>set all_keys. \<forall>e. store (cache ?w1) k = Some e
                 \<longrightarrow> (\<forall>i<7. clk healthy_env (nreads ?w1 + i) \<le> expiresAt e)"
    by (simp add: healthy_cold_start all_keys_def)
  have "fetchAllPrices healthy_env empty_world = (Inr ?res, ?w1) \<and> errors ?res = []
          \<and> (\<forall>k\<in>set all_keys. \<forall>e. store (cache ?w1) k = Some e
                 \<longrightarrow> (\<forall>i<7. clk healthy_env (nreads ?w1 + i) \<le> expiresAt e))"
    using first fresh by simp
  with fetchAllPrices_warm_cache[of _ healthy_env empty_world]
  show "\<exists>res2. fetchAllPrices healthy_env ?w1 =
          (Inr res2, ?w1\<lparr>nreads := nreads ?w1 + 7, cache := (cache ?w1)\<lparr>hits := hits (cache ?w1) + 7\<rparr>\<rparr>)
        \<and> cached res2 \<and> errors res2 = []"
    by blast
qed

text \<open>
  All seven keys hold non-expired entries (\<open>has\<close> is true for each), but the \<open>btc\<close> entry
  holds 0: the fast path is not taken, ten requests go upstream, and the result is not
  \<open>cached\<close>, is \<open>stale\<close> and lists two errors.
\<close>

theorem fetchAllPrices_falsy_fresh_entry_not_served:
  "fst (cache_has ticking_env ''btc'' (warm_world (JNum 0) (quote 104)))
   \<and> fst (cache_has ticking_env ''eurUsd'' (warm_world (JNum 0) (quote 104)))
   \<and> fst (cache_has ticking_env ''MSTR'' (warm_world (JNum 0) (quote 104)))
   \<and> fst (cache_has ticking_env ''STRF'' (warm_world (JNum 0) (quote 104)))
   \<and> fst (cache_has ticking_env ''STRC'' (warm_world (JNum 0) (quote 104)))
   \<and> fst (cache_has ticking_env ''STRK'' (warm_world (JNum 0) (quote 104)))
   \<and> fst (cache_has ticking_env ''STRD'' (warm_world (JNum 0) (quote 104)))
   \<and> fst (fetchAllPrices ticking_env (warm_world (JNum 0) (quote 104))) =
       Inr \<lparr>data = [(''btc'', JNum 0), (''eurUsd'', JNum 1.08), (''MSTR'', quote 420),
                    (''STRF'', quote 101), (''STRC'', quote 102), (''STRK'', quote 103), (''STRD'', quote 104)],
            errors = [''BTC: offline'', ''EUR/USD: offline''],
            successes = [''MSTR'', ''STRF'', ''STRC'', ''STRK'', ''STRD''],
            cached = False, partial = False, stale = True\<rparr>
   \<and> ncalls (snd (fetchAllPrices ticking_env (warm_world (JNum 0) (quote 104)))) = 10"
  by (simp add: warm_zero_btc)
     (simp add: cache_has_def date_now_def warm_world_def world_with_def empty_world_def fresh_entry_def)

section \<open>Price fetcher: a key whose cached value is falsy\<close>

text \<open>
  A market-data key at the rate limiter: when \<open>canMakeRequest\<close> denies, \<open>fetchAndCachePrice\<close>
  fails without any request and carries the stale value of the entry; when it admits, the
  key's URL is requested.
\<close>

lemma fetchAndCachePrice_denied:
  assumes "k \<noteq> ''btc''" "k \<noteq> ''eurUsd''"
    and "\<not> fst (canMakeRequest env ''polygon'' POLYGON_RATE_LIMIT w)"
  shows "fetchAndCachePrice env k w =
     (Inr \<lparr>success = False, key = k, fvalue = map_option evalue (store (cache w) k),
           fstale = (if store (cache w) k = None then None else Some True),
           ferror = Some ''Polygon rate limit exceeded''\<rparr>,
      snd (canMakeRequest env ''polygon'' POLYGON_RATE_LIMIT w))"
  using assms
  by (simp add: fetchAndCachePrice_def case_prod_beta cache_getRaw_def split: option.splits)

lemma fetchAndCachePrice_allowed:
  assumes "k \<noteq> ''btc''" "k \<noteq> ''eurUsd''"
    and "fst (canMakeRequest env ''polygon'' POLYGON_RATE_LIMIT w)"
  shows "\<exists>evs. trace (snd (fetchAndCachePrice env k w)) = trace w @ evs
               \<and> Request (polygon_url env k) \<in> set evs"
proof -
  let ?w1 = "recordRequest env ''polygon'' (snd (canMakeRequest env ''polygon'' POLYGON_RATE_LIMIT w))"
  let ?t = "fetchWithBackoff (fetchPolygonPrice env k) MAX_RETRIES ?w1"
  have m: "0 < MAX_RETRIES" by (simp add: MAX_RETRIES_def)
  from fetchWithBackoff_frame[OF adapter_fetchPolygonPrice m, of env k ?w1] obtain evs where
    s: "snd ?t = ?w1\<lparr>ncalls := ncalls ?w1 + length (requests_of evs), trace := trace ?w1 @ evs\<rparr>"
    and r: "Request (polygon_url env k) \<in> set evs" by blast
  have tr: "trace (snd ?t) = trace w @ evs" unfolding s by simp
  have "trace (snd (fetchAndCachePrice env k w)) = trace (snd ?t)"
    using assms
    by (simp add: fetchAndCachePrice_def case_prod_beta split: sum.splits thrown.splits option.splits)
  with tr r show ?thesis by auto
qed

lemma stock_step_denied:
  assumes t: "t \<noteq> ''btc''" "t \<noteq> ''eurUsd''"
    and e: "store (cache w) t = Some e" "\<not> truthy (evalue e)"
    and d: "\<not> fst (canMakeRequest env ''polygon'' POLYGON_RATE_LIMIT (snd (cache_get env t w)))"
  shows "fst (stock_step env t res w) =
           Inr (res\<lparr>errors := errors res @ [t @ '': Polygon rate limit exceeded''],
                    data := obj_set t (evalue e) (data res), stale := True, partial := True\<rparr>)"
    and "trace (snd (stock_step env t res w)) = trace w
         \<or> trace (snd (stock_step env t res w)) = trace w @ [Sleep 12000]"
    and "ncalls (snd (stock_step env t res w)) = ncalls w"
    and "store (cache (snd (stock_step env t res w))) = store (cache w)"
proof -
  let ?w1 = "snd (cache_get env t w)"
  have nt: "\<not> truthy (fst (cache_get env t w))"
    using e by (intro cache_get_falsy) (simp add: holds_falsy_def)
  have st: "store (cache ?w1) t = Some e" using e by simp
  note f = fetchAndCachePrice_denied[OF t d, unfolded st]
  show "fst (stock_step env t res w) =
           Inr (res\<lparr>errors := errors res @ [t @ '': Polygon rate limit exceeded''],
                    data := obj_set t (evalue e) (data res), stale := True, partial := True\<rparr>)"
    using nt by (simp add: stock_step_def case_prod_beta f Let_def value_of_def error_of_def)
  show "trace (snd (stock_step env t res w)) = trace w
         \<or> trace (snd (stock_step env t res w)) = trace w @ [Sleep 12000]"
    using nt by (simp add: stock_step_def case_prod_beta f Let_def)
  show "ncalls (snd (stock_step env t res w)) = ncalls w"
    using nt by (simp add: stock_step_def case_prod_beta f Let_def)
  show "store (cache (snd (stock_step env t res w))) = store (cache w)"
    using nt by (simp add: stock_step_def case_prod_beta f Let_def)
qed

lemma stock_step_allowed:
  assumes t: "t \<noteq> ''btc''" "t \<noteq> ''eurUsd''"
    and e: "store (cache w) t = Some e" "\<not> truthy (evalue e)"
    and a: "fst (canMakeRequest env ''polygon'' POLYGON_RATE_LIMIT (snd (cache_get env t w)))"
  shows "\<exists>evs. trace (snd (stock_step env t res w)) = trace w @ evs
               \<and> Request (polygon_url env t) \<in> set evs"
proof -
  let ?w1 = "snd (cache_get env t w)"
  have nt: "\<not> truthy (fst (cache_get env t w))"
    using e by (intro cache_get_falsy) (simp add: holds_falsy_def)
  from fetchAndCachePrice_allowed[OF t a] obtain evs where
    tr: "trace (snd (fetchAndCachePrice env t ?w1)) = trace w @ evs"
    and r: "Request (polygon_url env t) \<in> set evs" by auto
  obtain r2 w2 where f: "fetchAndCachePrice env t ?w1 = (r2, w2)"
    by (cases "fetchAndCachePrice env t ?w1")
  with tr have tr2: "trace w2 = trace w @ evs" by simp
  have "trace (snd (stock_step env t res w)) = trace w @ evs
        \<or> trace (snd (stock_step env t res w)) = trace w @ evs @ [Sleep 12000]"
  proof (cases r2)
    case (Inl err)
    with nt f tr2 show ?thesis by (simp add: stock_step_def case_prod_beta)
  next
    case (Inr result)
    with nt f tr2 show ?thesis by (simp add: stock_step_def case_prod_beta Let_def)
  qed
  with r show ?thesis by auto
qed

text \<open>
  \<open>stale\<close> and \<open>partial\<close> are only ever set in the loop, never cleared.
\<close>

lemma stock_step_flags:
  assumes "stock_step env t res w = (Inr res1, w1)"
  shows "(stale res \<longrightarrow> stale res1) \<and> (partial res \<longrightarrow> partial res1)"
  by (cases rule: stock_step_effect[of env t res w]) (use assms in auto)

lemma stocks_loop_flags:
  assumes "stocks_loop env ts res w = (Inr res', w')"
  shows "(stale res \<longrightarrow> stale res') \<and> (partial res \<longrightarrow> partial res')"
  using assms
proof (induction ts arbitrary: res w)
  case Nil
  then show ?case by simp
next
  case (Cons t ts)
  obtain r1 w1 where s: "stock_step env t res w = (r1, w1)" by (cases "stock_step env t res w")
  show ?case
  proof (cases r1)
    case (Inl err)
    with s Cons.prems show ?thesis by simp
  next
    case (Inr res1)
    with s Cons.prems have "stocks_loop env ts res1 w1 = (Inr res', w')" by simp
    from Cons.IH[OF this] stock_step_flags[OF s[unfolded Inr]] show ?thesis by blast
  qed
qed

lemma progress_outside:
  assumes "progress env K res w res' w' es evs" "k \<notin> K"
  shows "map_of (data res') k = map_of (data res) k" "store (cache w') k = store (cache w) k"
  using assms by (simp_all add: progress_def)

lemma progress_events:
  assumes "progress env K res w res' w' es evs"
  shows "trace w' = trace w @ evs" "errors res' = errors res @ es"
  using assms by (simp_all add: progress_def)

text \<open>
  If the loop reaches a key whose entry holds a falsy value and never requests the key's
  URL, the turn for that key failed at the rate limiter: the key is listed with that
  message, the falsy value is in \<open>data\<close>, and \<open>stale\<close> and \<open>partial\<close> are set.
\<close>

lemma stocks_loop_falsy:
  assumes "distinct ts" "''btc'' \<notin> set ts" "''eurUsd'' \<notin> set ts" "k \<in> set ts"
    and "store (cache w) k = Some e" "\<not> truthy (evalue e)"
    and "stocks_loop env ts res w = (Inr res', w')"
    and "trace w' = trace w @ evs" "Request (url_of env k) \<notin> set evs"
  shows "k @ '': Polygon rate limit exceeded'' \<in> set (errors res')
       \<and> map_of (data res') k = Some (evalue e) \<and> stale res' \<and> partial res'
       \<and> store (cache w') k = Some e"
  using assms
proof (induction ts arbitrary: res w evs)
  case Nil
  then show ?case by simp
next
  case (Cons t ts)
  from Cons.prems have d: "distinct ts" "''btc'' \<notin> set ts" "''eurUsd'' \<notin> set ts"
    and t: "t \<noteq> ''btc''" "t \<noteq> ''eurUsd''" "t \<notin> set ts" by auto
  note ent = Cons.prems(5) and fal = Cons.prems(6)
  obtain res1 w1 es1 evs1 where
    s: "stock_step env t res w = (Inr res1, w1)" and p1: "progress env {t} res w res1 w1 es1 evs1"
    by (rule stock_step_progress[OF t(1,2), of env res w])
  from s Cons.prems(7) have l: "stocks_loop env ts res1 w1 = (Inr res', w')" by simp
  from stocks_loop_progress[OF d, of env res1 w1] l obtain es2 evs2 where
    p2: "progress env (set ts) res1 w1 res' w' es2 evs2" by auto
  have tr1: "trace w1 = trace w @ evs1" by (rule progress_events(1)[OF p1])
  have tr2: "trace w' = trace w1 @ evs2" by (rule progress_events(1)[OF p2])
  have er2: "errors res' = errors res1 @ es2" by (rule progress_events(2)[OF p2])
  have evs: "evs = evs1 @ evs2" using Cons.prems(8) tr1 tr2 by simp
  have n1: "Request (url_of env k) \<notin> set evs1" and n2: "Request (url_of env k) \<notin> set evs2"
    using Cons.prems(9) evs by simp_all
  show ?case
  proof (cases "t = k")
    case True
    have nk: "k \<notin> set ts" using True t(3) by simp
    have keep: "map_of (data res') k = map_of (data res1) k" "store (cache w') k = store (cache w1) k"
      using progress_outside[OF p2 nk] by simp_all
    have r1: "res1 = res\<lparr>errors := errors res @ [k @ '': Polygon rate limit exceeded''],
                   data := obj_set k (evalue e) (data res), stale := True, partial := True\<rparr>
              \<and> store (cache w1) = store (cache w)"
    proof (cases rule: stock_step_effect[of env k res w])
      case (adopted v)
      with ent fal show ?thesis by auto
    next
      case (fresh v e' w3 evs')
      with s True tr1 have "evs' = evs1" by simp
      with fresh(6) n1 show ?thesis by simp
    next
      case (failed m w3 evs')
      with s True tr1 have ev: "evs' = evs1" and w3: "w3 = w1" by simp_all
      with failed(4) n1 have m: "m = ''Polygon rate limit exceeded''" by simp
      from failed(1) s True have "res1 = res\<lparr>errors := errors res @ [k @ '': '' @ m],
                   data := obj_set k (case store (cache w) k of None \<Rightarrow> stock_fallback k | Some e \<Rightarrow> evalue e)
                             (data res),
                   stale := (stale res \<or> store (cache w) k \<noteq> None),
                   partial := True\<rparr>" by simp
      with m ent failed(2) w3 show ?thesis by simp
    qed
    from stocks_loop_flags[OF l] r1 have fl: "stale res'" "partial res'" by simp_all
    from r1 er2 have "k @ '': Polygon rate limit exceeded'' \<in> set (errors res')" by simp
    moreover from r1 keep(1) have "map_of (data res') k = Some (evalue e)" by simp
    moreover from r1 keep(2) ent have "store (cache w') k = Some e" by simp
    ultimately show ?thesis using fl by simp
  next
    case False
    then have kin: "k \<in> set ts" using Cons.prems(4) by simp
    have "store (cache w1) k = store (cache w) k" using progress_outside(2)[OF p1, of k] False by simp
    with ent have st: "store (cache w1) k = Some e" by simp
    show ?thesis by (rule Cons.IH[OF d kin st fal l tr2 n2])
  qed
qed

text \<open>
  With a falsy value under any of the seven keys the fast path is not taken: both head
  fetches run and the loop over the market-data keys starts from a cache that differs from
  the initial one at most under \<open>btc\<close> and \<open>eurUsd\<close>.
\<close>

lemma fetchAllPrices_slow_path:
  assumes k: "k \<in> set all_keys" and hf: "holds_falsy w k"
  obtains r9 w9 res w' evs0 where
    "fetchAllPrices env w = (Inr res, w')"
    "stocks_loop env stocks r9 w9 = (Inr res, w')"
    "trace w9 = trace w @ evs0"
    "\<forall>t. t \<noteq> ''btc'' \<and> t \<noteq> ''eurUsd'' \<longrightarrow> store (cache w9) t = store (cache w) t"
proof -
  define w1 where "w1 = snd (cache_get env ''btc'' w)"
  define w2 where "w2 = snd (cache_get env ''MSTR'' w1)"
  define w3 where "w3 = snd (cache_get env ''eurUsd'' w2)"
  define w4 where "w4 = snd (cache_get env ''STRF'' w3)"
  define w5 where "w5 = snd (cache_get env ''STRC'' w4)"
  define w6 where "w6 = snd (cache_get env ''STRK'' w5)"
  define w7 where "w7 = snd (cache_get env ''STRD'' w6)"
  define c1 where "c1 = fst (cache_get env ''btc'' w)"
  define c2 where "c2 = fst (cache_get env ''MSTR'' w1)"
  define c3 where "c3 = fst (cache_get env ''eurUsd'' w2)"
  define c4 where "c4 = fst (cache_get env ''STRF'' w3)"
  define c5 where "c5 = fst (cache_get env ''STRC'' w4)"
  define c6 where "c6 = fst (cache_get env ''STRK'' w5)"
  define c7 where "c7 = fst (cache_get env ''STRD'' w6)"
  define res0 where "res0 = \<lparr>data = [(''btc'', JNull), (''eurUsd'', JNum 1.05)], errors = [], successes = [],
          cached = False, partial = False, stale = False\<rparr>"
  note defs = w1_def w2_def w3_def w4_def w5_def w6_def w7_def c1_def c2_def c3_def c4_def c5_def c6_def c7_def
  have st: "store (cache w1) = store (cache w)" "store (cache w2) = store (cache w)"
    "store (cache w3) = store (cache w)" "store (cache w4) = store (cache w)"
    "store (cache w5) = store (cache w)" "store (cache w6) = store (cache w)"
    "store (cache w7) = store (cache w)"
    by (simp_all add: defs)
  have fr: "trace w7 = trace w" by (simp add: defs)
  have unf: "fetchAllPrices env w =
     (if truthy c1 \<and> truthy c2 \<and> truthy c3 \<and> truthy c4 \<and> truthy c5 \<and> truthy c6 \<and> truthy c7
      then (Inr \<lparr>data = [(''btc'', c1), (''MSTR'', c2), (''eurUsd'', c3),
                              (''STRF'', c4), (''STRC'', c5), (''STRK'', c6), (''STRD'', c7)],
                      errors = [],
                      successes = [''BTC'', ''MSTR'', ''EUR/USD'', ''STRF'', ''STRC'', ''STRK'', ''STRD''],
                      cached = True, partial = False, stale = False\<rparr>, w7)
      else (case fetchAndCachePrice env ''btc'' w7 of (b, w8) \<Rightarrow>
                 case fetchAndCachePrice env ''eurUsd'' w8 of (e, w9) \<Rightarrow>
                   (case b of
                      Inl err \<Rightarrow> (Inl err, w9)
                    | Inr btcResult \<Rightarrow>
                        (case e of
                           Inl err \<Rightarrow> (Inl err, w9)
                         | Inr eurResult \<Rightarrow>
                             stocks_loop env stocks
                               (process_eur eurResult (process_btc btcResult res0)) w9))))"
    unfolding fetchAllPrices_def Let_def case_prod_beta defs res0_def by (rule refl)
  have hfs: "holds_falsy w1 k" "holds_falsy w2 k" "holds_falsy w3 k" "holds_falsy w4 k"
    "holds_falsy w5 k" "holds_falsy w6 k"
    using hf by (simp_all add: holds_falsy_def st)
  have no: "\<not> (truthy c1 \<and> truthy c2 \<and> truthy c3 \<and> truthy c4 \<and> truthy c5 \<and> truthy c6 \<and> truthy c7)"
    using k cache_get_falsy[OF hf, of env] cache_get_falsy[OF hfs(1), of env]
      cache_get_falsy[OF hfs(2), of env] cache_get_falsy[OF hfs(3), of env]
      cache_get_falsy[OF hfs(4), of env] cache_get_falsy[OF hfs(5), of env]
      cache_get_falsy[OF hfs(6), of env]
    unfolding all_keys_def c1_def c2_def c3_def c4_def c5_def c6_def c7_def by auto
  obtain b w8 es1 evs1 where
    b: "fetchAndCachePrice env ''btc'' w7 = (Inr b, w8)"
    and p1: "progress env {''btc''} res0 w7 (process_btc b res0) w8 es1 evs1"
    by (rule btc_progress[of env w7 res0])
  obtain e w9 es2 evs2 where
    e: "fetchAndCachePrice env ''eurUsd'' w8 = (Inr e, w9)"
    and p2: "progress env {''eurUsd''} (process_btc b res0) w8 (process_eur e (process_btc b res0)) w9 es2 evs2"
    by (rule eur_progress[of env w8 "process_btc b res0"])
  from stocks_loop_progress[of stocks env "process_eur e (process_btc b res0)" w9]
  obtain res w' where
    l: "stocks_loop env stocks (process_eur e (process_btc b res0)) w9 = (Inr res, w')"
    by (auto simp: stocks_def)
  have eq: "fetchAllPrices env w = (Inr res, w')"
    unfolding unf if_not_P[OF no] using b e l by simp
  have tr: "trace w9 = trace w @ evs1 @ evs2"
    using progress_events(1)[OF p1] progress_events(1)[OF p2] fr by simp
  have keep: "store (cache w9) t = store (cache w) t" if "t \<noteq> ''btc''" "t \<noteq> ''eurUsd''" for t
  proof -
    have "store (cache w8) t = store (cache w7) t" using progress_outside(2)[OF p1, of t] that by simp
    moreover have "store (cache w9) t = store (cache w8) t" using progress_outside(2)[OF p2, of t] that by simp
    ultimately show ?thesis by (simp add: st)
  qed
  show thesis
    by (rule that[OF eq l tr]) (use keep in blast)
qed

text \<open>
  The throttled warm cache with healthy upstreams: the two head upstreams answer the first
  request, the four truthy market-data entries are adopted, and \<open>STRD\<close> is denied by the rate
  limiter. Nothing sleeps.
\<close>

lemma healthy_zero_strd_denied:
  "fetchAllPrices healthy_env throttled_world =
    (Inr \<lparr>data = [(''btc'', JNum 100000), (''eurUsd'', JNum 1.08), (''MSTR'', quote 420),
                   (''STRF'', quote 101), (''STRC'', quote 102), (''STRK'', quote 103), (''STRD'', JNum 0)],
           errors = [''STRD: Polygon rate limit exceeded''],
           successes = [''BTC'', ''EUR/USD'', ''MSTR'', ''STRF'', ''STRC'', ''STRK''],
           cached = False, partial = True, stale = True\<rparr>,
     throttled_world
       \<lparr>nreads := 19, ndraws := 2, ncalls := 2,
        cache := \<lparr>store = (store (cache throttled_world))
                     (''btc'' \<mapsto> \<lparr>evalue = JNum 100000, expiresAt = 1300007, createdAt = 1000008\<rparr>,
                      ''eurUsd'' \<mapsto> \<lparr>evalue = JNum 1.08, expiresAt = 1300009, createdAt = 1000010\<rparr>),
                  hits = 12, misses = 0, sets = 2\<rparr>,
        trace := [Request coingecko_url, Request exchangerate_url]\<rparr>)"
  by (simp add: run_defs healthy_backoff throttled_world_def empty_world_def world_with_def
        warm_world_def fresh_entry_def quote_def)

text \<open>
  C10. \<open>fetchAllPrices\<close> decides by the truthiness of the stored value, not by the entry's
  freshness. If the entry of any of the seven keys holds a falsy value, whether expired or
  not, the fast path is skipped (\<open>cached = false\<close>) and both head upstreams are requested.
  The key itself is then either requested from its upstream, or it is a market-data key
  for which no request is issued: it is listed in \<open>errors\<close> with the message
  \<open>Polygon rate limit exceeded\<close>, its falsy cached value is returned in \<open>data\<close> with
  \<open>stale = true\<close> and \<open>partial = true\<close>, and its entry stays as it was.
  Which of the two happens is decided by the rate limiter in the turn of the loop for that
  key (\<open>stock_step\<close>): if \<open>canMakeRequest\<close> admits, the key's URL is requested; if it denies,
  the turn issues no request at all (the trace grows at most by the 12 s pause) and records
  the error and the stale falsy value.
\<close>

theorem fetchAllPrices_falsy_entry:
  "(k \<in> set all_keys \<and> store (cache w) k = Some e \<and> \<not> truthy (evalue e) \<longrightarrow>
     (\<exists>res w' evs. fetchAllPrices env w = (Inr res, w') \<and> \<not> cached res
        \<and> trace w' = trace w @ evs
        \<and> Request coingecko_url \<in> set evs \<and> Request exchangerate_url \<in> set evs
        \<and> (Request (url_of env k) \<in> set evs
             \<or> k \<noteq> ''btc'' \<and> k \<noteq> ''eurUsd''
                \<and> Request (url_of env k) \<notin> set evs
                \<and> k @ '': Polygon rate limit exceeded'' \<in> set (errors res)
                \<and> map_of (data res) k = Some (evalue e) \<and> stale res \<and> partial res
                \<and> store (cache w') k = Some e)))
   \<and> (t \<noteq> ''btc'' \<and> t \<noteq> ''eurUsd'' \<and> store (cache ws) t = Some et \<and> \<not> truthy (evalue et) \<longrightarrow>
        (if fst (canMakeRequest env ''polygon'' POLYGON_RATE_LIMIT (snd (cache_get env t ws)))
         then \<exists>evs. trace (snd (stock_step env t rs ws)) = trace ws @ evs
                    \<and> Request (polygon_url env t) \<in> set evs
         else fst (stock_step env t rs ws) =
                Inr (rs\<lparr>errors := errors rs @ [t @ '': Polygon rate limit exceeded''],
                        data := obj_set t (evalue et) (data rs), stale := True, partial := True\<rparr>)
              \<and> (trace (snd (stock_step env t rs ws)) = trace ws
                   \<or> trace (snd (stock_step env t rs ws)) = trace ws @ [Sleep 12000])
              \<and> ncalls (snd (stock_step env t rs ws)) = ncalls ws
              \<and> store (cache (snd (stock_step env t rs ws))) = store (cache ws)))"
proof (intro conjI impI)
  assume a: "k \<in> set all_keys \<and> store (cache w) k = Some e \<and> \<not> truthy (evalue e)"
  then have k: "k \<in> set all_keys" and ent: "store (cache w) k = Some e" and fal: "\<not> truthy (evalue e)"
    by simp_all
  have hf: "holds_falsy w k" using ent fal by (auto simp: holds_falsy_def)
  show "\<exists>res w' evs. fetchAllPrices env w = (Inr res, w') \<and> \<not> cached res
        \<and> trace w' = trace w @ evs
        \<and> Request coingecko_url \<in> set evs \<and> Request exchangerate_url \<in> set evs
        \<and> (Request (url_of env k) \<in> set evs
             \<or> k \<noteq> ''btc'' \<and> k \<noteq> ''eurUsd''
                \<and> Request (url_of env k) \<notin> set evs
                \<and> k @ '': Polygon rate limit exceeded'' \<in> set (errors res)
                \<and> map_of (data res) k = Some (evalue e) \<and> stale res \<and> partial res
                \<and> store (cache w') k = Some e)"
  proof (cases rule: fetchAllPrices_cases[of env w])
    case (fast res w')
    with k have "holds_truthy w k" by blast
    with ent fal show ?thesis by (simp add: holds_truthy_def)
  next
    case (slow res w' es evs)
    have c: "\<not> cached res" using slow(2) by (simp add: progress_def)
    have tr: "trace w' = trace w @ evs" by (rule progress_events(1)[OF slow(2)])
    have last: "Request (url_of env k) \<in> set evs
             \<or> k \<noteq> ''btc'' \<and> k \<noteq> ''eurUsd''
                \<and> Request (url_of env k) \<notin> set evs
                \<and> k @ '': Polygon rate limit exceeded'' \<in> set (errors res)
                \<and> map_of (data res) k = Some (evalue e) \<and> stale res \<and> partial res
                \<and> store (cache w') k = Some e"
    proof (cases "Request (url_of env k) \<in> set evs")
      case True
      then show ?thesis by (rule disjI1)
    next
      case False
      have nb: "k \<noteq> ''btc''" using False slow(3) by (auto simp: url_of_def)
      have ne: "k \<noteq> ''eurUsd''" using False slow(4) nb by (auto simp: url_of_def)
      have ks: "k \<in> set stocks" using k nb ne by (auto simp: all_keys_def stocks_def)
      obtain r9 w9 res2 w2 evs0 where
        eq: "fetchAllPrices env w = (Inr res2, w2)"
        and l: "stocks_loop env stocks r9 w9 = (Inr res2, w2)"
        and t9: "trace w9 = trace w @ evs0"
        and keep: "\<forall>t. t \<noteq> ''btc'' \<and> t \<noteq> ''eurUsd'' \<longrightarrow> store (cache w9) t = store (cache w) t"
        by (rule fetchAllPrices_slow_path[OF k hf, of env])
      from eq slow(1) have same: "res2 = res" "w2 = w'" by simp_all
      from stocks_loop_progress[of stocks env r9 w9] l obtain es3 evs3 where
        p3: "progress env (set stocks) r9 w9 res2 w2 es3 evs3" by (auto simp: stocks_def)
      have t3: "trace w2 = trace w9 @ evs3" by (rule progress_events(1)[OF p3])
      have "evs = evs0 @ evs3" using tr t3 t9 same by simp
      with False have n3: "Request (url_of env k) \<notin> set evs3" by simp
      have st9: "store (cache w9) k = Some e" using keep nb ne ent by simp
      have "k @ '': Polygon rate limit exceeded'' \<in> set (errors res2)
            \<and> map_of (data res2) k = Some (evalue e) \<and> stale res2 \<and> partial res2
            \<and> store (cache w2) k = Some e"
        by (rule stocks_loop_falsy[OF _ _ _ ks st9 fal l t3 n3]) (simp_all add: stocks_def)
      with same nb ne False show ?thesis by simp
    qed
    from slow(1) c tr slow(3,4) last show ?thesis
      by (intro exI[of _ res] exI[of _ w'] exI[of _ evs] conjI)
  qed
next
  assume b: "t \<noteq> ''btc'' \<and> t \<noteq> ''eurUsd'' \<and> store (cache ws) t = Some et \<and> \<not> truthy (evalue et)"
  then have t: "t \<noteq> ''btc''" "t \<noteq> ''eurUsd''" and e: "store (cache ws) t = Some et" "\<not> truthy (evalue et)"
    by simp_all
  show "if fst (canMakeRequest env ''polygon'' POLYGON_RATE_LIMIT (snd (cache_get env t ws)))
         then \<exists>evs. trace (snd (stock_step env t rs ws)) = trace ws @ evs
                    \<and> Request (polygon_url env t) \<in> set evs
         else fst (stock_step env t rs ws) =
                Inr (rs\<lparr>errors := errors rs @ [t @ '': Polygon rate limit exceeded''],
                        data := obj_set t (evalue et) (data rs), stale := True, partial := True\<rparr>)
              \<and> (trace (snd (stock_step env t rs ws)) = trace ws
                   \<or> trace (snd (stock_step env t rs ws)) = trace ws @ [Sleep 12000])
              \<and> ncalls (snd (stock_step env t rs ws)) = ncalls ws
              \<and> store (cache (snd (stock_step env t rs ws))) = store (cache ws)"
  proof (cases "fst (canMakeRequest env ''polygon'' POLYGON_RATE_LIMIT (snd (cache_get env t ws)))")
    case True
    from stock_step_allowed[OF t e True, of rs] True show ?thesis by (simp only: if_True)
  next
    case False
    from stock_step_denied[OF t e False, of rs] False show ?thesis by (simp only: if_False simp_thms)
  qed
qed

text \<open>
  A warm cache whose non-expired \<open>STRD\<close> entry holds 0, with healthy upstreams: with an empty
  window the rate limiter admits and the turn for \<open>STRD\<close> requests its URL; with a full window
  it denies and the turn makes no request.
\<close>

theorem fetchAllPrices_falsy_entry_witness:
  "fst (cache_has healthy_env ''STRD'' (warm_world (JNum 100000) (JNum 0)))
   \<and> (\<exists>res w' evs. fetchAllPrices healthy_env (warm_world (JNum 100000) (JNum 0)) = (Inr res, w')
        \<and> \<not> cached res
        \<and> trace w' = trace (warm_world (JNum 100000) (JNum 0)) @ evs
        \<and> Request coingecko_url \<in> set evs \<and> Request exchangerate_url \<in> set evs
        \<and> (Request (polygon_url healthy_env ''STRD'') \<in> set evs
             \<or> Request (polygon_url healthy_env ''STRD'') \<notin> set evs
                \<and> ''STRD: Polygon rate limit exceeded'' \<in> set (errors res)
                \<and> map_of (data res) ''STRD'' = Some (JNum 0) \<and> stale res \<and> partial res
                \<and> store (cache w') ''STRD'' = Some (fresh_entry (JNum 0))))
   \<and> fst (canMakeRequest healthy_env ''polygon'' POLYGON_RATE_LIMIT
            (snd (cache_get healthy_env ''STRD'' (warm_world (JNum 100000) (JNum 0)))))
   \<and> (\<exists>evs. trace (snd (stock_step healthy_env ''STRD''
                   \<lparr>data = [], errors = [], successes = [], cached = False, partial = False,
                    stale = False\<rparr> (warm_world (JNum 100000) (JNum 0))))
               = trace (warm_world (JNum 100000) (JNum 0)) @ evs
             \<and> Request (polygon_url healthy_env ''STRD'') \<in> set evs)
   \<and> \<not> fst (canMakeRequest healthy_env ''polygon'' POLYGON_RATE_LIMIT
              (snd (cache_get healthy_env ''STRD'' throttled_world)))
   \<and> fst (stock_step healthy_env ''STRD''
             \<lparr>data = [], errors = [], successes = [], cached = False, partial = False,
              stale = False\<rparr> throttled_world) =
       Inr \<lparr>data = [(''STRD'', JNum 0)], errors = [''STRD: Polygon rate limit exceeded''],
            successes = [], cached = False, partial = True, stale = True\<rparr>
   \<and> ncalls (snd (stock_step healthy_env ''STRD''
             \<lparr>data = [], errors = [], successes = [], cached = False, partial = False,
              stale = False\<rparr> throttled_world)) = 0"
proof -
  let ?w = "warm_world (JNum 100000) (JNum 0)"
  let ?rs = "\<lparr>data = [], errors = [], successes = [], cached = False, partial = False, stale = False\<rparr>"
  note ws = warm_world_def world_with_def empty_world_def fresh_entry_def throttled_world_def
  note lim = canMakeRequest_def cleanup_def timestamps_of_def cache_get_def date_now_def Let_def
    RATE_LIMIT_WINDOW_def POLYGON_RATE_LIMIT_def
  have has: "fst (cache_has healthy_env ''STRD'' ?w)"
    by (simp add: cache_has_def date_now_def ws)
  have h1: "''STRD'' \<in> set all_keys \<and> store (cache ?w) ''STRD'' = Some (fresh_entry (JNum 0))
        \<and> \<not> truthy (evalue (fresh_entry (JNum 0)))"
    by (simp add: all_keys_def ws)
  have h2: "''STRD'' \<noteq> ''btc'' \<and> ''STRD'' \<noteq> ''eurUsd''
        \<and> store (cache ?w) ''STRD'' = Some (fresh_entry (JNum 0))
        \<and> \<not> truthy (evalue (fresh_entry (JNum 0)))"
    by (simp add: ws)
  have h3: "''STRD'' \<noteq> ''btc'' \<and> ''STRD'' \<noteq> ''eurUsd''
        \<and> store (cache throttled_world) ''STRD'' = Some (fresh_entry (JNum 0))
        \<and> \<not> truthy (evalue (fresh_entry (JNum 0)))"
    by (simp add: ws)
  have adm: "fst (canMakeRequest healthy_env ''polygon'' POLYGON_RATE_LIMIT
                (snd (cache_get healthy_env ''STRD'' ?w)))"
    by (simp add: lim ws)
  have den: "\<not> fst (canMakeRequest healthy_env ''polygon'' POLYGON_RATE_LIMIT
                (snd (cache_get healthy_env ''STRD'' throttled_world)))"
    by (simp add: lim ws)
  note run = fetchAllPrices_falsy_entry[where env = healthy_env and k = "''STRD''" and w = ?w
      and e = "fresh_entry (JNum 0)" and t = "''STRD''" and ws = ?w and et = "fresh_entry (JNum 0)"
      and rs = ?rs]
  note thr = fetchAllPrices_falsy_entry[where env = healthy_env and k = "''STRD''" and w = ?w
      and e = "fresh_entry (JNum 0)" and t = "''STRD''" and ws = throttled_world
      and et = "fresh_entry (JNum 0)" and rs = ?rs]
  have a: "\<exists>res w' evs. fetchAllPrices healthy_env ?w = (Inr res, w')
        \<and> \<not> cached res
        \<and> trace w' = trace ?w @ evs
        \<and> Request coingecko_url \<in> set evs \<and> Request exchangerate_url \<in> set evs
        \<and> (Request (polygon_url healthy_env ''STRD'') \<in> set evs
             \<or> Request (polygon_url healthy_env ''STRD'') \<notin> set evs
                \<and> ''STRD: Polygon rate limit exceeded'' \<in> set (errors res)
                \<and> map_of (data res) ''STRD'' = Some (JNum 0) \<and> stale res \<and> partial res
                \<and> store (cache w') ''STRD'' = Some (fresh_entry (JNum 0)))"
    using run[THEN conjunct1, rule_format, OF h1] by (simp add: url_of_def fresh_entry_def)
  have b: "\<exists>evs. trace (snd (stock_step healthy_env ''STRD'' ?rs ?w)) = trace ?w @ evs
             \<and> Request (polygon_url healthy_env ''STRD'') \<in> set evs"
    using run[THEN conjunct2, rule_format, OF h2] unfolding if_P[OF adm] .
  have c: "fst (stock_step healthy_env ''STRD'' ?rs throttled_world) =
                Inr (?rs\<lparr>errors := errors ?rs @ [''STRD'' @ '': Polygon rate limit exceeded''],
                        data := obj_set ''STRD'' (evalue (fresh_entry (JNum 0))) (data ?rs),
                        stale := True, partial := True\<rparr>)
              \<and> (trace (snd (stock_step healthy_env ''STRD'' ?rs throttled_world)) = trace throttled_world
                   \<or> trace (snd (stock_step healthy_env ''STRD'' ?rs throttled_world))
                      = trace throttled_world @ [Sleep 12000])
              \<and> ncalls (snd (stock_step healthy_env ''STRD'' ?rs throttled_world)) = ncalls throttled_world
              \<and> store (cache (snd (stock_step healthy_env ''STRD'' ?rs throttled_world)))
                  = store (cache throttled_world)"
    using thr[THEN conjunct2, rule_format, OF h3] unfolding if_not_P[OF den] .
  have c1: "fst (stock_step healthy_env ''STRD'' ?rs throttled_world) =
       Inr \<lparr>data = [(''STRD'', JNum 0)], errors = [''STRD: Polygon rate limit exceeded''],
            successes = [], cached = False, partial = True, stale = True\<rparr>"
    using c[THEN conjunct1] by (simp add: fresh_entry_def)
  have c2: "ncalls (snd (stock_step healthy_env ''STRD'' ?rs throttled_world)) = 0"
    using c[THEN conjunct2, THEN conjunct2, THEN conjunct1] by (simp add: ws)
  from has a adm b den c1 c2 show ?thesis by (intro conjI)
qed

text \<open>
  The throttled warm cache with healthy upstreams: the non-expired \<open>STRD\<close> entry with value 0
  is treated as absent, yet \<open>STRD\<close> is not re-fetched. The only two requests go to the head
  upstreams, nothing sleeps, and the value 0 is returned as stale.
\<close>

theorem fetchAllPrices_falsy_entry_denied_by_limiter:
  "fst (cache_has healthy_env ''STRD'' throttled_world)
   \<and> fst (fetchAllPrices healthy_env throttled_world) =
       Inr \<lparr>data = [(''btc'', JNum 100000), (''eurUsd'', JNum 1.08), (''MSTR'', quote 420),
                   (''STRF'', quote 101), (''STRC'', quote 102), (''STRK'', quote 103), (''STRD'', JNum 0)],
           errors = [''STRD: Polygon rate limit exceeded''],
           successes = [''BTC'', ''EUR/USD'', ''MSTR'', ''STRF'', ''STRC'', ''STRK''],
           cached = False, partial = True, stale = True\<rparr>
   \<and> trace (snd (fetchAllPrices healthy_env throttled_world)) =
       [Request coingecko_url, Request exchangerate_url]
   \<and> sleeps_of (trace (snd (fetchAllPrices healthy_env throttled_world))) = []
   \<and> Request (polygon_url healthy_env ''STRD'')
        \<notin> set (trace (snd (fetchAllPrices healthy_env throttled_world)))
   \<and> ncalls (snd (fetchAllPrices healthy_env throttled_world)) = 2"
  unfolding healthy_zero_strd_denied
  by (simp add: cache_has_def date_now_def throttled_world_def warm_world_def world_with_def
        empty_world_def fresh_entry_def polygon_url_def coingecko_url_def exchangerate_url_def)

section \<open>Price fetcher: fallback values\<close>

text \<open>
  C6. \<open>fetchAllPrices\<close> always returns a results object in which every one of the seven
  keys has a value in \<open>data\<close>. A key that ends with no cache entry at all (so with neither a
  fresh value, which would have been cached, nor a stale one) has its fallback in \<open>data\<close>
  and is listed in \<open>errors\<close>: the number 100000 for \<open>btc\<close>, the number 1.05 for \<open>eurUsd\<close>, the
  object \<open>{price: 100, avg10d: 100}\<close> for \<open>STRF\<close>, \<open>STRC\<close>, \<open>STRK\<close> and \<open>STRD\<close>, and \<open>null\<close>
  for \<open>MSTR\<close>.
\<close>

theorem fetchAllPrices_fallbacks:
  "\<exists>res w'. fetchAllPrices env w = (Inr res, w')
     \<and> (\<forall>k\<in>set all_keys. \<exists>v. map_of (data res) k = Some v)
     \<and> (store (cache w') ''btc'' = None \<longrightarrow>
          map_of (data res) ''btc'' = Some (JNum 100000) \<and> listed ''BTC'' (errors res))
     \<and> (store (cache w') ''eurUsd'' = None \<longrightarrow>
          map_of (data res) ''eurUsd'' = Some (JNum 1.05) \<and> listed ''EUR/USD'' (errors res))
     \<and> (store (cache w') ''MSTR'' = None \<longrightarrow>
          map_of (data res) ''MSTR'' = Some JNull \<and> listed ''MSTR'' (errors res))
     \<and> (\<forall>t\<in>{''STRF'', ''STRC'', ''STRK'', ''STRD''}. store (cache w') t = None \<longrightarrow>
          map_of (data res) t = Some (JObj [(''price'', JNum 100), (''avg10d'', JNum 100)])
          \<and> listed t (errors res))"
proof (cases rule: fetchAllPrices_cases[of env w])
  case (fast res w')
  have "store (cache w') k \<noteq> None" if "k \<in> set all_keys" for k
    using fast(4,8) that by (auto simp: holds_truthy_def)
  then have "store (cache w') ''btc'' \<noteq> None" "store (cache w') ''eurUsd'' \<noteq> None"
    "store (cache w') ''MSTR'' \<noteq> None" "\<forall>t\<in>{''STRF'', ''STRC'', ''STRK'', ''STRD''}. store (cache w') t \<noteq> None"
    by (simp_all add: all_keys_def)
  with fast(1,9) show ?thesis by auto
next
  case (slow res w' es evs)
  note p = slow(2)[unfolded progress_def]
  have es: "errors res = es" using p by simp
  have key: "map_of (data res) k \<noteq> None
      \<and> (store (cache w') k = None \<longrightarrow> map_of (data res) k = Some (fallback_of k) \<and> listed (label_of k) (errors res))"
    if "k \<in> set all_keys" for k
    using p that unfolding es by blast
  have 1: "\<forall>k\<in>set all_keys. \<exists>v. map_of (data res) k = Some v" using key by auto
  have 2: "store (cache w') ''btc'' = None \<longrightarrow>
          map_of (data res) ''btc'' = Some (JNum 100000) \<and> listed ''BTC'' (errors res)"
    using key[of "''btc''"] by (simp add: all_keys_def fallback_of_def label_of_def)
  have 3: "store (cache w') ''eurUsd'' = None \<longrightarrow>
          map_of (data res) ''eurUsd'' = Some (JNum 1.05) \<and> listed ''EUR/USD'' (errors res)"
    using key[of "''eurUsd''"] by (simp add: all_keys_def fallback_of_def label_of_def)
  have 4: "store (cache w') ''MSTR'' = None \<longrightarrow>
          map_of (data res) ''MSTR'' = Some JNull \<and> listed ''MSTR'' (errors res)"
    using key[of "''MSTR''"] by (simp add: all_keys_def fallback_of_def label_of_def stock_fallback_def)
  have 5: "\<forall>t\<in>{''STRF'', ''STRC'', ''STRK'', ''STRD''}. store (cache w') t = None \<longrightarrow>
          map_of (data res) t = Some (JObj [(''price'', JNum 100), (''avg10d'', JNum 100)])
          \<and> listed t (errors res)"
    using key[of "''STRF''"] key[of "''STRC''"] key[of "''STRK''"] key[of "''STRD''"]
    by (simp add: all_keys_def fallback_of_def label_of_def stock_fallback_def)
  from slow(1) 1 2 3 4 5 show ?thesis
    by (intro exI[of _ res] exI[of _ w'] conjI) assumption+
qed

text \<open>
  A cold start with all upstreams unreachable: every key gets its fallback.
\<close>

theorem fetchAllPrices_fallbacks_witness:
  "\<exists>res w'. fetchAllPrices ticking_env empty_world = (Inr res, w')
     \<and> store (cache w') ''btc'' = None
     \<and> map_of (data res) ''btc'' = Some (JNum 100000) \<and> listed ''BTC'' (errors res)
     \<and> store (cache w') ''eurUsd'' = None
     \<and> map_of (data res) ''eurUsd'' = Some (JNum 1.05) \<and> listed ''EUR/USD'' (errors res)
     \<and> store (cache w') ''MSTR'' = None
     \<and> map_of (data res) ''MSTR'' = Some JNull \<and> listed ''MSTR'' (errors res)
     \<and> store (cache w') ''STRD'' = None
     \<and> map_of (data res) ''STRD'' = Some (JObj [(''price'', JNum 100), (''avg10d'', JNum 100)])
     \<and> listed ''STRD'' (errors res)"
proof -
  from fetchAllPrices_fallbacks[of ticking_env empty_world] obtain res w' where
    eq: "fetchAllPrices ticking_env empty_world = (Inr res, w')"
    and btc: "store (cache w') ''btc'' = None \<longrightarrow>
          map_of (data res) ''btc'' = Some (JNum 100000) \<and> listed ''BTC'' (errors res)"
    and eur: "store (cache w') ''eurUsd'' = None \<longrightarrow>
          map_of (data res) ''eurUsd'' = Some (JNum 1.05) \<and> listed ''EUR/USD'' (errors res)"
    and mstr: "store (cache w') ''MSTR'' = None \<longrightarrow>
          map_of (data res) ''MSTR'' = Some JNull \<and> listed ''MSTR'' (errors res)"
    and pref: "\<forall>t\<in>{''STRF'', ''STRC'', ''STRK'', ''STRD''}. store (cache w') t = None \<longrightarrow>
          map_of (data res) t = Some (JObj [(''price'', JNum 100), (''avg10d'', JNum 100)])
          \<and> listed t (errors res)"
    by (elim exE conjE) (rule that)
  from eq[unfolded offline_cold_start] have w': "store (cache w') = Map.empty"
    by (auto simp: empty_world_def)
  from pref have strd: "store (cache w') ''STRD'' = None \<longrightarrow>
          map_of (data res) ''STRD'' = Some (JObj [(''price'', JNum 100), (''avg10d'', JNum 100)])
          \<and> listed ''STRD'' (errors res)" by simp
  show ?thesis
    using eq btc eur mstr strd unfolding w'
    by (intro exI[of _ res] exI[of _ w']) (simp add: w')
qed

text \<open>
  In that run the market-data key \<open>MSTR\<close> ends with no cache entry and its value in
  \<open>data\<close> is \<open>null\<close>, not a structured fallback.
\<close>

theorem fetchAllPrices_mstr_fallback_is_null:
  "fst (fetchAllPrices ticking_env empty_world) =
    Inr \<lparr>data = [(''btc'', JNum 100000), (''eurUsd'', JNum 1.05), (''MSTR'', JNull),
                   (''STRF'', JObj [(''price'', JNum 100), (''avg10d'', JNum 100)]),
                   (''STRC'', JObj [(''price'', JNum 100), (''avg10d'', JNum 100)]),
                   (''STRK'', JObj [(''price'', JNum 100), (''avg10d'', JNum 100)]),
                   (''STRD'', JObj [(''price'', JNum 100), (''avg10d'', JNum 100)])],
           errors = [''BTC: offline'', ''EUR/USD: offline'', ''MSTR: offline'', ''STRF: offline'',
                     ''STRC: offline'', ''STRK: offline'', ''STRD: offline''],
           successes = [], cached = False, partial = True, stale = False\<rparr>
   \<and> store (cache (snd (fetchAllPrices ticking_env empty_world))) ''MSTR'' = None"
  unfolding offline_cold_start by (simp add: empty_world_def)

section \<open>Price fetcher: failures stay per key\<close>

text \<open>
  C9. \<open>fetchAndCachePrice\<close> never throws: for every key, every process state and every
  behaviour of the upstreams it returns a result object with the key; when \<open>success\<close> is
  false the object carries an error message, and whenever the cache held any entry for the
  key before the call, expired or not, it carries that entry's value with \<open>stale = true\<close>.
  Consequently \<open>fetchAllPrices\<close> always returns a results object, and the handler of
  \<open>/api/prices/all\<close> never answers 503 on account of it.
\<close>

theorem fetchAndCachePrice_never_throws:
  "(\<exists>r w'. fetchAndCachePrice env k w = (Inr r, w') \<and> key r = k
       \<and> (\<not> success r \<longrightarrow>
             (\<exists>m. ferror r = Some m)
           \<and> (\<forall>e. store (cache w) k = Some e \<longrightarrow> fvalue r = Some (evalue e) \<and> fstale r = Some True)))
   \<and> (\<exists>res w'. fetchAllPrices env w = (Inr res, w'))
   \<and> status (fst (prices_all env force w)) \<noteq> 503"
proof (intro conjI)
  show "\<exists>r w'. fetchAndCachePrice env k w = (Inr r, w') \<and> key r = k
       \<and> (\<not> success r \<longrightarrow>
             (\<exists>m. ferror r = Some m)
           \<and> (\<forall>e. store (cache w) k = Some e \<longrightarrow> fvalue r = Some (evalue e) \<and> fstale r = Some True))"
    by (cases rule: fetchAndCachePrice_effect[of env k w]) auto
  show "\<exists>res w'. fetchAllPrices env w = (Inr res, w')"
    by (cases rule: fetchAllPrices_cases[of env w]) auto
  let ?w0 = "if force then cache_clear w else w"
  obtain res w' where "fetchAllPrices env ?w0 = (Inr res, w')"
    by (cases rule: fetchAllPrices_cases[of env ?w0]) auto
  then have "status (fst (prices_all env force w)) = status (fst (send_prices env res w'))"
    by (simp add: prices_all_def prices_all_settled_def)
  then show "status (fst (prices_all env force w)) \<noteq> 503"
    by (simp add: send_prices_status)
qed

text \<open>
  An expired \<open>btc\<close> entry with the upstream unreachable: five attempts, then the stale
  value.
\<close>

theorem fetchAndCachePrice_never_throws_witness:
  "fetchAndCachePrice ticking_env ''btc''
      (world_with [(''btc'', \<lparr>evalue = JNum 95000, expiresAt = 900000, createdAt = 600000\<rparr>)]) =
     (Inr \<lparr>success = False, key = ''btc'', fvalue = Some (JNum 95000), fstale = Some True,
           ferror = Some ''offline''\<rparr>,
      (world_with [(''btc'', \<lparr>evalue = JNum 95000, expiresAt = 900000, createdAt = 600000\<rparr>)])
        \<lparr>ncalls := 5, trace := backoff_trace coingecko_url 0 4\<rparr>)
   \<and> status (fst (prices_all ticking_env False
        (world_with [(''btc'', \<lparr>evalue = JNum 95000, expiresAt = 900000, createdAt = 600000\<rparr>)]))) \<noteq> 503"
proof
  let ?w = "world_with [(''btc'', \<lparr>evalue = JNum 95000, expiresAt = 900000, createdAt = 600000\<rparr>)]"
  have tb: "fetchWithBackoff (fetchBtcPrice ticking_env) MAX_RETRIES ?w =
     (Inl (Throw (Error ''offline'')), ?w\<lparr>ncalls := 5, trace := backoff_trace coingecko_url 0 4\<rparr>)"
    by (simp add: offline_backoff world_with_def empty_world_def)
  from fetchAndCachePrice_never_throws[of ticking_env "''btc''" ?w False] obtain r w' where
    eq: "fetchAndCachePrice ticking_env ''btc'' ?w = (Inr r, w')" and k: "key r = ''btc''"
    and f: "\<not> success r \<longrightarrow> (\<exists>m. ferror r = Some m)
           \<and> (\<forall>e. store (cache ?w) ''btc'' = Some e \<longrightarrow> fvalue r = Some (evalue e) \<and> fstale r = Some True)"
    by blast
  have ns: "\<not> success r" "ferror r = Some ''offline''"
    "w' = ?w\<lparr>ncalls := 5, trace := backoff_trace coingecko_url 0 4\<rparr>"
    using eq by (auto simp: fetchAndCachePrice_def tb cache_getRaw_def split: option.splits)
  have "store (cache ?w) ''btc'' = Some \<lparr>evalue = JNum 95000, expiresAt = 900000, createdAt = 600000\<rparr>"
    by (simp add: world_with_def empty_world_def)
  with f ns have "fvalue r = Some (JNum 95000)" "fstale r = Some True" by auto
  with ns k have "r = \<lparr>success = False, key = ''btc'', fvalue = Some (JNum 95000), fstale = Some True,
           ferror = Some ''offline''\<rparr>" by simp
  with eq ns show "fetchAndCachePrice ticking_env ''btc'' ?w =
     (Inr \<lparr>success = False, key = ''btc'', fvalue = Some (JNum 95000), fstale = Some True,
           ferror = Some ''offline''\<rparr>,
      ?w\<lparr>ncalls := 5, trace := backoff_trace coingecko_url 0 4\<rparr>)" by simp
  show "status (fst (prices_all ticking_env False ?w)) \<noteq> 503"
    using fetchAndCachePrice_never_throws[of ticking_env "''btc''" ?w False] by blast
qed

section \<open>HTTP surface: the status of GET /api/prices/all\<close>

text \<open>
  C2. The status of the response, by the outcome of \<open>fetchAllPrices\<close>: 503 exactly when it
  threw, and then the body is \<open>{error: 'Service unavailable', message, retryAfter: 60}\<close>; 207
  exactly when it returned a results object with \<open>partial = true\<close> and a non-empty \<open>errors\<close>
  list; 200 exactly when it returned any other results object, in particular whenever
  \<open>errors\<close> is empty. A results object is sent with its \<open>data\<close>, \<open>errors\<close> and \<open>successes\<close>.
  A non-empty \<open>errors\<close> list with \<open>partial = false\<close> is therefore sent with status 200.
\<close>

theorem prices_all_status:
  "(status (fst (prices_all_settled env outcome w)) = 503 \<longleftrightarrow> (\<exists>error. outcome = Inl error))
   \<and> (status (fst (prices_all_settled env outcome w)) = 207
        \<longleftrightarrow> (\<exists>res. outcome = Inr res \<and> partial res \<and> errors res \<noteq> []))
   \<and> (status (fst (prices_all_settled env outcome w)) = 200
        \<longleftrightarrow> (\<exists>res. outcome = Inr res \<and> \<not> (partial res \<and> errors res \<noteq> [])))
   \<and> (\<forall>res. outcome = Inr res \<and> errors res = [] \<longrightarrow> status (fst (prices_all_settled env outcome w)) = 200)
   \<and> (\<forall>error. outcome = Inl error \<longrightarrow>
         body (fst (prices_all_settled env outcome w)) = ErrorBody ''Service unavailable'' (message error) 60)
   \<and> (\<forall>res. outcome = Inr res \<longrightarrow>
         (\<exists>meta. body (fst (prices_all_settled env outcome w))
                  = PricesBody (data res) meta (errors res) (successes res)))
   \<and> prices_all env force w =
       prices_all_settled env (fst (fetchAllPrices env (if force then cache_clear w else w)))
         (snd (fetchAllPrices env (if force then cache_clear w else w)))"
proof (cases outcome)
  case (Inl error)
  then show ?thesis
    by (simp add: prices_all_settled_def send_unavailable_def prices_all_def case_prod_beta)
next
  case (Inr res)
  then show ?thesis
    using send_prices_status[of env res w]
    by (auto simp: prices_all_settled_def prices_all_def case_prod_beta)
qed

text \<open>
  A thrown error, a partial result and a fully cached result.
\<close>

theorem prices_all_status_witness:
  "status (fst (prices_all_settled ticking_env (Inl (Error ''boom'')) empty_world)) = 503
   \<and> body (fst (prices_all_settled ticking_env (Inl (Error ''boom'')) empty_world))
       = ErrorBody ''Service unavailable'' ''boom'' 60
   \<and> status (fst (prices_all_settled ticking_env
         (Inr \<lparr>data = [(''btc'', JNum 100000), (''MSTR'', JNull), (''eurUsd'', JNum 1.05)],
               errors = [''MSTR: Polygon HTTP 429: Too Many Requests''],
               successes = [''BTC'', ''EUR/USD''], cached = False, partial = True, stale = False\<rparr>)
         empty_world)) = 207
   \<and> status (fst (prices_all_settled ticking_env
         (Inr \<lparr>data = [(''btc'', JNum 100000)], errors = [], successes = [''BTC''],
               cached = True, partial = False, stale = False\<rparr>)
         empty_world)) = 200"
proof -
  let ?r207 = "\<lparr>data = [(''btc'', JNum 100000), (''MSTR'', JNull), (''eurUsd'', JNum 1.05)],
               errors = [''MSTR: Polygon HTTP 429: Too Many Requests''],
               successes = [''BTC'', ''EUR/USD''], cached = False, partial = True, stale = False\<rparr>"
  let ?r200 = "\<lparr>data = [(''btc'', JNum 100000)], errors = [], successes = [''BTC''],
               cached = True, partial = False, stale = False\<rparr>"
  note down = prices_all_status[where env = ticking_env and w = empty_world and force = False
      and outcome = "Inl (Error ''boom'')"]
  note part = prices_all_status[where env = ticking_env and w = empty_world and force = False
      and outcome = "Inr ?r207"]
  note full = prices_all_status[where env = ticking_env and w = empty_world and force = False
      and outcome = "Inr ?r200"]
  have a: "status (fst (prices_all_settled ticking_env (Inl (Error ''boom'')) empty_world)) = 503"
    by (rule iffD2[OF down[THEN conjunct1]]) (rule exI[of _ "Error ''boom''"], rule refl)
  have "body (fst (prices_all_settled ticking_env (Inl (Error ''boom'')) empty_world))
       = ErrorBody ''Service unavailable'' (message (Error ''boom'')) 60"
    by (rule down[THEN conjunct2, THEN conjunct2, THEN conjunct2, THEN conjunct2, THEN conjunct1,
          rule_format]) (rule refl)
  then have a': "body (fst (prices_all_settled ticking_env (Inl (Error ''boom'')) empty_world))
       = ErrorBody ''Service unavailable'' ''boom'' 60"
    by simp
  have p: "partial ?r207 \<and> errors ?r207 \<noteq> []" by simp
  have b: "status (fst (prices_all_settled ticking_env (Inr ?r207) empty_world)) = 207"
    by (rule iffD2[OF part[THEN conjunct2, THEN conjunct1]])
       (rule exI[of _ ?r207], rule conjI, rule refl, rule p)
  have q: "errors ?r200 = []" by simp
  have c: "status (fst (prices_all_settled ticking_env (Inr ?r200) empty_world)) = 200"
    by (rule full[THEN conjunct2, THEN conjunct2, THEN conjunct2, THEN conjunct1, rule_format])
       (rule conjI, rule refl, rule q)
  from a a' b c show ?thesis by (intro conjI)
qed

text \<open>
  A warm cache whose \<open>btc\<close> entry holds 0, with the upstreams unreachable: the response lists
  two errors and has status 200, because a failure of \<open>btc\<close> or \<open>eurUsd\<close> does not set
  \<open>partial\<close>.
\<close>

theorem prices_all_errors_with_status_200:
  "fst (prices_all ticking_env False (warm_world (JNum 0) (quote 104))) =
     \<lparr>status = 200,
      body = PricesBody
        [(''btc'', JNum 0), (''eurUsd'', JNum 1.08), (''MSTR'', quote 420),
         (''STRF'', quote 101), (''STRC'', quote 102), (''STRK'', quote 103), (''STRD'', quote 104)]
        \<lparr>mcached = False, mpartial = False, mstale = True, degraded = False, timestamp = 1000012,
         ttls = [(''btc'', 300), (''eurUsd'', 300), (''MSTR'', 300), (''STRF'', 300),
                 (''STRC'', 300), (''STRK'', 300), (''STRD'', 300)]\<rparr>
        [''BTC: offline'', ''EUR/USD: offline'']
        [''MSTR'', ''STRF'', ''STRC'', ''STRK'', ''STRD'']\<rparr>"
  unfolding prices_all_def if_False warm_zero_btc prod.case
  by (simp add: prices_all_settled_def send_prices_def date_now_def cache_getRemainingTTL_def
        round_seconds_def Let_def warm_world_def world_with_def empty_world_def fresh_entry_def)

end
